(* ===== verification/Prelude.thy ===== *)
theory Prelude
  imports Main "HOL-Library.AList"
begin

text \<open>
  Shared vocabulary of the development.

  \<^item> The effects of the Go source: a function that returns \<open>(T, error)\<close> is a value of type
    \<open>('e, 'a) res\<close> (\<open>Inl\<close> is the error), a function that returns only \<open>error\<close> is an
    \<open>'e option\<close> (\<open>None\<close> is \<open>nil\<close>), and a function that also talks to the Kubernetes API is
    an \<open>('s, 'e, 'a) io\<close>: a function of the state of the outside world.
  \<^item> Two's complement int64 arithmetic (\<open>wrap64\<close>), Go's integer division (\<open>quot\<close>), instants and durations in
    nanoseconds.
  \<^item> Go maps as association lists with distinct keys. The list order is the iteration order of
    \<open>range\<close>, which Go leaves open, so a theorem about every list covers every order.
  \<^item> The collections \<open>go_simps\<close> (unfolding of the effect combinators), \<open>map_simps\<close> (map
    lookups after updates) and \<open>inv_intros\<close> (preservation of invariants).
\<close>

named_theorems go_simps
named_theorems map_simps
named_theorems inv_intros

section \<open>Results and errors\<close>

type_synonym ('e, 'a) res = "'e + 'a"

definition bindR :: "('e, 'a) res \<Rightarrow> ('a \<Rightarrow> ('e, 'b) res) \<Rightarrow> ('e, 'b) res" where
  "bindR r f = (case r of Inl e \<Rightarrow> Inl e | Inr x \<Rightarrow> f x)"

text \<open>\<open>if err := a; err != nil { return err }; b\<close> for functions that return only an error.\<close>

definition andthen :: "'e option \<Rightarrow> 'e option \<Rightarrow> 'e option" where
  "andthen a b = (case a of Some e \<Rightarrow> Some e | None \<Rightarrow> b)"

text \<open>\<open>if err := a; err != nil { return ..., err }; r\<close> for functions that also return a value.\<close>

definition checkR :: "'e option \<Rightarrow> ('e, 'a) res \<Rightarrow> ('e, 'a) res" where
  "checkR a r = (case a of Some e \<Rightarrow> Inl e | None \<Rightarrow> r)"

definition err_of :: "('e, 'a) res \<Rightarrow> 'e option" where
  "err_of r = (case r of Inl e \<Rightarrow> Some e | Inr _ \<Rightarrow> None)"

text \<open>The first error of a loop whose body returns an error.\<close>

fun first_error :: "('a \<Rightarrow> 'e option) \<Rightarrow> 'a list \<Rightarrow> 'e option" where
  "first_error f [] = None"
| "first_error f (x # xs) = (case f x of Some e \<Rightarrow> Some e | None \<Rightarrow> first_error f xs)"

fun mapR :: "('a \<Rightarrow> ('e, 'b) res) \<Rightarrow> 'a list \<Rightarrow> ('e, 'b list) res" where
  "mapR f [] = Inr []"
| "mapR f (x # xs) = (case f x of Inl e \<Rightarrow> Inl e | Inr y \<Rightarrow>
     (case mapR f xs of Inl e \<Rightarrow> Inl e | Inr ys \<Rightarrow> Inr (y # ys)))"

section \<open>Computations that talk to the outside world\<close>

type_synonym ('s, 'e, 'a) io = "'s \<Rightarrow> ('e, 'a) res \<times> 's"

definition ret :: "'a \<Rightarrow> ('s, 'e, 'a) io" where
  "ret x = (\<lambda>s. (Inr x, s))"

definition raise :: "'e \<Rightarrow> ('s, 'e, 'a) io" where
  "raise e = (\<lambda>s. (Inl e, s))"

definition bindE :: "('s, 'e, 'a) io \<Rightarrow> ('a \<Rightarrow> ('s, 'e, 'b) io) \<Rightarrow> ('s, 'e, 'b) io" where
  "bindE m f = (\<lambda>s. case m s of (Inl e, t) \<Rightarrow> (Inl e, t) | (Inr x, t) \<Rightarrow> f x t)"

definition guardE :: "'e option \<Rightarrow> ('s, 'e, unit) io" where
  "guardE c = (case c of Some e \<Rightarrow> raise e | None \<Rightarrow> ret ())"

definition liftR :: "('e, 'a) res \<Rightarrow> ('s, 'e, 'a) io" where
  "liftR r = (case r of Inl e \<Rightarrow> raise e | Inr x \<Rightarrow> ret x)"

text \<open>\<open>x, err := m\<close> where the code looks at \<open>err\<close> itself instead of returning it.\<close>

definition tryE :: "('s, 'e, 'a) io \<Rightarrow> ('s, 'e, ('e, 'a) res) io" where
  "tryE m = (\<lambda>s. case m s of (r, t) \<Rightarrow> (Inr r, t))"

section \<open>Machine integers, durations\<close>

definition max_int64 :: int where
  "max_int64 = 9223372036854775807"

definition min_int64 :: int where
  "min_int64 = -9223372036854775808"

text \<open>Signed 64-bit wrap-around, and saturation (what \<open>time.Time.Sub\<close> does).\<close>

definition wrap64 :: "int \<Rightarrow> int" where
  "wrap64 n = (n + 9223372036854775808) mod 18446744073709551616 - 9223372036854775808"

definition sat64 :: "int \<Rightarrow> int" where
  "sat64 n = max min_int64 (min max_int64 n)"

text \<open>Go's integer division truncates towards zero.\<close>

definition quot :: "int \<Rightarrow> int \<Rightarrow> int" where
  "quot a b = sgn a * sgn b * (\<bar>a\<bar> div \<bar>b\<bar>)"

text \<open>
  An instant is a number of nanoseconds since Go's zero time (1 January of year 1), so that
  \<open>time.Time{}\<close> is 0 and \<open>IsZero\<close> is equality with 0.
\<close>

type_synonym instant = int
type_synonym duration = int

abbreviation (input) second :: duration where
  "second \<equiv> 1000000000"

abbreviation (input) minute :: duration where
  "minute \<equiv> 60000000000"

abbreviation (input) hour :: duration where
  "hour \<equiv> 3600000000000"

abbreviation (input) is_zero_time :: "instant \<Rightarrow> bool" where
  "is_zero_time t \<equiv> t = 0"

abbreviation (input) time_after :: "instant \<Rightarrow> instant \<Rightarrow> bool" where
  "time_after t u \<equiv> u < t"

definition time_sub :: "instant \<Rightarrow> instant \<Rightarrow> duration" where
  "time_sub t u = sat64 (t - u)"

section \<open>Go maps as association lists\<close>

definition mget :: "('k \<times> 'v) list \<Rightarrow> 'k \<Rightarrow> 'v option" where
  "mget m k = map_of m k"

definition mput :: "('k \<times> 'v) list \<Rightarrow> 'k \<Rightarrow> 'v \<Rightarrow> ('k \<times> 'v) list" where
  "mput m k v = AList.update k v m"

definition mdel :: "('k \<times> 'v) list \<Rightarrow> 'k \<Rightarrow> ('k \<times> 'v) list" where
  "mdel m k = AList.delete k m"

definition mkeys :: "('k \<times> 'v) list \<Rightarrow> 'k list" where
  "mkeys m = map fst m"

definition mwf :: "('k \<times> 'v) list \<Rightarrow> bool" where
  "mwf m = distinct (map fst m)"

text \<open>The sum of a measure over all entries, as a loop over the map would compute it.\<close>

definition msum :: "('v \<Rightarrow> int) \<Rightarrow> ('k \<times> 'v) list \<Rightarrow> int" where
  "msum f m = sum_list (map (\<lambda>(k, v). f v) m)"

section \<open>Lemmas on results\<close>

lemma bindR_simps [simp, go_simps]:
  "bindR (Inl e) f = Inl e"
  "bindR (Inr x) f = f x"
  by (simp_all add: bindR_def)

lemma bindR_Inr_iff: "bindR r f = Inr y \<longleftrightarrow> (\<exists>x. r = Inr x \<and> f x = Inr y)"
  by (cases r) auto

lemma andthen_simps [simp, go_simps]:
  "andthen None b = b"
  "andthen (Some e) b = Some e"
  by (simp_all add: andthen_def)

lemma andthen_None_iff [simp]: "andthen a b = None \<longleftrightarrow> a = None \<and> b = None"
  by (cases a) auto

lemma checkR_simps [simp, go_simps]:
  "checkR None r = r"
  "checkR (Some e) r = Inl e"
  by (simp_all add: checkR_def)

lemma checkR_Inr_iff: "checkR a r = Inr y \<longleftrightarrow> a = None \<and> r = Inr y"
  by (cases a) auto

lemma err_of_simps [simp, go_simps]:
  "err_of (Inl e) = Some e"
  "err_of (Inr x) = None"
  by (simp_all add: err_of_def)

lemma first_error_None_iff: "first_error f xs = None \<longleftrightarrow> (\<forall>x \<in> set xs. f x = None)"
  by (induction xs) (auto split: option.splits)

lemma first_error_Some: "first_error f xs = Some e \<Longrightarrow> \<exists>x \<in> set xs. f x = Some e"
  by (induction xs) (auto split: option.splits)

lemma mapR_Inr_length: "mapR f xs = Inr ys \<Longrightarrow> length ys = length xs"
  by (induction xs arbitrary: ys) (auto split: sum.splits)

lemma io_simps [go_simps]:
  "ret x s = (Inr x, s)"
  "raise e s = (Inl e, s)"
  "bindE m f s = (case m s of (Inl e, t) \<Rightarrow> (Inl e, t) | (Inr y, t) \<Rightarrow> f y t)"
  "guardE c s = (case c of Some e \<Rightarrow> (Inl e, s) | None \<Rightarrow> (Inr (), s))"
  "liftR r s = (r, s)"
  "tryE m s = (case m s of (q, t) \<Rightarrow> (Inr q, t))"
  by (simp_all add: ret_def raise_def bindE_def guardE_def liftR_def tryE_def split: option.splits sum.splits)

lemma bindE_InrE:
  assumes "bindE f g s = (Inr y, t)"
  obtains x u where "f s = (Inr x, u)" "g x u = (Inr y, t)"
  using assms by (cases "f s"; cases "fst (f s)") (auto simp: bindE_def)

lemma guardE_Inr_iff: "guardE c s = (Inr x, t) \<longleftrightarrow> c = None \<and> t = s"
  by (cases c) (auto simp: guardE_def ret_def raise_def)

lemma ret_Inr_iff: "ret x s = (Inr y, t) \<longleftrightarrow> y = x \<and> t = s"
  by (auto simp: ret_def)

lemma liftR_Inr_iff: "liftR r s = (Inr y, t) \<longleftrightarrow> r = Inr y \<and> t = s"
  by (cases r) (auto simp: liftR_def ret_def raise_def)

lemma raise_Inr_iff: "raise e s = (Inr y, t) \<longleftrightarrow> False"
  by (simp add: raise_def)

lemmas io_Inr_iff = guardE_Inr_iff ret_Inr_iff liftR_Inr_iff raise_Inr_iff

section \<open>Lemmas on integers\<close>

lemma wrap64_id: "min_int64 \<le> n \<Longrightarrow> n \<le> max_int64 \<Longrightarrow> wrap64 n = n"
  by (simp add: wrap64_def min_int64_def max_int64_def)

lemma wrap64_bounds: "min_int64 \<le> wrap64 n \<and> wrap64 n \<le> max_int64"
  by (simp add: wrap64_def min_int64_def max_int64_def)

lemma sat64_id: "min_int64 \<le> n \<Longrightarrow> n \<le> max_int64 \<Longrightarrow> sat64 n = n"
  by (simp add: sat64_def)

lemma quot_nonneg: "0 \<le> a \<Longrightarrow> 0 < b \<Longrightarrow> quot a b = a div b"
  by (cases "a = 0") (auto simp: quot_def)

section \<open>Lemmas on maps\<close>

lemma mget_mput [simp, map_simps]: "mget (mput m k v) j = (if j = k then Some v else mget m j)"
  by (simp add: mget_def mput_def update_conv')

lemma mget_mdel [simp, map_simps]: "mget (mdel m k) j = (if j = k then None else mget m j)"
  by (simp add: mget_def mdel_def delete_conv')

lemma mget_Nil [simp, map_simps]: "mget [] k = None"
  by (simp add: mget_def)

lemma mwf_Nil [simp, inv_intros]: "mwf []"
  by (simp add: mwf_def)

lemma mwf_mput [simp, inv_intros]: "mwf m \<Longrightarrow> mwf (mput m k v)"
  by (simp add: mwf_def mput_def distinct_update)

lemma mwf_mdel [simp, inv_intros]: "mwf m \<Longrightarrow> mwf (mdel m k)"
  by (simp add: mwf_def mdel_def distinct_delete)

lemma mget_in_set: "mget m k = Some v \<Longrightarrow> (k, v) \<in> set m"
  by (simp add: mget_def map_of_SomeD)

lemma in_set_mget: "mwf m \<Longrightarrow> (k, v) \<in> set m \<Longrightarrow> mget m k = Some v"
  by (simp add: mget_def mwf_def)

lemma mget_None_iff: "mget m k = None \<longleftrightarrow> k \<notin> fst ` set m"
  by (simp add: mget_def map_of_eq_None_iff)

lemma mdel_absent: "mget m k = None \<Longrightarrow> mdel m k = m"
  by (induction m) (auto simp: mget_def mdel_def AList.delete_eq split: if_splits)

lemma length_mdel: "mwf m \<Longrightarrow> mget m k = Some v \<Longrightarrow> Suc (length (mdel m k)) = length m"
proof (induction m)
  case Nil
  then show ?case by simp
next
  case (Cons a m)
  obtain j u where a: "a = (j, u)" by (cases a)
  show ?case
  proof (cases "j = k")
    case True
    with Cons.prems a have "mdel m k = m"
      by (intro mdel_absent) (simp add: mwf_def mget_None_iff)
    with True a show ?thesis by (simp add: mdel_def)
  next
    case False
    with Cons a show ?thesis by (simp add: mdel_def mget_def mwf_def)
  qed
qed

lemma mwf_filter [inv_intros]: "mwf m \<Longrightarrow> mwf (filter P m)"
  by (simp add: mwf_def distinct_map_filter)

lemma mget_filter:
  "mwf m \<Longrightarrow> mget (filter (\<lambda>(k, v). P v) m) k = (case mget m k of None \<Rightarrow> None | Some v \<Rightarrow> if P v then Some v else None)"
proof (induction m)
  case (Cons a m)
  then show ?case
    by (cases a) (force simp: mget_def mwf_def map_of_eq_None_iff split: option.splits)
qed simp

lemma mget_map: "mget (map (\<lambda>(k, v). (k, f k v)) m) k = map_option (f k) (mget m k)"
  by (induction m) (auto simp: mget_def)

lemma fst_mput_present: "mget m k \<noteq> None \<Longrightarrow> map fst (mput m k v) = map fst m"
  by (induction m) (auto simp: mget_def mput_def split: if_splits)

lemma mput_same: "mget m k = Some v \<Longrightarrow> mput m k v = m"
  by (induction m) (auto simp: mget_def mput_def split: if_splits)

lemma alist_eqI: "map fst a = map fst b \<Longrightarrow> mwf a \<Longrightarrow> (\<And>k. mget a k = mget b k) \<Longrightarrow> a = b"
proof (induction a arbitrary: b)
  case (Cons x a)
  then obtain y b' where b: "b = y # b'" by (cases b) auto
  have f: "fst x = fst y" "map fst a = map fst b'" using Cons.prems(1) b by auto
  have xy: "x = y" using Cons.prems(3) [of "fst x"] f b by (cases x; cases y) (auto simp: mget_def)
  have "mget a k = mget b' k" for k
  proof (cases "k = fst x")
    case True
    have "k \<notin> set (map fst a)" using Cons.prems(2) True by (simp add: mwf_def)
    then have "k \<notin> set (map fst a)" "k \<notin> set (map fst b')" using f(2) by simp_all
    then have "mget a k = None" "mget b' k = None" by (simp_all add: mget_None_iff)
    then show ?thesis by simp
  next
    case False
    then show ?thesis using Cons.prems(3) [of k] b xy by (cases y) (auto simp: mget_def)
  qed
  then show ?case using Cons.IH [OF f(2)] Cons.prems(2) b xy by (simp add: mwf_def)
qed simp

lemma length_mdel_le: "length (mdel m k) \<le> length m"
  by (simp add: mdel_def AList.delete_eq)

lemma length_mput: "length (mput m k v) = (if mget m k = None then Suc (length m) else length m)"
  by (induction m) (auto simp: mput_def mget_def)

lemma set_mdel_subset: "set (mdel m k) \<subseteq> set m"
  by (auto simp: mdel_def AList.delete_eq)

lemma set_mput_subset: "set (mput m k v) \<subseteq> insert (k, v) (set m)"
  by (induction m) (auto simp: mput_def)

lemma fst_set_mput: "fst ` set (mput m k v) = insert k (fst ` set m)"
  by (induction m) (auto simp: mput_def)

lemma msum_Nil [simp]: "msum f [] = 0"
  by (simp add: msum_def)

lemma msum_Cons: "msum f ((k, v) # m) = f v + msum f m"
  by (simp add: msum_def)

lemma msum_mdel: "mwf m \<Longrightarrow> mget m k = Some v \<Longrightarrow> msum f (mdel m k) = msum f m - f v"
proof (induction m)
  case Nil
  then show ?case by simp
next
  case (Cons a m)
  obtain j u where a: "a = (j, u)" by (cases a)
  show ?case
  proof (cases "j = k")
    case True
    with Cons.prems a have "mget m k = None"
      by (simp add: mwf_def mget_None_iff)
    then have "mdel m k = m" by (rule mdel_absent)
    with True a Cons.prems show ?thesis
      by (simp add: mdel_def mget_def msum_Cons)
  next
    case False
    with Cons a show ?thesis
      by (simp add: mdel_def mget_def mwf_def msum_Cons)
  qed
qed

lemma msum_mput_new: "mget m k = None \<Longrightarrow> msum f (mput m k v) = msum f m + f v"
  by (induction m) (auto simp: mget_def mput_def msum_def split: if_splits)

lemma msum_mput_old:
  "mwf m \<Longrightarrow> mget m k = Some u \<Longrightarrow> msum f (mput m k v) = msum f m - f u + f v"
proof (induction m)
  case Nil
  then show ?case by simp
next
  case (Cons a m)
  then show ?case
    by (cases a) (auto simp: mget_def mput_def mwf_def msum_Cons split: if_splits)
qed

lemma msum_nonneg: "(\<And>k v. (k, v) \<in> set m \<Longrightarrow> 0 \<le> f v) \<Longrightarrow> 0 \<le> msum f m"
  by (auto simp: msum_def intro!: sum_list_nonneg)

lemma msum_mono: "(\<And>k v. (k, v) \<in> set m \<Longrightarrow> f v \<le> g v) \<Longrightarrow> msum f m \<le> msum g m"
  by (auto simp: msum_def intro!: sum_list_mono)

lemma msum_member_le:
  "(k, v) \<in> set m \<Longrightarrow> (\<And>k v. (k, v) \<in> set m \<Longrightarrow> 0 \<le> f v) \<Longrightarrow> f v \<le> msum f m"
proof (induction m)
  case Nil
  then show ?case by simp
next
  case (Cons a m)
  have "0 \<le> msum f m" by (rule msum_nonneg) (use Cons.prems(2) in auto)
  with Cons show ?case by (cases a) (force simp: msum_Cons)
qed

section \<open>Invariants of step relations\<close>

locale step_invariant =
  fixes step :: "'s \<Rightarrow> 's \<Rightarrow> bool" and inv :: "'s \<Rightarrow> bool"
  assumes preserved: "step s s' \<Longrightarrow> inv s \<Longrightarrow> inv s'"
begin

lemma reached: "step\<^sup>*\<^sup>* s s' \<Longrightarrow> inv s \<Longrightarrow> inv s'"
  by (induction rule: rtranclp_induct) (auto intro: preserved)

end

end
