(* ===== verification/Go_Text.thy ===== *)
theory Go_Text
  imports Prelude
begin

text \<open>
  The parts of Go's \<open>strings\<close>, \<open>strconv\<close>, \<open>unicode/utf8\<close> and \<open>encoding/base64\<close> packages that
  the server uses, on byte strings (a Go \<open>string\<close> is a sequence of bytes, here a \<open>string\<close>, whose
  characters are the bytes 0 to 255).

  Case conversion is exact for every test the source makes against an ASCII text: ASCII letters
  are mapped, and so are the only non-ASCII runes whose lower case (the Kelvin sign and the
  dotted capital I) or whose simple fold (the Kelvin sign and the long s) is an ASCII letter;
  every other non-ASCII byte stays as it is, and no mapping of Unicode turns it into ASCII.
  White space is the full set of \<open>unicode.IsSpace\<close>, as UTF-8 byte sequences.
\<close>

section \<open>Prefixes, suffixes, substrings\<close>

definition has_prefix :: "string \<Rightarrow> string \<Rightarrow> bool" where
  "has_prefix s p = (take (length p) s = p)"

definition has_suffix :: "string \<Rightarrow> string \<Rightarrow> bool" where
  "has_suffix s p = (length p \<le> length s \<and> drop (length s - length p) s = p)"

definition trim_prefix :: "string \<Rightarrow> string \<Rightarrow> string" where
  "trim_prefix s p = (if has_prefix s p then drop (length p) s else s)"

definition trim_suffix :: "string \<Rightarrow> string \<Rightarrow> string" where
  "trim_suffix s p = (if has_suffix s p then take (length s - length p) s else s)"

primrec contains :: "string \<Rightarrow> string \<Rightarrow> bool" where
  "contains [] t = (t = [])"
| "contains (c # s) t = (has_prefix (c # s) t \<or> contains s t)"

text \<open>\<open>strings.Split\<close> with a separator of one byte.\<close>

primrec split_on :: "char \<Rightarrow> string \<Rightarrow> string list" where
  "split_on c [] = [[]]"
| "split_on c (x # xs) =
     (if x = c then [] # split_on c xs
      else (case split_on c xs of [] \<Rightarrow> [[x]] | p # ps \<Rightarrow> (x # p) # ps))"

fun join :: "string \<Rightarrow> string list \<Rightarrow> string" where
  "join sep [] = []"
| "join sep [s] = s"
| "join sep (s # t # ss) = s @ sep @ join sep (t # ss)"

definition count_byte :: "char \<Rightarrow> string \<Rightarrow> nat" where
  "count_byte c s = length (filter (\<lambda>x. x = c) s)"

section \<open>Case and white space\<close>

definition lower_char :: "char \<Rightarrow> char" where
  "lower_char c = (let n = (of_char c :: nat) in if 65 \<le> n \<and> n \<le> 90 then char_of (n + 32) else c)"

text \<open>UTF-8 of the Kelvin sign, of the dotted capital I and of the long s.\<close>

definition kelvin :: string where
  "kelvin = [char_of (226::nat), char_of (132::nat), char_of (170::nat)]"

definition dotted_I :: string where
  "dotted_I = [char_of (196::nat), char_of (176::nat)]"

definition long_s :: string where
  "long_s = [char_of (197::nat), char_of (191::nat)]"

fun to_lower :: "string \<Rightarrow> string" where
  "to_lower [] = []"
| "to_lower (c # s) =
     (if has_prefix (c # s) kelvin then CHR ''k'' # to_lower (drop 2 s)
      else if has_prefix (c # s) dotted_I then CHR ''i'' # to_lower (drop 1 s)
      else lower_char c # to_lower s)"

fun fold_case :: "string \<Rightarrow> string" where
  "fold_case [] = []"
| "fold_case (c # s) =
     (if has_prefix (c # s) kelvin then CHR ''k'' # fold_case (drop 2 s)
      else if has_prefix (c # s) long_s then CHR ''s'' # fold_case (drop 1 s)
      else lower_char c # fold_case s)"

definition equal_fold :: "string \<Rightarrow> string \<Rightarrow> bool" where
  "equal_fold s t = (fold_case s = fold_case t)"

definition bytes :: "nat list \<Rightarrow> string" where
  "bytes ns = map char_of ns"

definition space_runes :: "string list" where
  "space_runes = map bytes
     ([[9], [10], [11], [12], [13], [32], [194, 133], [194, 160], [225, 154, 128]]
      @ map (\<lambda>n. [226, 128, n]) [128..<139]
      @ [[226, 128, 168], [226, 128, 169], [226, 128, 175], [226, 129, 159], [227, 128, 128]])"

definition space_prefix :: "string list \<Rightarrow> string \<Rightarrow> nat" where
  "space_prefix rs s = (case find (\<lambda>r. has_prefix s r) rs of None \<Rightarrow> 0 | Some r \<Rightarrow> length r)"

function trim_runes :: "string list \<Rightarrow> string \<Rightarrow> string" where
  "trim_runes rs s =
     (if s = [] \<or> space_prefix rs s = 0 then s else trim_runes rs (drop (space_prefix rs s) s))"
  by pat_completeness auto
termination
  by (relation "measure (\<lambda>(rs, s). length s)") auto

declare trim_runes.simps [simp del]

definition trim_space :: "string \<Rightarrow> string" where
  "trim_space s = rev (trim_runes (map rev space_runes) (rev (trim_runes space_runes s)))"

text \<open>\<open>strings.Trim\<close> and \<open>bytes.TrimLeft\<close> with a set of ASCII bytes.\<close>

definition trim_left_set :: "char set \<Rightarrow> string \<Rightarrow> string" where
  "trim_left_set C s = dropWhile (\<lambda>c. c \<in> C) s"

definition trim_set :: "char set \<Rightarrow> string \<Rightarrow> string" where
  "trim_set C s = rev (dropWhile (\<lambda>c. c \<in> C) (rev (dropWhile (\<lambda>c. c \<in> C) s)))"

section \<open>Decimal numbers\<close>

definition digit_char :: "nat \<Rightarrow> char" where
  "digit_char d = char_of (48 + d)"

definition is_digit :: "char \<Rightarrow> bool" where
  "is_digit c = (let n = (of_char c :: nat) in 48 \<le> n \<and> n \<le> 57)"

definition digit_val :: "char \<Rightarrow> nat" where
  "digit_val c = of_char c - 48"

fun show_nat :: "nat \<Rightarrow> string" where
  "show_nat n = (if n < 10 then [digit_char n] else show_nat (n div 10) @ [digit_char (n mod 10)])"

declare show_nat.simps [simp del]

definition itoa :: "int \<Rightarrow> string" where
  "itoa n = (if n < 0 then ''-'' @ show_nat (nat (- n)) else show_nat (nat n))"

definition nat_of_digits :: "string \<Rightarrow> nat" where
  "nat_of_digits s = foldl (\<lambda>n c. 10 * n + digit_val c) 0 s"

text \<open>\<open>strconv.Atoi\<close>: an optional sign, at least one digit, and a value that fits an int64.\<close>

definition atoi :: "string \<Rightarrow> int option" where
  "atoi s =
     (let neg = (s \<noteq> [] \<and> hd s = CHR ''-'');
          ds = (if s \<noteq> [] \<and> (hd s = CHR ''-'' \<or> hd s = CHR ''+'') then tl s else s);
          n = (if neg then - int (nat_of_digits ds) else int (nat_of_digits ds))
      in if ds = [] \<or> \<not> list_all is_digit ds \<or> n < min_int64 \<or> max_int64 < n then None else Some n)"

section \<open>Base64 without padding\<close>

datatype alphabet = StdAlphabet | URLAlphabet

definition b64_char :: "alphabet \<Rightarrow> nat \<Rightarrow> char" where
  "b64_char a n =
     (if n < 26 then char_of (65 + n)
      else if n < 52 then char_of (71 + n)
      else if n < 62 then char_of (n - 4)
      else if n = 62 then (case a of StdAlphabet \<Rightarrow> CHR ''+'' | URLAlphabet \<Rightarrow> CHR ''-'')
      else (case a of StdAlphabet \<Rightarrow> CHR ''/'' | URLAlphabet \<Rightarrow> CHR ''_''))"

definition b64_val :: "alphabet \<Rightarrow> char \<Rightarrow> nat option" where
  "b64_val a c =
     (let n = (of_char c :: nat) in
      if 65 \<le> n \<and> n \<le> 90 then Some (n - 65)
      else if 97 \<le> n \<and> n \<le> 122 then Some (n - 71)
      else if 48 \<le> n \<and> n \<le> 57 then Some (n + 4)
      else if c = b64_char a 62 then Some 62
      else if c = b64_char a 63 then Some 63
      else None)"

fun b64_groups :: "nat list \<Rightarrow> nat list" where
  "b64_groups [] = []"
| "b64_groups [x] = [x div 4, (x mod 4) * 16]"
| "b64_groups [x, y] = [x div 4, (x mod 4) * 16 + y div 16, (y mod 16) * 4]"
| "b64_groups (x # y # z # r) =
     [x div 4, (x mod 4) * 16 + y div 16, (y mod 16) * 4 + z div 64, z mod 64] @ b64_groups r"

definition b64_encode :: "alphabet \<Rightarrow> string \<Rightarrow> string" where
  "b64_encode a s = map (b64_char a) (b64_groups (map of_char s))"

fun b64_ungroup :: "nat list \<Rightarrow> nat list option" where
  "b64_ungroup [] = Some []"
| "b64_ungroup [p] = None"
| "b64_ungroup [p, q] = Some [p * 4 + q div 16]"
| "b64_ungroup [p, q, r] = Some [p * 4 + q div 16, (q mod 16) * 16 + r div 4]"
| "b64_ungroup (p # q # r # t # w) =
     map_option (\<lambda>ns. [p * 4 + q div 16, (q mod 16) * 16 + r div 4, (r mod 4) * 64 + t] @ ns)
       (b64_ungroup w)"

text \<open>\<open>DecodeString\<close> skips carriage returns and newlines and does not look at trailing bits.\<close>

definition b64_decode :: "alphabet \<Rightarrow> string \<Rightarrow> string option" where
  "b64_decode a s =
     (let cs = filter (\<lambda>c. c \<noteq> char_of (10::nat) \<and> c \<noteq> char_of (13::nat)) s;
          vs = map (b64_val a) cs
      in if None \<in> set vs then None else map_option (map char_of) (b64_ungroup (map the vs)))"

section \<open>Quoted strings\<close>

text \<open>
  \<open>fmt.Sprintf("%q", s)\<close>: exact for ASCII; printable non-ASCII text is kept as it is, as Go does.
\<close>

definition hex_digit :: "nat \<Rightarrow> char" where
  "hex_digit d = (if d < 10 then char_of (48 + d) else char_of (87 + d))"

definition hex2 :: "nat \<Rightarrow> string" where
  "hex2 n = [hex_digit (n div 16), hex_digit (n mod 16)]"

definition hex_encode :: "string \<Rightarrow> string" where
  "hex_encode s = concat (map (\<lambda>c. hex2 (of_char c)) s)"

definition quote_char :: "char \<Rightarrow> string" where
  "quote_char c =
     (let n = (of_char c :: nat); bs = (char_of (92::nat) :: char) in
      if n = 34 \<or> n = 92 then [bs, c]
      else if n = 7 then [bs, CHR ''a''] else if n = 8 then [bs, CHR ''b'']
      else if n = 12 then [bs, CHR ''f''] else if n = 10 then [bs, CHR ''n'']
      else if n = 13 then [bs, CHR ''r''] else if n = 9 then [bs, CHR ''t'']
      else if n = 11 then [bs, CHR ''v'']
      else if n < 32 \<or> n = 127 then [bs, CHR ''x''] @ hex2 n
      else [c])"

definition go_quote :: "string \<Rightarrow> string" where
  "go_quote s = [char_of (34::nat)] @ concat (map quote_char s) @ [char_of (34::nat)]"

section \<open>Lemmas: prefixes and substrings\<close>

lemma has_prefix_append [simp]: "has_prefix (p @ s) p"
  by (simp add: has_prefix_def)

lemma has_prefix_iff: "has_prefix s p \<longleftrightarrow> (\<exists>t. s = p @ t)"
  by (metis append_eq_conv_conj append_take_drop_id has_prefix_def)

lemma has_suffix_append [simp]: "has_suffix (s @ p) p"
  by (simp add: has_suffix_def)

lemma has_suffix_iff: "has_suffix s p \<longleftrightarrow> (\<exists>t. s = t @ p)"
  by (metis append_take_drop_id has_suffix_append has_suffix_def)

lemma trim_prefix_append [simp]: "trim_prefix (p @ s) p = s"
  by (simp add: trim_prefix_def)

lemma contains_iff: "contains s t \<longleftrightarrow> (\<exists>a b. s = a @ t @ b)"
proof (induction s)
  case Nil
  then show ?case by auto
next
  case (Cons c s)
  show ?case
  proof
    assume "contains (c # s) t"
    then consider "has_prefix (c # s) t" | "contains s t" by auto
    then show "\<exists>a b. c # s = a @ t @ b"
    proof cases
      case 1
      then show ?thesis by (metis append_Nil has_prefix_iff)
    next
      case 2
      with Cons.IH show ?thesis by (metis append_Cons)
    qed
  next
    assume "\<exists>a b. c # s = a @ t @ b"
    then obtain a b where eq: "c # s = a @ t @ b" by blast
    show "contains (c # s) t"
    proof (cases a)
      case Nil
      with eq have "has_prefix (c # s) t" by (simp add: has_prefix_iff)
      then show ?thesis by simp
    next
      case (Cons x a')
      with eq Cons.IH have "contains s t" by auto
      then show ?thesis by simp
    qed
  qed
qed

lemma contains_infix [simp]: "contains (a @ t @ b) t"
  by (auto simp: contains_iff)

lemma contains_prefix [simp]: "contains (t @ b) t"
  by (metis append_Nil contains_infix)

text \<open>On ASCII text, lower-casing works byte by byte.\<close>

lemma to_lower_ascii: "(of_char c :: nat) < 128 \<Longrightarrow> to_lower (c # s) = lower_char c # to_lower s"
  by (auto simp: kelvin_def dotted_I_def has_prefix_def)

lemma fold_case_ascii: "(of_char c :: nat) < 128 \<Longrightarrow> fold_case (c # s) = lower_char c # fold_case s"
  by (auto simp: kelvin_def long_s_def has_prefix_def)

lemma lower_char_id: "(of_char c :: nat) < 65 \<or> 90 < (of_char c :: nat) \<Longrightarrow> lower_char c = c"
  by (auto simp: lower_char_def Let_def)

lemmas ascii_simps = to_lower_ascii fold_case_ascii lower_char_id

lemma split_on_nonempty [simp]: "split_on c s \<noteq> []"
  by (induction s) (auto split: list.splits)

lemma split_on_no_sep: "p \<in> set (split_on c s) \<Longrightarrow> c \<notin> set p"
  by (induction s arbitrary: p) (auto split: list.splits if_splits)

lemma join_Cons: "ss \<noteq> [] \<Longrightarrow> join sep (s # ss) = s @ sep @ join sep ss"
  by (cases ss) auto

lemma join_split: "join [c] (split_on c s) = s"
proof (induction s)
  case Nil
  then show ?case by simp
next
  case (Cons x s)
  obtain p ps where sp: "split_on c s = p # ps"
    using split_on_nonempty [of c s] by (cases "split_on c s") auto
  with Cons show ?case by (cases ps) auto
qed

lemma split_join:
  "ss \<noteq> [] \<Longrightarrow> (\<And>s. s \<in> set ss \<Longrightarrow> c \<notin> set s) \<Longrightarrow> split_on c (join [c] ss) = ss"
proof (induction ss)
  case Nil
  then show ?case by simp
next
  case (Cons s ss)
  have seg: "c \<notin> set s \<Longrightarrow> split_on c (s @ c # t) = s # split_on c t" for s t
    by (induction s) auto
  have single: "c \<notin> set s \<Longrightarrow> split_on c s = [s]" for s
    by (induction s) auto
  show ?case
  proof (cases "ss = []")
    case True
    with Cons.prems single show ?thesis by simp
  next
    case False
    with Cons show ?thesis by (simp add: join_Cons seg)
  qed
qed

section \<open>Lemmas: decimal numbers\<close>

lemma of_char_digit: "d < 10 \<Longrightarrow> (of_char (digit_char d) :: nat) = 48 + d"
  by (simp add: digit_char_def)

lemma is_digit_digit_char [simp]: "d < 10 \<Longrightarrow> is_digit (digit_char d)"
  by (simp add: is_digit_def of_char_digit)

lemma digit_val_digit_char [simp]: "d < 10 \<Longrightarrow> digit_val (digit_char d) = d"
  by (simp add: digit_val_def of_char_digit)

lemma show_nat_digits: "list_all is_digit (show_nat n)"
proof (induction n rule: show_nat.induct)
  case (1 n)
  then show ?case by (subst show_nat.simps) auto
qed

lemma show_nat_nonempty: "show_nat n \<noteq> []"
  by (subst show_nat.simps) simp

lemma nat_of_digits_show_nat: "nat_of_digits (show_nat n) = n"
proof (induction n rule: show_nat.induct)
  case (1 n)
  then show ?case by (subst show_nat.simps) (auto simp: nat_of_digits_def)
qed

lemma hd_show_nat_digit: "is_digit (hd (show_nat n))"
  using show_nat_digits [of n] show_nat_nonempty [of n] by (cases "show_nat n") auto

lemma atoi_itoa_nat: "int n \<le> max_int64 \<Longrightarrow> atoi (itoa (int n)) = Some (int n)"
proof -
  assume n: "int n \<le> max_int64"
  have "hd (show_nat n) \<noteq> CHR ''-''" "hd (show_nat n) \<noteq> CHR ''+''"
    using hd_show_nat_digit [of n] by (auto simp: is_digit_def)
  with n show ?thesis
    by (auto simp: atoi_def itoa_def Let_def nat_of_digits_show_nat show_nat_digits show_nat_nonempty
        min_int64_def)
qed

lemma length_show_nat: "n < 10 ^ k \<Longrightarrow> 0 < k \<Longrightarrow> length (show_nat n) \<le> k"
proof (induction n arbitrary: k rule: show_nat.induct)
  case (1 n)
  show ?case
  proof (cases "n < 10")
    case True
    with 1 show ?thesis by (subst show_nat.simps) simp
  next
    case False
    with 1 obtain k' where k: "k = Suc k'" by (cases k) auto
    with 1 False have lt: "n div 10 < 10 ^ k'" by auto
    with False have "0 < k'" by (cases k') auto
    with 1 False lt have "length (show_nat (n div 10)) \<le> k'" by blast
    with False k show ?thesis by (subst show_nat.simps) simp
  qed
qed

section \<open>Lemmas: base64\<close>

lemma length_show_nat_lower: "10 ^ k \<le> n \<Longrightarrow> k < length (show_nat n)"
proof (induction k arbitrary: n)
  case 0
  then show ?case using show_nat_nonempty by auto
next
  case (Suc k)
  have "10 * (1::nat) \<le> 10 * 10 ^ k" by simp
  then have n: "10 \<le> n" using Suc.prems by (simp only: power_Suc)
  have "10 ^ k \<le> n div 10" using Suc.prems div_le_mono [of "10 ^ Suc k" n 10] by simp
  then have "k < length (show_nat (n div 10))" by (rule Suc.IH)
  with n show ?case by (subst show_nat.simps) simp
qed

lemma of_char_b64_char:
  "n < 64 \<Longrightarrow> (of_char (b64_char a n) :: nat) =
     (if n < 26 then 65 + n else if n < 52 then 71 + n else if n < 62 then n - 4
      else if n = 62 then (case a of StdAlphabet \<Rightarrow> 43 | URLAlphabet \<Rightarrow> 45)
      else (case a of StdAlphabet \<Rightarrow> 47 | URLAlphabet \<Rightarrow> 95))"
  by (cases a) (simp_all add: b64_char_def)

lemma b64_val_char [simp]: "n < 64 \<Longrightarrow> b64_val a (b64_char a n) = Some n"
proof -
  assume n: "n < 64"
  consider "n < 26" | "26 \<le> n" "n < 52" | "52 \<le> n" "n < 62" | "n = 62" | "n = 63" using n by linarith
  then show ?thesis
  proof cases
    case 5
    have "b64_char a 63 \<noteq> b64_char a 62" by (cases a) (simp_all add: b64_char_def)
    with 5 show ?thesis by (cases a) (simp_all add: b64_val_def Let_def of_char_b64_char)
  next
    case 4
    then show ?thesis by (cases a) (simp_all add: b64_val_def Let_def of_char_b64_char)
  qed (auto simp: b64_val_def Let_def of_char_b64_char)
qed

lemma b64_char_not_newline:
  "n < 64 \<Longrightarrow> b64_char a n \<noteq> char_of (10::nat) \<and> b64_char a n \<noteq> char_of (13::nat)"
proof -
  assume "n < 64"
  then have "13 < (of_char (b64_char a n) :: nat)"
    by (cases a) (auto simp: of_char_b64_char)
  then show ?thesis by auto
qed

lemma sextets:
  fixes x y :: nat
  shows "x < 256 \<Longrightarrow> x div 4 < 64" "y < 256 \<Longrightarrow> x mod 4 * 16 + y div 16 < 64"
    "y < 256 \<Longrightarrow> x mod 16 * 4 + y div 64 < 64" "x mod 4 * 16 < 64" "x mod 16 * 4 < 64"
proof -
  have m: "x mod 4 < 4" "x mod 16 < 16" by simp_all
  show "x < 256 \<Longrightarrow> x div 4 < 64" by (simp add: less_mult_imp_div_less)
  show "y < 256 \<Longrightarrow> x mod 4 * 16 + y div 16 < 64"
    using m less_mult_imp_div_less [of y 16 16] by simp
  show "y < 256 \<Longrightarrow> x mod 16 * 4 + y div 64 < 64"
    using m less_mult_imp_div_less [of y 4 64] by simp
  show "x mod 4 * 16 < 64" "x mod 16 * 4 < 64" using m by simp_all
qed

lemma octets:
  fixes x y z :: nat
  assumes "x < 256" "y < 256" "z < 256"
  shows "x div 4 * 4 + (x mod 4 * 16 + y div 16) div 16 = x"
    "(x mod 4 * 16 + y div 16) mod 16 * 16 + (y mod 16 * 4 + z div 64) div 4 = y"
    "(y mod 16 * 4 + z div 64) mod 4 * 64 + z mod 64 = z"
proof -
  have y: "(x mod 4 * 16 + y div 16) div 16 = x mod 4" "(x mod 4 * 16 + y div 16) mod 16 = y div 16"
    using assms(2) by (simp_all add: div_mult2_eq [symmetric])
  have z: "(y mod 16 * 4 + z div 64) div 4 = y mod 16" "(y mod 16 * 4 + z div 64) mod 4 = z div 64"
    using assms(3) by (simp_all add: div_mult2_eq [symmetric])
  show "x div 4 * 4 + (x mod 4 * 16 + y div 16) div 16 = x"
    "(x mod 4 * 16 + y div 16) mod 16 * 16 + (y mod 16 * 4 + z div 64) div 4 = y"
    "(y mod 16 * 4 + z div 64) mod 4 * 64 + z mod 64 = z"
    by (simp_all only: y z div_mult_mod_eq)
qed

lemma b64_groups_lt: "list_all (\<lambda>n. n < 256) ns \<Longrightarrow> list_all (\<lambda>n. n < 64) (b64_groups ns)"
  by (induction ns rule: b64_groups.induct) (simp_all add: sextets)

lemma b64_ungroup_groups: "list_all (\<lambda>n. n < 256) ns \<Longrightarrow> b64_ungroup (b64_groups ns) = Some ns"
proof (induction ns rule: b64_groups.induct)
  case (3 x y)
  then show ?case using octets [of x y 0] by simp
next
  case (4 x y z r)
  then show ?case using octets [of x y z] by simp
qed simp_all

lemma b64_decode_encode: "b64_decode a (b64_encode a s) = Some s"
proof -
  let ?ns = "map of_char s :: nat list"
  have lt: "list_all (\<lambda>n. n < 256) ?ns" by (simp add: list_all_iff)
  then have g: "\<forall>m \<in> set (b64_groups ?ns). m < 64"
    using b64_groups_lt [OF lt] by (simp add: list_all_iff)
  have f: "filter (\<lambda>c. c \<noteq> char_of (10::nat) \<and> c \<noteq> char_of (13::nat)) (b64_encode a s) = b64_encode a s"
    using g by (auto simp: b64_encode_def filter_id_conv b64_char_not_newline)
  have v: "map (b64_val a) (b64_encode a s) = map Some (b64_groups ?ns)"
    using g by (simp add: b64_encode_def)
  show ?thesis
    unfolding b64_decode_def Let_def f v by (simp add: b64_ungroup_groups [OF lt] comp_def)
qed

lemma length_b64_groups: "length (b64_groups ns) = (4 * length ns + 2) div 3"
  by (induction ns rule: b64_groups.induct) auto

lemma length_b64_encode: "length (b64_encode a s) = (4 * length s + 2) div 3"
  by (simp add: b64_encode_def length_b64_groups)

end
