(* ===== verification/Go_Value.thy ===== *)
theory Go_Value
  imports Go_Text "HOL-Library.Char_ord" "HOL-Library.List_Lexorder"
begin

text \<open>
  Dynamically typed values: what a Go variable of type \<open>any\<close> holds after JSON decoding, in a
  Kubernetes unstructured object, or in a tool result.

  \<^item> \<open>GInt64\<close> is an \<open>int64\<close> (numbers of unstructured objects), \<open>GInt\<close> an \<open>int\<close> (lengths), \<open>GFloat c e\<close> a
    \<open>float64\<close> given by its shortest decimal \<open>c \<cdot> 10\<^sup>e\<close>, the one \<open>strconv\<close> prints, which
    determines the number.
  \<^item> \<open>GUID\<close> is a \<open>types.UID\<close>, a string type that no type switch on \<open>string\<close> matches, and \<open>GStrs\<close> a
    \<open>[]string\<close>. The empty \<open>GStrs\<close> is the nil slice, the only empty one the server builds.
  \<^item> \<open>GObj\<close> is a \<open>map[string]any\<close>; \<open>gwf\<close> says that the keys of every map in a value are distinct.
\<close>

datatype gval =
    GNil
  | GBool bool
  | GInt int
  | GInt64 int
  | GFloat int int
  | GStr string
  | GUID string
  | GStrs "string list"
  | GArr "gval list"
  | GObj "(string \<times> gval) list"

type_synonym gmap = "(string \<times> gval) list"

lemma size_pair_in_set [termination_simp]:
  "(k, v) \<in> set kvs \<Longrightarrow> size v < Suc (size_list (size_prod (\<lambda>x. 0) size) kvs)"
  by (induction kvs) auto

lemma size_enumerated [termination_simp]:
  "(i, v) \<in> set (enumerate n xs) \<Longrightarrow> size v < Suc (size_list size xs)"
  by (induction xs arbitrary: n) (force simp: in_set_enumerate_eq)+

lemma size_zip_left [termination_simp]:
  "(a, b) \<in> set (zip xs ys) \<Longrightarrow> size a < Suc (size_list size xs)"
  by (induction xs ys rule: list_induct2') auto

lemma first_error_cong [fundef_cong]:
  "xs = ys \<Longrightarrow> (\<And>x. x \<in> set ys \<Longrightarrow> f x = g x) \<Longrightarrow> first_error f xs = first_error g ys"
  by (induction xs arbitrary: ys) (auto split: option.splits)

section \<open>Type assertions and lookups\<close>

definition as_map :: "gval \<Rightarrow> gmap option" where
  "as_map v = (case v of GObj kvs \<Rightarrow> Some kvs | _ \<Rightarrow> None)"

definition as_list :: "gval \<Rightarrow> gval list option" where
  "as_list v = (case v of GArr xs \<Rightarrow> Some xs | _ \<Rightarrow> None)"

definition as_string :: "gval \<Rightarrow> string option" where
  "as_string v = (case v of GStr s \<Rightarrow> Some s | _ \<Rightarrow> None)"

definition as_bool :: "gval \<Rightarrow> bool option" where
  "as_bool v = (case v of GBool b \<Rightarrow> Some b | _ \<Rightarrow> None)"

text \<open>\<open>m[k]\<close> reads nil where the key is missing, and \<open>x, _ := v.(T)\<close> the zero value of \<open>T\<close>.\<close>

definition gfield :: "gmap \<Rightarrow> string \<Rightarrow> gval" where
  "gfield m k = (case mget m k of Some v \<Rightarrow> v | None \<Rightarrow> GNil)"

definition map_or_nil :: "gval \<Rightarrow> gmap" where
  "map_or_nil v = (case v of GObj kvs \<Rightarrow> kvs | _ \<Rightarrow> [])"

definition list_or_nil :: "gval \<Rightarrow> gval list" where
  "list_or_nil v = (case v of GArr xs \<Rightarrow> xs | _ \<Rightarrow> [])"

definition string_or_empty :: "gval \<Rightarrow> string" where
  "string_or_empty v = (case v of GStr s \<Rightarrow> s | _ \<Rightarrow> [])"

definition bool_or_false :: "gval \<Rightarrow> bool" where
  "bool_or_false v = (case v of GBool b \<Rightarrow> b | _ \<Rightarrow> False)"

fun gwf :: "gval \<Rightarrow> bool" where
  "gwf (GArr xs) = (\<forall>x \<in> set xs. gwf x)"
| "gwf (GObj kvs) = (mwf kvs \<and> (\<forall>(k, v) \<in> set kvs. gwf v))"
| "gwf v = True"

section \<open>Positions\<close>

text \<open>A position is a list of map keys and list indices.\<close>

datatype pos = Key string | Index nat

fun gval_at :: "gval \<Rightarrow> pos list \<Rightarrow> gval option" where
  "gval_at v [] = Some v"
| "gval_at v (Key k # ss) = (case v of GObj kvs \<Rightarrow> (case mget kvs k of Some u \<Rightarrow> gval_at u ss | None \<Rightarrow> None) | _ \<Rightarrow> None)"
| "gval_at v (Index i # ss) = (case v of GArr xs \<Rightarrow> if i < length xs then gval_at (xs ! i) ss else None | _ \<Rightarrow> None)"

section \<open>reflect.DeepEqual\<close>

text \<open>
  Maps are equal when they have the same number of keys and agree on each; values of different
  dynamic types are never equal.
\<close>

fun deep_equal :: "gval \<Rightarrow> gval \<Rightarrow> bool" where
  "deep_equal (GArr xs) w =
     (case w of GArr ys \<Rightarrow> length xs = length ys \<and> (\<forall>(x, y) \<in> set (zip xs ys). deep_equal x y) | _ \<Rightarrow> False)"
| "deep_equal (GObj kvs) w =
     (case w of GObj lws \<Rightarrow> length kvs = length lws \<and>
        (\<forall>(k, v) \<in> set kvs. case mget lws k of None \<Rightarrow> False | Some u \<Rightarrow> deep_equal v u) | _ \<Rightarrow> False)"
| "deep_equal v w = (v = w)"

section \<open>Numbers\<close>

text \<open>\<open>float64(n)\<close> for an int64: round to 53 bits, ties to even.\<close>

definition round53 :: "nat \<Rightarrow> nat" where
  "round53 m =
     (if m < 2 ^ 53 then m
      else let e = length (takeWhile (\<lambda>k. 2 ^ (53 + k) \<le> m) [0..<64]); q = m div 2 ^ e; r = m mod 2 ^ e; half = 2 ^ (e - 1)
           in (if half < r \<or> (r = half \<and> odd q) then Suc q else q) * 2 ^ e)"

definition float64_of_int :: "int \<Rightarrow> int" where
  "float64_of_int n = sgn n * int (round53 (nat \<bar>n\<bar>))"

fun strip_zeros :: "string \<Rightarrow> string" where
  "strip_zeros s = (if s \<noteq> [] \<and> last s = CHR ''0'' then strip_zeros (butlast s) else s)"

declare strip_zeros.simps [simp del]

definition float_digits :: "int \<Rightarrow> string" where
  "float_digits c = (if c = 0 then [] else strip_zeros (show_nat (nat \<bar>c\<bar>)))"

text \<open>The value is \<open>0.d1d2... \<cdot> 10\<^sup>p\<close> for the digits \<open>d\<close> and the position \<open>p\<close> of the point.\<close>

definition float_point :: "int \<Rightarrow> int \<Rightarrow> int" where
  "float_point c e = (if c = 0 then 0 else int (length (show_nat (nat \<bar>c\<bar>))) + e)"

definition digit_at :: "string \<Rightarrow> int \<Rightarrow> char" where
  "digit_at ds i = (if 0 \<le> i \<and> i < int (length ds) then ds ! nat i else CHR ''0'')"

definition format_f :: "string \<Rightarrow> int \<Rightarrow> string" where
  "format_f ds dp =
     (let prec = nat (int (length ds) - dp);
          ip = (if 0 < dp then map (\<lambda>i. digit_at ds (int i)) [0..<nat dp] else ''0'')
      in if 0 < prec then ip @ ''.'' @ map (\<lambda>i. digit_at ds (dp + int i)) [0..<prec] else ip)"

definition format_e :: "nat \<Rightarrow> string \<Rightarrow> int \<Rightarrow> string" where
  "format_e min_digits ds dp =
     (let ex = (if ds = [] then 0 else dp - 1);
          frac = (if 1 < length ds then ''.'' @ tl ds else []);
          es = show_nat (nat \<bar>ex\<bar>)
      in [digit_at ds 0] @ frac @ ''e'' @ (if ex < 0 then ''-'' else ''+'')
         @ replicate (min_digits - length es) CHR ''0'' @ es)"

text \<open>
  \<open>float64(n)\<close> as a value, with the zeros at the end moved to the exponent. Below \<open>2\<^sup>5\<^sup>3\<close> this is the shortest decimal.
\<close>

definition float_value :: "int \<Rightarrow> gval" where
  "float_value n =
     (let ds = show_nat (nat \<bar>float64_of_int n\<bar>); z = length ds - length (strip_zeros ds)
      in if n = 0 then GFloat 0 0 else GFloat (sgn n * int (nat_of_digits (strip_zeros ds))) (int z))"

text \<open>\<open>%v\<close> is \<open>%g\<close>: scientific below \<open>1e-4\<close> and from 6 integer digits on.\<close>

definition format_g :: "int \<Rightarrow> int \<Rightarrow> string" where
  "format_g c e =
     (let ds = float_digits c; dp = float_point c e
      in (if c < 0 then ''-'' else []) @ (if dp - 1 < -4 \<or> 6 \<le> dp - 1 then format_e 2 ds dp else format_f ds dp))"

definition format_json_number :: "int \<Rightarrow> int \<Rightarrow> string" where
  "format_json_number c e =
     (let ds = float_digits c; dp = float_point c e
      in (if c < 0 then ''-'' else [])
         @ (if c \<noteq> 0 \<and> (dp - 1 < -6 \<or> 21 \<le> dp - 1) then format_e 1 ds dp else format_f ds dp))"

section \<open>fmt.Sprint\<close>

definition show_bool :: "bool \<Rightarrow> string" where
  "show_bool b = (if b then ''true'' else ''false'')"

text \<open>The keys of a map in the order of \<open>sort.Strings\<close> (bytewise).\<close>

definition sort_fields :: "(string \<times> 'a) list \<Rightarrow> (string \<times> 'a) list" where
  "sort_fields kvs = sort_key fst kvs"

fun sprint :: "gval \<Rightarrow> string" where
  "sprint GNil = ''<nil>''"
| "sprint (GBool b) = show_bool b"
| "sprint (GInt n) = itoa n"
| "sprint (GInt64 n) = itoa n"
| "sprint (GFloat c e) = format_g c e"
| "sprint (GStr s) = s"
| "sprint (GUID s) = s"
| "sprint (GStrs ss) = ''['' @ join '' '' ss @ '']''"
| "sprint (GArr xs) = ''['' @ join '' '' (map sprint xs) @ '']''"
| "sprint (GObj kvs) =
     ''map['' @ join '' '' (map (\<lambda>(k, t). k @ '':'' @ t) (sort_fields (map (\<lambda>(k, v). (k, sprint v)) kvs))) @ '']''"

section \<open>json.Marshal\<close>

text \<open>The width of the UTF-8 sequence at the front of a string; 0 where it is not valid.\<close>

definition rune_width :: "string \<Rightarrow> nat" where
  "rune_width s =
     (let n = map (of_char :: char \<Rightarrow> nat) (take 4 s); b = (\<lambda>i. if i < length n then n ! i else 0);
          ct = (\<lambda>i lo hi. i < length n \<and> lo \<le> b i \<and> b i \<le> hi);
          c0 = b 0
      in if n = [] then 0
         else if c0 < 128 then 1
         else if 194 \<le> c0 \<and> c0 \<le> 223 \<and> ct 1 128 191 then 2
         else if c0 = 224 \<and> ct 1 160 191 \<and> ct 2 128 191 then 3
         else if c0 = 237 \<and> ct 1 128 159 \<and> ct 2 128 191 then 3
         else if 225 \<le> c0 \<and> c0 \<le> 239 \<and> c0 \<noteq> 237 \<and> ct 1 128 191 \<and> ct 2 128 191 then 3
         else if c0 = 240 \<and> ct 1 144 191 \<and> ct 2 128 191 \<and> ct 3 128 191 then 4
         else if 241 \<le> c0 \<and> c0 \<le> 243 \<and> ct 1 128 191 \<and> ct 2 128 191 \<and> ct 3 128 191 then 4
         else if c0 = 244 \<and> ct 1 128 143 \<and> ct 2 128 191 \<and> ct 3 128 191 then 4
         else 0)"

definition backslash :: char where
  "backslash = char_of (92::nat)"

definition dquote :: char where
  "dquote = char_of (34::nat)"

definition json_escape_char :: "char \<Rightarrow> string" where
  "json_escape_char c =
     (let n = (of_char c :: nat) in
      if n = 34 \<or> n = 92 then [backslash, c]
      else if n = 8 then [backslash, CHR ''b''] else if n = 12 then [backslash, CHR ''f'']
      else if n = 10 then [backslash, CHR ''n''] else if n = 13 then [backslash, CHR ''r'']
      else if n = 9 then [backslash, CHR ''t'']
      else if n < 32 \<or> n = 60 \<or> n = 62 \<or> n = 38 then [backslash] @ ''u00'' @ hex2 n
      else [c])"

text \<open>Line and paragraph separators (U+2028, U+2029) are escaped, invalid bytes become U+FFFD.\<close>

fun json_escape :: "string \<Rightarrow> string" where
  "json_escape [] = []"
| "json_escape (c # s) =
     (if (of_char c :: nat) < 128 then json_escape_char c @ json_escape s
      else if rune_width (c # s) \<le> 1 then [backslash] @ ''ufffd'' @ json_escape s
      else if has_prefix (c # s) (bytes [226, 128, 168]) then [backslash] @ ''u2028'' @ json_escape (drop 2 s)
      else if has_prefix (c # s) (bytes [226, 128, 169]) then [backslash] @ ''u2029'' @ json_escape (drop 2 s)
      else take (rune_width (c # s)) (c # s) @ json_escape (drop (rune_width (c # s) - 1) s))"

definition json_string :: "string \<Rightarrow> string" where
  "json_string s = [dquote] @ json_escape s @ [dquote]"

definition json_object :: "(string \<times> string) list \<Rightarrow> string" where
  "json_object fs = ''{'' @ join '','' (map (\<lambda>(k, t). json_string k @ '':'' @ t) fs) @ ''}''"

definition json_array :: "string list \<Rightarrow> string" where
  "json_array ts = ''['' @ join '','' ts @ '']''"

fun json_marshal :: "gval \<Rightarrow> string" where
  "json_marshal GNil = ''null''"
| "json_marshal (GBool b) = show_bool b"
| "json_marshal (GInt n) = itoa n"
| "json_marshal (GInt64 n) = itoa n"
| "json_marshal (GFloat c e) = format_json_number c e"
| "json_marshal (GStr s) = json_string s"
| "json_marshal (GUID s) = json_string s"
| "json_marshal (GStrs ss) = (if ss = [] then ''null'' else json_array (map json_string ss))"
| "json_marshal (GArr xs) = json_array (map json_marshal xs)"
| "json_marshal (GObj kvs) = json_object (sort_fields (map (\<lambda>(k, v). (k, json_marshal v)) kvs))"

section \<open>Lemmas: values\<close>

lemma as_simps [simp]:
  "as_map (GObj kvs) = Some kvs"
  "as_list (GArr xs) = Some xs"
  "as_string (GStr s) = Some s"
  "as_bool (GBool b) = Some b"
  by (simp_all add: as_map_def as_list_def as_string_def as_bool_def)

lemma as_Some_iff:
  "as_map v = Some kvs \<longleftrightarrow> v = GObj kvs"
  "as_list v = Some xs \<longleftrightarrow> v = GArr xs"
  "as_string v = Some s \<longleftrightarrow> v = GStr s"
  "as_bool v = Some b \<longleftrightarrow> v = GBool b"
  by (cases v; simp add: as_map_def as_list_def as_string_def as_bool_def)+

lemma or_nil_simps [simp]:
  "map_or_nil (GObj kvs) = kvs"
  "map_or_nil GNil = []"
  "list_or_nil (GArr xs) = xs"
  "list_or_nil GNil = []"
  "string_or_empty (GStr s) = s"
  "string_or_empty GNil = []"
  "bool_or_false (GBool b) = b"
  "bool_or_false GNil = False"
  by (simp_all add: map_or_nil_def list_or_nil_def string_or_empty_def bool_or_false_def)

lemma gfield_simps [simp, map_simps]:
  "gfield [] k = GNil"
  "gfield (mput m k v) j = (if j = k then v else gfield m j)"
  by (simp_all add: gfield_def)

lemma gwf_mget: "gwf (GObj m) \<Longrightarrow> mget m k = Some v \<Longrightarrow> gwf v"
  by (auto dest: mget_in_set)

lemma gwf_gfield: "gwf (GObj m) \<Longrightarrow> gwf (gfield m k)"
  by (auto simp: gfield_def split: option.splits dest: mget_in_set)

lemma gwf_mput [inv_intros]: "gwf (GObj m) \<Longrightarrow> gwf v \<Longrightarrow> gwf (GObj (mput m k v))"
  using set_mput_subset [of m k v] by fastforce

lemma gval_at_append: "gval_at v (ss @ ts) = (case gval_at v ss of Some u \<Rightarrow> gval_at u ts | None \<Rightarrow> None)"
  by (induction v ss rule: gval_at.induct) (auto split: gval.splits option.splits)

lemma nth_enumerate_mem: "i < length xs \<Longrightarrow> (i, xs ! i) \<in> set (enumerate 0 xs)"
  by (simp add: in_set_enumerate_eq)

lemma deep_equal_refl: "gwf v \<Longrightarrow> deep_equal v v"
proof (induction v)
  case (GArr xs)
  then show ?case by (auto simp: set_zip)
next
  case (GObj kvs)
  show ?case
  proof -
    have "\<And>k v. (k, v) \<in> set kvs \<Longrightarrow> mget kvs k = Some v \<and> deep_equal v v"
      using GObj by (fastforce simp: in_set_mget)
    then show ?thesis by (auto split: option.splits)
  qed
qed simp_all

end
