(* ===== verification/Errors.thy ===== *)
theory Errors
  imports Go_Value
begin

text \<open>
  Errors of the server (\<open>internal/server/errors.go\<close>) and how they are classified
  (\<open>auditOutcome\<close> in \<open>internal/server/audit.go\<close>).

  A Go error is a chain: \<open>Wrapped\<close> is \<open>fmt.Errorf("...: %w", err)\<close> and \<open>Detailed\<close> is
  \<open>*toolErrorWithDetails\<close>. The functions \<open>as_tool\<close>, \<open>as_detailed\<close>, \<open>status_reason\<close> and
  \<open>is_err\<close> walk the chain as \<open>errors.As\<close> and \<open>errors.Is\<close> do. \<open>StatusError\<close> is an
  error of the Kubernetes client library, reduced to the reason that the \<open>apierrors.Is...\<close> predicates look at.
\<close>

datatype k8s_reason =
    Forbidden | Unauthorized | Conflict | NotFound | AlreadyExists | TooManyRequests
  | Timeout | ServerTimeout | ServiceUnavailable | OtherStatus

datatype gerr =
    ToolError (tool_Reason: string) (tool_Message: string)
  | Detailed gerr gval
  | StatusError k8s_reason string
  | Canceled
  | DeadlineExceeded
  | Wrapped string gerr
  | Plain string

abbreviation policyError :: "string \<Rightarrow> string \<Rightarrow> gerr" where
  "policyError \<equiv> ToolError"

primrec error_text :: "gerr \<Rightarrow> string" where
  "error_text (ToolError r m) = r @ '': '' @ m"
| "error_text (Detailed c d) = error_text c"
| "error_text (StatusError r m) = m"
| "error_text Canceled = ''context canceled''"
| "error_text DeadlineExceeded = ''context deadline exceeded''"
| "error_text (Wrapped p e) = p @ '': '' @ error_text e"
| "error_text (Plain m) = m"

fun as_tool :: "gerr \<Rightarrow> (string \<times> string) option" where
  "as_tool (ToolError r m) = Some (r, m)"
| "as_tool (Detailed c d) = as_tool c"
| "as_tool (Wrapped p e) = as_tool e"
| "as_tool _ = None"

fun as_detailed :: "gerr \<Rightarrow> (gerr \<times> gval) option" where
  "as_detailed (Detailed c d) = Some (c, d)"
| "as_detailed (Wrapped p e) = as_detailed e"
| "as_detailed _ = None"

fun status_reason :: "gerr \<Rightarrow> k8s_reason option" where
  "status_reason (StatusError r m) = Some r"
| "status_reason (Detailed c d) = status_reason c"
| "status_reason (Wrapped p e) = status_reason e"
| "status_reason _ = None"

fun is_err :: "gerr \<Rightarrow> gerr \<Rightarrow> bool" where
  "is_err t (Detailed c d) = is_err t c"
| "is_err t (Wrapped p e) = is_err t e"
| "is_err t e = (e = t)"

definition is_not_found :: "gerr \<Rightarrow> bool" where
  "is_not_found e = (status_reason e = Some NotFound)"

record toolErrorOutput =
  out_Code :: string
  out_Message :: string
  out_Retryable :: bool
  out_Details :: "gval option"

definition errorWithDetails :: "gerr option \<Rightarrow> gval option \<Rightarrow> gerr option" where
  "errorWithDetails err details =
     (case err of None \<Rightarrow> None | Some e \<Rightarrow>
        (case details of None \<Rightarrow> Some e | Some d \<Rightarrow> Some (Detailed e d)))"

text \<open>\<open>auditOutcome\<close>: the decision and the stable reason of a tool call.\<close>

definition auditOutcome :: "gerr option \<Rightarrow> string \<times> string" where
  "auditOutcome err =
     (case err of None \<Rightarrow> (''allow'', ''success'')
      | Some e \<Rightarrow>
         (case as_tool e of
            Some (r, m) \<Rightarrow>
              if r = ''stream_capacity'' \<or> r = ''plan_capacity'' \<or> r = ''unsupported_operation''
              then (''error'', r) else (''deny'', r)
          | None \<Rightarrow>
             (if status_reason e = Some Forbidden then (''deny'', ''kubernetes_forbidden'')
              else if status_reason e = Some Unauthorized then (''deny'', ''kubernetes_unauthorized'')
              else if status_reason e = Some Conflict then (''error'', ''kubernetes_conflict'')
              else if status_reason e = Some NotFound then (''error'', ''kubernetes_not_found'')
              else if status_reason e = Some TooManyRequests then (''error'', ''kubernetes_throttled'')
              else if status_reason e = Some Timeout \<or> status_reason e = Some ServerTimeout
                then (''error'', ''kubernetes_timeout'')
              else if status_reason e = Some ServiceUnavailable then (''error'', ''kubernetes_unavailable'')
              else if is_err DeadlineExceeded e then (''error'', ''deadline_exceeded'')
              else if is_err Canceled e then (''error'', ''canceled'')
              else (''error'', ''internal_error''))))"

definition retryableErrorCode :: "string \<Rightarrow> bool" where
  "retryableErrorCode code =
     (code \<in> set [''stream_capacity'', ''kubernetes_conflict'', ''kubernetes_throttled'', ''kubernetes_timeout'',
        ''kubernetes_unavailable'', ''deadline_exceeded''])"

lemma as_detailed_size [termination_simp]: "as_detailed e = Some (c, d) \<Longrightarrow> size c < size e"
  by (induction e arbitrary: c d rule: as_detailed.induct) fastforce+

definition invalid_argument_message :: "string \<Rightarrow> bool" where
  "invalid_argument_message m =
     (has_prefix m (''validating '' @ [dquote] @ ''arguments'' @ [dquote] @ '':'') \<or> has_prefix m ''json: cannot unmarshal'')"

fun normalize_error :: "gerr \<Rightarrow> toolErrorOutput" where
  "normalize_error e =
     (case as_detailed e of
        Some (c, d) \<Rightarrow> (normalize_error c)\<lparr>out_Details := Some d\<rparr>
      | None \<Rightarrow>
         (case as_tool e of
            Some (r, m) \<Rightarrow> \<lparr>out_Code = r, out_Message = m, out_Retryable = retryableErrorCode r, out_Details = None\<rparr>
          | None \<Rightarrow>
             (if invalid_argument_message (error_text e)
              then \<lparr>out_Code = ''invalid_input'', out_Message = error_text e, out_Retryable = False, out_Details = None\<rparr>
              else (let code = snd (auditOutcome (Some e))
                    in \<lparr>out_Code = code, out_Message = error_text e, out_Retryable = retryableErrorCode code,
                        out_Details = None\<rparr>))))"

declare normalize_error.simps [simp del]

definition normalizeToolError :: "gerr option \<Rightarrow> toolErrorOutput" where
  "normalizeToolError err =
     (case err of
        None \<Rightarrow> \<lparr>out_Code = ''tool_error'', out_Message = ''tool call failed'', out_Retryable = False, out_Details = None\<rparr>
      | Some e \<Rightarrow> normalize_error e)"

text \<open>The JSON text of \<open>toolErrorOutput\<close>, in the order of its struct fields.\<close>

definition marshal_toolErrorOutput :: "toolErrorOutput \<Rightarrow> string" where
  "marshal_toolErrorOutput e =
     json_object ([(''code'', json_string (out_Code e)), (''message'', json_string (out_Message e)),
        (''retryable'', show_bool (out_Retryable e))]
        @ (case out_Details e of None \<Rightarrow> [] | Some d \<Rightarrow> [(''details'', json_marshal d)]))"

text \<open>
  What a method handler of the MCP library returns. A tool result carries the error that the
  handler set, a text and a structured part.
\<close>

record callToolResult =
  ctr_IsError :: bool
  ctr_Error :: "gerr option"
  ctr_Content :: "string list"
  ctr_Structured :: "toolErrorOutput option"

datatype mcpResult = ToolResult callToolResult | OtherResult gval

definition structuredToolErrorMiddleware :: "(gerr, mcpResult) res \<Rightarrow> (gerr, mcpResult) res" where
  "structuredToolErrorMiddleware next =
     bindR next (\<lambda>result.
       case result of
         OtherResult v \<Rightarrow> Inr (OtherResult v)
       | ToolResult r \<Rightarrow>
          (if \<not> ctr_IsError r then Inr (ToolResult r)
           else let output = normalizeToolError (ctr_Error r)
                in Inr (ToolResult (r\<lparr>ctr_Content := [marshal_toolErrorOutput output],
                                      ctr_Structured := Some output\<rparr>))))"

text \<open>An HTTP response: status, headers, and the structured error body if there is one.\<close>

record httpResponse =
  http_Status :: int
  http_Headers :: "(string \<times> string) list"
  http_Error :: "toolErrorOutput option"

definition writeStructuredHTTPError :: "(string \<times> string) list \<Rightarrow> int \<Rightarrow> string \<Rightarrow> string \<Rightarrow> bool \<Rightarrow> httpResponse" where
  "writeStructuredHTTPError headers status code message retryable =
     \<lparr>http_Status = status,
      http_Headers = mput (mput headers ''Content-Type'' ''application/json'') ''Cache-Control'' ''no-store'',
      http_Error = Some \<lparr>out_Code = code, out_Message = message, out_Retryable = retryable, out_Details = None\<rparr>\<rparr>"

section \<open>Lemmas\<close>

lemma errorWithDetails_simps [simp]:
  "errorWithDetails None d = None"
  "errorWithDetails (Some e) None = Some e"
  "errorWithDetails (Some e) (Some v) = Some (Detailed e v)"
  by (simp_all add: errorWithDetails_def)

lemma normalize_Detailed [simp]: "normalize_error (Detailed c d) = (normalize_error c)\<lparr>out_Details := Some d\<rparr>"
  by (subst normalize_error.simps) simp

lemma as_detailed_chain:
  assumes "as_detailed e = Some (c, d)"
  shows "as_tool e = as_tool c" "status_reason e = status_reason c" "is_err t e = is_err t c"
  using assms by (induction e rule: as_detailed.induct) auto

lemma auditOutcome_detailed: "as_detailed e = Some (c, d) \<Longrightarrow> auditOutcome (Some e) = auditOutcome (Some c)"
  by (simp add: auditOutcome_def as_detailed_chain cong: option.case_cong)

text \<open>The error from which the code of a normalized error is taken.\<close>

fun root_cause :: "gerr \<Rightarrow> gerr" where
  "root_cause e = (case as_detailed e of Some (c, d) \<Rightarrow> root_cause c | None \<Rightarrow> e)"

declare root_cause.simps [simp del]

lemma normalize_code:
  "out_Code (normalize_error e) =
     (if as_tool e = None \<and> invalid_argument_message (error_text (root_cause e)) then ''invalid_input''
      else snd (auditOutcome (Some e)))"
proof (induction e rule: normalize_error.induct)
  case (1 e)
  show ?case
  proof (cases "as_detailed e")
    case None
    then show ?thesis
      by (auto simp: normalize_error.simps [of e] root_cause.simps [of e] auditOutcome_def Let_def split: option.splits)
  next
    case (Some p)
    obtain c d where p: "p = (c, d)" by (cases p)
    with Some have s: "as_detailed e = Some (c, d)" by simp
    have IH: "out_Code (normalize_error c) =
      (if as_tool c = None \<and> invalid_argument_message (error_text (root_cause c)) then ''invalid_input''
       else snd (auditOutcome (Some c)))"
      using 1 [OF Some] p by simp
    show ?thesis
      using IH s auditOutcome_detailed [OF s] as_detailed_chain(1) [OF s]
      by (simp add: normalize_error.simps [of e] root_cause.simps [of e])
  qed
qed

lemma normalize_retryable: "out_Retryable (normalize_error e) \<longrightarrow> retryableErrorCode (out_Code (normalize_error e))"
proof (induction e rule: normalize_error.induct)
  case (1 e)
  then show ?case
    by (auto simp: normalize_error.simps [of e] Let_def split: option.splits)
qed

section \<open>Properties\<close>

text \<open>
  Callers and the audit log see the same reason. The code of the structured error that a failed tool call returns is the reason that the audit log records for it, however
  the error is wrapped and whatever details are attached, except that malformed arguments are reported as invalid input; and an error is only called retryable when
  its code is one of the transient ones.
\<close>

theorem error_code_is_audit_reason:
  "out_Code (normalizeToolError (Some e)) =
     (if as_tool e = None \<and> invalid_argument_message (error_text (root_cause e)) then ''invalid_input''
      else snd (auditOutcome (Some e))) \<and>
   (out_Retryable (normalizeToolError (Some e)) \<longrightarrow> retryableErrorCode (out_Code (normalizeToolError (Some e))))"
  using normalize_code normalize_retryable by (simp add: normalizeToolError_def)

theorem error_code_is_audit_reason_witness:
  "out_Code (normalizeToolError (Some (Wrapped ''call'' (Detailed (ToolError ''plan_capacity'' ''full'') GNil)))) = ''plan_capacity''"
  using error_code_is_audit_reason [of "Wrapped ''call'' (Detailed (ToolError ''plan_capacity'' ''full'') GNil)"]
  by (simp add: auditOutcome_def)

end
