(* ===== verification/Server_Config.thy ===== *)
theory Server_Config
  imports Errors
begin

text \<open>
  The custom resource (\<open>api/v1alpha1/kubernetesmcpserver_types.go\<close>), its defaults, and the
  configuration a server process runs with (\<open>internal/runtimeconfig/config.go\<close>).

  The string types \<open>AccessMode\<close> and \<open>SensitiveReadPolicy\<close> are datatypes with one constructor per Go
  constant and one for every other string, the empty string (an omitted field) among them. Durations are nanoseconds.
  A \<open>resource.Quantity\<close> is its number of nano-units, the precision to which the library rounds. Label selectors
  are opaque (they are only copied into a NetworkPolicy).
\<close>

datatype AccessMode = ModeReadOnly | ModeSafeWrite | ModeDangerous | ModeOther string

datatype SensitiveReadPolicy = SensitiveReadRedact | SensitiveReadDeny | SensitiveReadAllow | SensitiveReadOther string

definition mode_text :: "AccessMode \<Rightarrow> string" where
  "mode_text m = (case m of ModeReadOnly \<Rightarrow> ''ReadOnly'' | ModeSafeWrite \<Rightarrow> ''SafeWrite'' | ModeDangerous \<Rightarrow> ''Dangerous'' | ModeOther s \<Rightarrow> s)"

definition sensitive_text :: "SensitiveReadPolicy \<Rightarrow> string" where
  "sensitive_text p = (case p of SensitiveReadRedact \<Rightarrow> ''Redact'' | SensitiveReadDeny \<Rightarrow> ''Deny'' | SensitiveReadAllow \<Rightarrow> ''Allow'' | SensitiveReadOther s \<Rightarrow> s)"

record ScopeSpec =
  Namespaces :: "string list"
  AllowClusterScopedRead :: bool
  AllowClusterScopedWrite :: bool

record CapabilityRule =
  rule_APIGroups :: "string list"
  rule_Resources :: "string list"
  rule_Verbs :: "string list"

record PolicySpec =
  Rules :: "CapabilityRule list"
  SensitiveReads :: SensitiveReadPolicy

record TLSSpec =
  SecretName :: string

record LimitsSpec =
  RequestTimeout :: duration
  StreamTimeout :: duration
  ExecTimeout :: duration
  MaxInputBytes :: int
  MaxOutputBytes :: int
  MaxListItems :: int
  MaxConcurrent :: int
  RequestsPerMinute :: int
  Burst :: int

record NetworkPolicySpec =
  Enabled :: "bool option"
  AllowedNamespaceSelector :: "gval option"
  AllowedPodSelector :: "gval option"

type_synonym quantity = int
type_synonym resourceList = "(string \<times> quantity) list"

record ResourceRequirements =
  Requests :: resourceList
  Limits :: resourceList

record KubernetesMCPServerSpec =
  spec_Resources :: ResourceRequirements
  spec_Mode :: AccessMode
  spec_Scope :: ScopeSpec
  spec_Policy :: PolicySpec
  spec_TLS :: TLSSpec
  spec_Limits :: LimitsSpec
  spec_NetworkPolicy :: NetworkPolicySpec

record KubernetesMCPServer =
  srv_Name :: string
  srv_Namespace :: string
  srv_UID :: string
  srv_Generation :: int
  srv_Spec :: KubernetesMCPServerSpec

definition or_default :: "'a \<Rightarrow> 'a \<Rightarrow> 'a \<Rightarrow> 'a" where
  "or_default zero d x = (if x = zero then d else x)"

definition default_limits :: "LimitsSpec \<Rightarrow> LimitsSpec" where
  "default_limits l =
     l\<lparr>RequestTimeout := or_default 0 (30 * second) (RequestTimeout l),
       StreamTimeout := or_default 0 (60 * second) (StreamTimeout l),
       ExecTimeout := or_default 0 (30 * second) (ExecTimeout l),
       MaxInputBytes := or_default 0 (256 * 1024) (MaxInputBytes l),
       MaxOutputBytes := or_default 0 (1024 * 1024) (MaxOutputBytes l),
       MaxListItems := or_default 0 100 (MaxListItems l),
       MaxConcurrent := or_default 0 4 (MaxConcurrent l),
       RequestsPerMinute := or_default 0 120 (RequestsPerMinute l),
       Burst := or_default 0 20 (Burst l)\<rparr>"

text \<open>\<open>(*KubernetesMCPServer).Default\<close>, on the specification and the namespace of the resource.\<close>

definition default_spec :: "string \<Rightarrow> KubernetesMCPServerSpec \<Rightarrow> KubernetesMCPServerSpec" where
  "default_spec namespace s =
     s\<lparr>spec_Mode := or_default (ModeOther []) ModeReadOnly (spec_Mode s),
       spec_Scope := (spec_Scope s)\<lparr>Namespaces :=
          (if length (Namespaces (spec_Scope s)) = 0 then [namespace] else Namespaces (spec_Scope s))\<rparr>,
       spec_Policy := (spec_Policy s)\<lparr>SensitiveReads :=
          or_default (SensitiveReadOther []) SensitiveReadRedact (SensitiveReads (spec_Policy s))\<rparr>,
       spec_Limits := default_limits (spec_Limits s),
       spec_NetworkPolicy := (spec_NetworkPolicy s)\<lparr>Enabled :=
          (case Enabled (spec_NetworkPolicy s) of None \<Rightarrow> Some True | Some b \<Rightarrow> Some b)\<rparr>\<rparr>"

definition Default :: "KubernetesMCPServer \<Rightarrow> KubernetesMCPServer" where
  "Default s = s\<lparr>srv_Spec := default_spec (srv_Namespace s) (srv_Spec s)\<rparr>"

definition TLSSecretName :: "KubernetesMCPServer \<Rightarrow> string" where
  "TLSSecretName s =
     (if SecretName (spec_TLS (srv_Spec s)) \<noteq> [] then SecretName (spec_TLS (srv_Spec s)) else srv_Name s @ ''-tls'')"

definition ServerLabels :: "KubernetesMCPServer \<Rightarrow> (string \<times> string) list" where
  "ServerLabels s =
     [(''app.kubernetes.io/name'', ''supek8smcp-server''),
      (''app.kubernetes.io/instance'', srv_Name s),
      (''app.kubernetes.io/managed-by'', ''supek8smcp-operator'')]"

abbreviation milli :: "int \<Rightarrow> quantity" where
  "milli n \<equiv> n * 1000000"

abbreviation mebi :: "int \<Rightarrow> quantity" where
  "mebi n \<equiv> n * 1048576 * 1000000000"

definition put_missing :: "('k \<times> 'v) list \<Rightarrow> 'k \<Rightarrow> 'v \<Rightarrow> ('k \<times> 'v) list" where
  "put_missing m k v = (if mget m k = None then mput m k v else m)"

definition ServerResources :: "KubernetesMCPServerSpec \<Rightarrow> ResourceRequirements" where
  "ServerResources s =
     \<lparr>Requests = put_missing (put_missing (Requests (spec_Resources s)) ''cpu'' (milli 50)) ''memory'' (mebi 64),
      Limits = put_missing (put_missing (Limits (spec_Resources s)) ''cpu'' (milli 500)) ''memory'' (mebi 256)\<rparr>"

section \<open>The runtime configuration\<close>

record Config =
  cfg_Name :: string
  cfg_Namespace :: string
  cfg_Generation :: int
  cfg_Spec :: KubernetesMCPServerSpec

abbreviation cfg_Mode :: "Config \<Rightarrow> AccessMode" where
  "cfg_Mode c \<equiv> spec_Mode (cfg_Spec c)"

abbreviation cfg_Scope :: "Config \<Rightarrow> ScopeSpec" where
  "cfg_Scope c \<equiv> spec_Scope (cfg_Spec c)"

abbreviation cfg_Policy :: "Config \<Rightarrow> PolicySpec" where
  "cfg_Policy c \<equiv> spec_Policy (cfg_Spec c)"

abbreviation cfg_Limits :: "Config \<Rightarrow> LimitsSpec" where
  "cfg_Limits c \<equiv> spec_Limits (cfg_Spec c)"

definition FromResource :: "KubernetesMCPServer \<Rightarrow> Config" where
  "FromResource server =
     (let copy = Default server
      in \<lparr>cfg_Name = srv_Name copy, cfg_Namespace = srv_Namespace copy,
          cfg_Generation = srv_Generation copy, cfg_Spec = srv_Spec copy\<rparr>)"

text \<open>\<open>Quantity.Value\<close> rounds up to a whole unit.\<close>

definition quantity_value :: "quantity \<Rightarrow> int" where
  "quantity_value q = - ((- q) div 1000000000)"

definition check_requests :: "ResourceRequirements \<Rightarrow> gerr option" where
  "check_requests r =
     first_error (\<lambda>(name, request).
       if request < 0 then Some (Plain (''resource request '' @ name @ '' must not be negative''))
       else (case mget (Limits r) name of
               Some limit \<Rightarrow> if limit < request then Some (Plain (''resource request '' @ name @ '' exceeds its limit'')) else None
             | None \<Rightarrow> None)) (Requests r)"

definition check_limits :: "ResourceRequirements \<Rightarrow> gerr option" where
  "check_limits r =
     first_error (\<lambda>(name, limit).
       if limit \<le> 0 then Some (Plain (''resource limit '' @ name @ '' must be positive'')) else None) (Limits r)"

text \<open>The memory that the configured budgets need; every operation is on int64.\<close>

definition required_memory :: "LimitsSpec \<Rightarrow> int" where
  "required_memory l =
     wrap64 (134217728 + wrap64 (MaxConcurrent l *
        wrap64 (16777216 + wrap64 (4 * wrap64 (MaxInputBytes l + MaxOutputBytes l)))))"

definition Validate :: "Config \<Rightarrow> gerr option" where
  "Validate cfg =
     (let spec = cfg_Spec cfg; l = spec_Limits spec; resources = ServerResources spec;
          required = required_memory l;
          memory = (case mget (Limits resources) ''memory'' of Some q \<Rightarrow> q | None \<Rightarrow> 0)
      in if cfg_Name cfg = [] \<or> cfg_Namespace cfg = [] then Some (Plain ''server config requires name and namespace'')
         else if spec_Mode spec \<notin> {ModeReadOnly, ModeSafeWrite, ModeDangerous}
           then Some (Plain (''unsupported access mode '' @ go_quote (mode_text (spec_Mode spec))))
         else if AllowClusterScopedWrite (spec_Scope spec) \<and> spec_Mode spec \<noteq> ModeDangerous
           then Some (Plain ''cluster-scoped writes require Dangerous mode'')
         else if length (Namespaces (spec_Scope spec)) = 0
           then Some (Plain ''server config requires at least one namespace'')
         else andthen (first_error (\<lambda>ns. if ns = [] then Some (Plain ''server config namespace scope may not contain an empty name'') else None)
                (Namespaces (spec_Scope spec)))
        (if SensitiveReads (spec_Policy spec) \<notin> {SensitiveReadRedact, SensitiveReadDeny, SensitiveReadAllow}
           then Some (Plain (''unsupported sensitiveReads policy '' @ go_quote (sensitive_text (SensitiveReads (spec_Policy spec)))))
         else if RequestTimeout l \<le> 0 \<or> StreamTimeout l \<le> 0 \<or> ExecTimeout l \<le> 0
           then Some (Plain ''request, stream, and exec timeouts must be positive'')
         else if MaxInputBytes l < 1024 \<or> 10485760 < MaxInputBytes l
           then Some (Plain ''maxInputBytes must be between 1024 and 10485760'')
         else if MaxOutputBytes l < 1024 \<or> 52428800 < MaxOutputBytes l
           then Some (Plain ''maxOutputBytes must be between 1024 and 52428800'')
         else if MaxListItems l < 1 \<or> 1000 < MaxListItems l
           then Some (Plain ''maxListItems must be between 1 and 1000'')
         else if MaxConcurrent l < 1 \<or> 32 < MaxConcurrent l
           then Some (Plain ''maxConcurrent must be between 1 and 32'')
         else if RequestsPerMinute l < 1 \<or> 6000 < RequestsPerMinute l
           then Some (Plain ''requestsPerMinute must be between 1 and 6000'')
         else if Burst l < 1 \<or> 1000 < Burst l
           then Some (Plain ''burst must be between 1 and 1000'')
         else andthen (check_requests resources)
             (andthen (check_limits resources)
               (if quantity_value memory < required
                then Some (Plain (''server memory limit must be at least '' @ itoa required @
                       '' bytes for the configured concurrency and input/output budgets''))
                else None))))"

text \<open>\<open>Load\<close>, given what reading and decoding the file produced.\<close>

definition Load :: "(gerr, Config) res \<Rightarrow> (gerr, Config) res" where
  "Load decoded =
     bindR decoded (\<lambda>cfg.
       if cfg_Name cfg = [] \<or> cfg_Namespace cfg = [] then Inl (Plain ''server config requires name and namespace'')
       else let cfg' = cfg\<lparr>cfg_Spec := default_spec (cfg_Namespace cfg) (cfg_Spec cfg)\<rparr>
            in checkR (Validate cfg') (Inr cfg'))"

text \<open>\<open>Marshal\<close>, up to the JSON text: what it encodes.\<close>

definition Marshal :: "Config \<Rightarrow> (gerr, Config) res" where
  "Marshal cfg = checkR (Validate cfg) (Inr cfg)"

section \<open>Lemmas\<close>

lemma default_limits_idem [simp]: "default_limits (default_limits l) = default_limits l"
  by (simp add: default_limits_def or_default_def)

lemma default_spec_idem [simp]: "default_spec ns (default_spec ns s) = default_spec ns s"
  by (simp add: default_spec_def or_default_def split: option.splits)

lemma put_missing_keeps [simp]: "mget m k = Some v \<Longrightarrow> mget (put_missing m j u) k = Some v"
  by (auto simp: put_missing_def)

lemma put_missing_present: "\<exists>v. mget (put_missing m k u) k = Some v"
  by (cases "mget m k") (auto simp: put_missing_def)

lemma required_memory_exact:
  assumes "1024 \<le> MaxInputBytes l" "MaxInputBytes l \<le> 10485760"
    and "1024 \<le> MaxOutputBytes l" "MaxOutputBytes l \<le> 52428800"
    and "1 \<le> MaxConcurrent l" "MaxConcurrent l \<le> 32"
  shows "required_memory l =
    134217728 + MaxConcurrent l * (16777216 + 4 * (MaxInputBytes l + MaxOutputBytes l))"
proof -
  let ?b = "16777216 + 4 * (MaxInputBytes l + MaxOutputBytes l)"
  have b: "0 \<le> ?b" "?b \<le> 268435456" using assms by auto
  define p where "p = MaxConcurrent l * ?b"
  have p: "0 \<le> p" "p \<le> 32 * 268435456"
    unfolding p_def using assms b by (simp, intro mult_mono, auto)
  have "required_memory l = wrap64 (134217728 + wrap64 p)"
    unfolding required_memory_def p_def using assms by (simp add: wrap64_id min_int64_def max_int64_def)
  also have "\<dots> = 134217728 + p"
    using p by (simp add: wrap64_id min_int64_def max_int64_def)
  finally show ?thesis by (simp only: p_def)
qed

lemma Validate_None:
  assumes "Validate cfg = None"
  shows "cfg_Name cfg \<noteq> []" "cfg_Namespace cfg \<noteq> []"
    "cfg_Mode cfg \<in> {ModeReadOnly, ModeSafeWrite, ModeDangerous}"
    "AllowClusterScopedWrite (cfg_Scope cfg) \<Longrightarrow> cfg_Mode cfg = ModeDangerous"
    "Namespaces (cfg_Scope cfg) \<noteq> []" "[] \<notin> set (Namespaces (cfg_Scope cfg))"
    "SensitiveReads (cfg_Policy cfg) \<in> {SensitiveReadRedact, SensitiveReadDeny, SensitiveReadAllow}"
    "0 < RequestTimeout (cfg_Limits cfg)" "0 < StreamTimeout (cfg_Limits cfg)" "0 < ExecTimeout (cfg_Limits cfg)"
    "1024 \<le> MaxInputBytes (cfg_Limits cfg)" "MaxInputBytes (cfg_Limits cfg) \<le> 10485760"
    "1024 \<le> MaxOutputBytes (cfg_Limits cfg)" "MaxOutputBytes (cfg_Limits cfg) \<le> 52428800"
    "1 \<le> MaxListItems (cfg_Limits cfg)" "MaxListItems (cfg_Limits cfg) \<le> 1000"
    "1 \<le> MaxConcurrent (cfg_Limits cfg)" "MaxConcurrent (cfg_Limits cfg) \<le> 32"
    "1 \<le> RequestsPerMinute (cfg_Limits cfg)" "RequestsPerMinute (cfg_Limits cfg) \<le> 6000"
    "1 \<le> Burst (cfg_Limits cfg)" "Burst (cfg_Limits cfg) \<le> 1000"
  using assms
  by (auto simp: Validate_def Let_def first_error_None_iff split: if_splits)

lemma default_spec_Marshal: "default_spec (cfg_Namespace (FromResource s)) (cfg_Spec (FromResource s)) = cfg_Spec (FromResource s)"
  by (simp add: FromResource_def Default_def Let_def)

lemma Validate_memory:
  assumes "Validate cfg = None"
  shows "required_memory (cfg_Limits cfg) \<le>
    quantity_value (case mget (Limits (ServerResources (cfg_Spec cfg))) ''memory'' of Some q \<Rightarrow> q | None \<Rightarrow> 0)"
  using assms by (auto simp: Validate_def Let_def split: if_splits)

lemma loads_marshalled:
  assumes "Marshal (FromResource s) = Inr c"
  shows "c = FromResource s" "Load (Inr c) = Inr (FromResource s)"
proof -
  show c: "c = FromResource s" using assms by (auto simp: Marshal_def checkR_Inr_iff)
  have "Validate c = None" using assms by (auto simp: Marshal_def checkR_Inr_iff)
  moreover have "c\<lparr>cfg_Spec := default_spec (cfg_Namespace c) (cfg_Spec c)\<rparr> = c" using default_spec_Marshal [of s] c by simp
  ultimately show "Load (Inr c) = Inr (FromResource s)" using Validate_None(1,2) [of c] c by (simp add: Load_def Let_def)
qed

section \<open>Properties\<close>

text \<open>
  The operator and the server agree on the configuration. What the operator derives from the custom resource and marshals is loaded by the server unchanged: defaulting a second time
  and validating again change nothing.
\<close>

theorem config_roundtrip:
  assumes "Marshal (FromResource s) = Inr c"
  shows "c = FromResource s \<and> Load (Inr c) = Inr c"
  using loads_marshalled [OF assms] by simp

text \<open>
  Accepted budgets fit the memory limit. For a configuration that \<open>Validate\<close> accepts, the int64 arithmetic of the memory check does not wrap around, and the memory limit of the
  container covers the fixed part and, for every concurrent request, its buffers.
\<close>

theorem accepted_budgets_fit:
  assumes "Validate cfg = None"
  shows "134217728 + MaxConcurrent (cfg_Limits cfg) * (16777216 + 4 * (MaxInputBytes (cfg_Limits cfg) + MaxOutputBytes (cfg_Limits cfg))) \<le>
    quantity_value (case mget (Limits (ServerResources (cfg_Spec cfg))) ''memory'' of Some q \<Rightarrow> q | None \<Rightarrow> 0)"
  using Validate_memory [OF assms] required_memory_exact [OF Validate_None(11-14,17,18) [OF assms]] by simp

section \<open>Witnesses\<close>

definition sample_spec :: KubernetesMCPServerSpec where
  "sample_spec =
     default_spec ''demo''
       \<lparr>spec_Resources = \<lparr>Requests = [], Limits = []\<rparr>, spec_Mode = ModeSafeWrite,
        spec_Scope = \<lparr>Namespaces = [], AllowClusterScopedRead = False, AllowClusterScopedWrite = False\<rparr>,
        spec_Policy = \<lparr>Rules = [], SensitiveReads = SensitiveReadOther []\<rparr>, spec_TLS = \<lparr>SecretName = []\<rparr>,
        spec_Limits = \<lparr>RequestTimeout = 0, StreamTimeout = 0, ExecTimeout = 0, MaxInputBytes = 0, MaxOutputBytes = 0,
          MaxListItems = 0, MaxConcurrent = 0, RequestsPerMinute = 0, Burst = 0\<rparr>,
        spec_NetworkPolicy = \<lparr>Enabled = None, AllowedNamespaceSelector = None, AllowedPodSelector = None\<rparr>\<rparr>"

definition sample_config :: Config where
  "sample_config = \<lparr>cfg_Name = ''mcp'', cfg_Namespace = ''demo'', cfg_Generation = 1, cfg_Spec = sample_spec\<rparr>"

lemma sample_fields:
  "cfg_Name sample_config = ''mcp''" "cfg_Namespace sample_config = ''demo''" "cfg_Spec sample_config = sample_spec"
  "spec_Mode sample_spec = ModeSafeWrite" "Namespaces (spec_Scope sample_spec) = [''demo'']"
  "AllowClusterScopedWrite (spec_Scope sample_spec) = False" "SensitiveReads (spec_Policy sample_spec) = SensitiveReadRedact"
  "RequestTimeout (spec_Limits sample_spec) = 30 * second" "StreamTimeout (spec_Limits sample_spec) = 60 * second"
  "ExecTimeout (spec_Limits sample_spec) = 30 * second" "MaxInputBytes (spec_Limits sample_spec) = 262144"
  "MaxOutputBytes (spec_Limits sample_spec) = 1048576" "MaxListItems (spec_Limits sample_spec) = 100"
  "MaxConcurrent (spec_Limits sample_spec) = 4" "RequestsPerMinute (spec_Limits sample_spec) = 120" "Burst (spec_Limits sample_spec) = 20"
  by (simp_all add: sample_config_def sample_spec_def default_spec_def default_limits_def or_default_def)

lemma sample_resources:
  "ServerResources sample_spec =
     \<lparr>Requests = [(''cpu'', milli 50), (''memory'', mebi 64)], Limits = [(''cpu'', milli 500), (''memory'', mebi 256)]\<rparr>"
  by (simp add: ServerResources_def sample_spec_def default_spec_def put_missing_def mput_def mget_def)

lemma sample_checks:
  "check_requests (ServerResources sample_spec) = None" "check_limits (ServerResources sample_spec) = None"
  "required_memory (spec_Limits sample_spec) = 222298112"
  by (simp_all add: check_requests_def check_limits_def sample_resources mget_def required_memory_def sample_fields wrap64_def)

lemma sample_config_valid: "Validate sample_config = None"
  unfolding Validate_def Let_def sample_fields sample_checks
  by (simp add: sample_fields sample_checks sample_resources mget_def quantity_value_def)

definition sample_server :: KubernetesMCPServer where
  "sample_server = \<lparr>srv_Name = ''mcp'', srv_Namespace = ''demo'', srv_UID = ''u'', srv_Generation = 1, srv_Spec = sample_spec\<rparr>"

lemma sample_from_resource: "FromResource sample_server = sample_config"
  by (simp add: FromResource_def Default_def sample_server_def sample_config_def sample_spec_def)

theorem config_roundtrip_witness: "Load (Inr sample_config) = Inr sample_config"
  using config_roundtrip [of sample_server sample_config]
  by (simp add: sample_from_resource Marshal_def sample_config_valid)

theorem accepted_budgets_fit_witness:
  "134217728 + MaxConcurrent (cfg_Limits sample_config) * (16777216 + 4 * (MaxInputBytes (cfg_Limits sample_config) + MaxOutputBytes (cfg_Limits sample_config))) \<le>
    quantity_value (case mget (Limits (ServerResources (cfg_Spec sample_config))) ''memory'' of Some q \<Rightarrow> q | None \<Rightarrow> 0)"
  by (rule accepted_budgets_fit [OF sample_config_valid])

end
