(* ===== verification/Policy.thy ===== *)
theory Policy
  imports Server_Config
begin

text \<open>
  Server policy and delegated authorization (\<open>internal/server/policy.go\<close>).

  \<open>Check\<close> and \<open>CheckTarget\<close> are pure functions of the configuration. \<open>Authorize\<close> asks the
  Kubernetes API for a SelfSubjectAccessReview with the caller's credentials; the API is a
  parameter (\<open>authzApi\<close>) over an arbitrary state of the outside world, so that answers and
  cancellation may change from call to call. The per-search cache of the context is part of the state:
  \<open>None\<close> is a context without a cache. SHA-256 is the parameter \<open>sha\<close>.
\<close>

record GroupVersionResource =
  gvr_Group :: string
  gvr_Version :: string
  gvr_Resource :: string

record Action =
  act_GVR :: GroupVersionResource
  act_Kind :: string
  act_Subresource :: string
  act_Verb :: string
  act_Action :: string
  act_Namespaced :: bool

abbreviation act_Group :: "Action \<Rightarrow> string" where
  "act_Group a \<equiv> gvr_Group (act_GVR a)"

abbreviation act_Version :: "Action \<Rightarrow> string" where
  "act_Version a \<equiv> gvr_Version (act_GVR a)"

abbreviation act_Resource :: "Action \<Rightarrow> string" where
  "act_Resource a \<equiv> gvr_Resource (act_GVR a)"

definition ResourceName :: "Action \<Rightarrow> string" where
  "ResourceName a = (if act_Subresource a = [] then act_Resource a else act_Resource a @ ''/'' @ act_Subresource a)"

definition Mutating :: "Action \<Rightarrow> bool" where
  "Mutating a = (act_Verb a \<notin> set [''get'', ''list'', ''watch''])"

definition Dangerous :: "Action \<Rightarrow> bool" where
  "Dangerous a = (act_Action a = ''delete'' \<or> act_Action a = ''exec'' \<or> act_Action a = ''attach'' \<or> act_Action a = ''force-apply'')"

definition match :: "string list \<Rightarrow> string \<Rightarrow> bool" where
  "match values wanted = (''*'' \<in> set values \<or> wanted \<in> set values)"

definition matchesAnyRule :: "CapabilityRule list \<Rightarrow> Action \<Rightarrow> bool" where
  "matchesAnyRule rules a =
     list_ex (\<lambda>rule.
       match (rule_APIGroups rule) (act_Group a) \<and> match (rule_Resources rule) (ResourceName a) \<and>
       (match (rule_Verbs rule) (act_Verb a) \<or> match (rule_Verbs rule) (act_Action a))) rules"

definition safe_default_keys :: "string list" where
  "safe_default_keys =
     [''/configmaps'', ''/services'', ''apps/deployments'', ''apps/statefulsets'', ''apps/daemonsets'',
      ''batch/jobs'', ''batch/cronjobs'', ''autoscaling/horizontalpodautoscalers'', ''policy/poddisruptionbudgets'']"

definition safeDefaultResource :: "Action \<Rightarrow> bool" where
  "safeDefaultResource a = (act_Group a @ ''/'' @ act_Resource a \<in> set safe_default_keys)"

definition hard_denied_resources :: "string list" where
  "hard_denied_resources =
     [''secrets'', ''serviceaccounts'', ''roles'', ''rolebindings'', ''clusterroles'', ''clusterrolebindings'',
      ''customresourcedefinitions'', ''mutatingwebhookconfigurations'', ''validatingwebhookconfigurations'',
      ''apiservices'', ''certificatesigningrequests'', ''tokenreviews'', ''subjectaccessreviews'', ''selfsubjectaccessreviews'',
      ''namespaces'', ''nodes'', ''persistentvolumes'', ''storageclasses'', ''priorityclasses'', ''runtimeclasses'']"

definition hard_denied_groups :: "string list" where
  "hard_denied_groups =
     [''rbac.authorization.k8s.io'', ''admissionregistration.k8s.io'', ''apiextensions.k8s.io'',
      ''apiregistration.k8s.io'', ''certificates.k8s.io'', ''authentication.k8s.io'', ''authorization.k8s.io'']"

definition hardDeniedInSafeMode :: "Action \<Rightarrow> bool" where
  "hardDeniedInSafeMode a =
     (if act_Subresource a \<noteq> [] \<and> act_Subresource a \<noteq> ''status'' \<and> act_Subresource a \<noteq> ''scale'' then True
      else if act_Resource a \<in> set hard_denied_resources then True
      else act_Group a \<in> set hard_denied_groups)"

text \<open>The four steps of \<open>Check\<close>, in the order of the code.\<close>

definition check_sensitive :: "Config \<Rightarrow> Action \<Rightarrow> gerr option" where
  "check_sensitive cfg a =
     (if \<not> Mutating a \<and> act_Group a = [] \<and> act_Resource a = ''secrets'' \<and>
         SensitiveReads (cfg_Policy cfg) = SensitiveReadDeny
      then Some (policyError ''sensitive_read_denied'' ''Secret reads are disabled by policy'')
      else None)"

definition check_scope :: "Config \<Rightarrow> Action \<Rightarrow> string \<Rightarrow> gerr option" where
  "check_scope cfg a namespace =
     (if act_Namespaced a then
        (if namespace = [] then Some (policyError ''scope_denied'' ''namespace is required for namespaced resources'')
         else if namespace \<notin> set (Namespaces (cfg_Scope cfg))
           then Some (policyError ''scope_denied'' (''namespace '' @ go_quote namespace @ '' is outside the MCP server scope''))
         else None)
      else if Mutating a then
        (if \<not> AllowClusterScopedWrite (cfg_Scope cfg)
         then Some (policyError ''scope_denied'' ''cluster-scoped writes are disabled'') else None)
      else if \<not> AllowClusterScopedRead (cfg_Scope cfg)
        then Some (policyError ''scope_denied'' ''cluster-scoped reads are disabled'')
      else None)"

definition check_mode :: "Config \<Rightarrow> Action \<Rightarrow> gerr option" where
  "check_mode cfg a =
     (if cfg_Mode cfg = ModeReadOnly \<and> Mutating a
        then Some (policyError ''mode_denied'' ''ReadOnly mode does not permit writes'')
      else if cfg_Mode cfg = ModeSafeWrite then
        (if Dangerous a \<or> act_Verb a \<in> set [''delete'', ''deletecollection'']
           then Some (policyError ''mode_denied'' ''operation requires Dangerous mode'')
         else if hardDeniedInSafeMode a
           then Some (policyError ''mode_denied'' (ResourceName a @ '' is blocked in SafeWrite mode''))
         else None)
      else None)"

definition check_rules :: "Config \<Rightarrow> Action \<Rightarrow> gerr option" where
  "check_rules cfg a =
     (if 0 < length (Rules (cfg_Policy cfg)) then
        (if \<not> matchesAnyRule (Rules (cfg_Policy cfg)) a
         then Some (policyError ''policy_denied'' ''operation is outside policy.rules'') else None)
      else if cfg_Mode cfg = ModeSafeWrite \<and> Mutating a \<and> \<not> safeDefaultResource a
        then Some (policyError ''policy_denied'' ''resource is not in the SafeWrite default allowlist'')
      else None)"

definition Check :: "Config \<Rightarrow> Action \<Rightarrow> string \<Rightarrow> gerr option" where
  "Check cfg a namespace =
     andthen (check_sensitive cfg a) (andthen (check_scope cfg a namespace)
       (andthen (check_mode cfg a) (check_rules cfg a)))"

definition managedClusterBindingName :: "(string \<Rightarrow> string) \<Rightarrow> string \<Rightarrow> string \<Rightarrow> string" where
  "managedClusterBindingName sha namespace name = ''supek8smcp-'' @ hex_encode (take 8 (sha (namespace @ ''/'' @ name)))"

definition managedTarget :: "(string \<Rightarrow> string) \<Rightarrow> Config \<Rightarrow> Action \<Rightarrow> string \<Rightarrow> string \<Rightarrow> bool" where
  "managedTarget sha cfg a namespace name =
     (let key = act_Group a @ ''/'' @ act_Resource a in
      if \<not> act_Namespaced a then
        (if key = ''rbac.authorization.k8s.io/clusterrolebindings''
           then name = managedClusterBindingName sha (cfg_Namespace cfg) (cfg_Name cfg)
         else if key = ''rbac.authorization.k8s.io/clusterroles'' then name = ''supek8smcp-tokenreviewer''
         else False)
      else if act_Group a = ''mcp.supek8smcp.io'' \<and> act_Resource a = ''kubernetesmcpservers'' then True
      else if act_Group a = [] \<and> act_Resource a = ''secrets'' \<and> name = ''supek8smcp-serving-ca'' then True
      else if namespace \<noteq> cfg_Namespace cfg then False
      else if key = ''/configmaps'' then name = cfg_Name cfg @ ''-config'' \<or> name = cfg_Name cfg @ ''-ca''
      else if key = ''/secrets'' then
        (let tlsName = (if SecretName (spec_TLS (cfg_Spec cfg)) = [] then cfg_Name cfg @ ''-tls'' else SecretName (spec_TLS (cfg_Spec cfg)))
         in name = tlsName \<or> name = ''supek8smcp-serving-ca'')
      else if key \<in> set [''/services'', ''/serviceaccounts'', ''apps/deployments'', ''networking.k8s.io/networkpolicies'']
        then name = cfg_Name cfg
      else False)"

definition CheckTarget :: "(string \<Rightarrow> string) \<Rightarrow> Config \<Rightarrow> Action \<Rightarrow> string \<Rightarrow> string \<Rightarrow> gerr option" where
  "CheckTarget sha cfg a namespace name =
     andthen (Check cfg a namespace)
       (if Mutating a \<and> name \<noteq> [] \<and> managedTarget sha cfg a namespace name
        then Some (policyError ''managed_resource_denied''
               ''an MCP server may not mutate its own operator-managed control-plane resources'')
        else None)"

definition prerequisiteGetAction :: "Action \<Rightarrow> Action" where
  "prerequisiteGetAction a = a\<lparr>act_Subresource := [], act_Verb := ''get'', act_Action := ''get''\<rparr>"

section \<open>Delegated authorization\<close>

text \<open>The attributes of an access review, which are also the key of the cache (\<open>authorizationKey\<close>).\<close>

record authorizationKey =
  ak_group :: string
  ak_version :: string
  ak_resource :: string
  ak_subresource :: string
  ak_verb :: string
  ak_namespace :: string
  ak_name :: string

record accessReview =
  rev_Allowed :: bool
  rev_EvaluationError :: string
  rev_Reason :: string

record 'w authzApi =
  api_ctx_err :: "'w \<Rightarrow> gerr option"
  api_ssar :: "authorizationKey \<Rightarrow> ('w, gerr, accessReview) io"

type_synonym authorizationCache = "(authorizationKey \<times> gerr option) list"
type_synonym 'w auth_state = "authorizationCache option \<times> 'w"

definition authorization_key :: "Action \<Rightarrow> string \<Rightarrow> string \<Rightarrow> authorizationKey" where
  "authorization_key a namespace name =
     \<lparr>ak_group = act_Group a, ak_version = act_Version a, ak_resource = act_Resource a,
      ak_subresource = act_Subresource a, ak_verb = act_Verb a, ak_namespace = namespace, ak_name = name\<rparr>"

definition withAuthorizationCache :: "'w \<Rightarrow> 'w auth_state" where
  "withAuthorizationCache w = (Some [], w)"

definition review_error :: "accessReview \<Rightarrow> gerr option" where
  "review_error review =
     (if \<not> rev_Allowed review then
        (if rev_EvaluationError review \<noteq> []
         then Some (StatusError ServiceUnavailable ''Kubernetes authorization evaluation failed'')
         else Some (policyError ''rbac_denied''
                (if rev_Reason review = [] then ''Kubernetes RBAC denied the operation'' else rev_Reason review)))
      else None)"

definition authorize :: "'w authzApi \<Rightarrow> Action \<Rightarrow> string \<Rightarrow> string \<Rightarrow> ('w, gerr, unit) io" where
  "authorize api a namespace name =
     bindE (tryE (api_ssar api (authorization_key a namespace name))) (\<lambda>r.
       case r of
         Inl err \<Rightarrow> raise (Wrapped ''SelfSubjectAccessReview failed'' err)
       | Inr review \<Rightarrow> guardE (review_error review))"

definition Authorize :: "'w authzApi \<Rightarrow> Action \<Rightarrow> string \<Rightarrow> string \<Rightarrow> ('w auth_state, gerr, unit) io" where
  "Authorize api a namespace name = (\<lambda>(cache, w).
     case api_ctx_err api w of
       Some e \<Rightarrow> (Inl e, (cache, w))
     | None \<Rightarrow>
        (let key = authorization_key a namespace name
         in case (case cache of None \<Rightarrow> None | Some m \<Rightarrow> mget m key) of
              Some cached \<Rightarrow> (case cached of Some e \<Rightarrow> (Inl e, (cache, w)) | None \<Rightarrow> (Inr (), (cache, w)))
            | None \<Rightarrow>
               (case authorize api a namespace name w of (r, w') \<Rightarrow>
                  (r, (map_option (\<lambda>m. mput m key (err_of r)) cache, w')))))"

definition CheckAndAuthorize ::
  "(string \<Rightarrow> string) \<Rightarrow> Config \<Rightarrow> 'w authzApi \<Rightarrow> Action \<Rightarrow> string \<Rightarrow> string \<Rightarrow> ('w auth_state, gerr, unit) io" where
  "CheckAndAuthorize sha cfg api a namespace name =
     bindE (guardE (CheckTarget sha cfg a namespace name)) (\<lambda>_. Authorize api a namespace name)"

definition CheckAndAuthorizeOperation ::
  "(string \<Rightarrow> string) \<Rightarrow> Config \<Rightarrow> 'w authzApi \<Rightarrow> Action \<Rightarrow> string \<Rightarrow> string \<Rightarrow> ('w auth_state, gerr, unit) io" where
  "CheckAndAuthorizeOperation sha cfg api a namespace name =
     bindE (guardE (CheckTarget sha cfg a namespace name)) (\<lambda>_.
     bindE (if Mutating a then guardE (CheckTarget sha cfg (prerequisiteGetAction a) namespace name) else ret ()) (\<lambda>_.
     bindE (Authorize api a namespace name) (\<lambda>_.
     if Mutating a then Authorize api (prerequisiteGetAction a) namespace name else ret ())))"

text \<open>Instrumentation: the same API, with an event recorded for every access review, in the order of the calls.\<close>

definition logged ::
  "(authorizationKey \<Rightarrow> (gerr, accessReview) res \<Rightarrow> 'e) \<Rightarrow> 'w authzApi \<Rightarrow> ('w \<times> 'e list) authzApi" where
  "logged ev api =
     \<lparr>api_ctx_err = (\<lambda>(w, log). api_ctx_err api w),
      api_ssar = (\<lambda>key (w, log). case api_ssar api key w of (r, w') \<Rightarrow> (r, (w', log @ [ev key r])))\<rparr>"

section \<open>The abstract policy\<close>

text \<open>What the policy permits, stated without the order of the checks.\<close>

definition scope_permits :: "Config \<Rightarrow> Action \<Rightarrow> string \<Rightarrow> bool" where
  "scope_permits cfg a ns =
     (if act_Namespaced a then ns \<noteq> [] \<and> ns \<in> set (Namespaces (cfg_Scope cfg))
      else if Mutating a then AllowClusterScopedWrite (cfg_Scope cfg)
      else AllowClusterScopedRead (cfg_Scope cfg))"

definition mode_permits :: "AccessMode \<Rightarrow> Action \<Rightarrow> bool" where
  "mode_permits m a =
     ((m = ModeReadOnly \<longrightarrow> \<not> Mutating a) \<and>
      (m = ModeSafeWrite \<longrightarrow> \<not> Dangerous a \<and> act_Verb a \<notin> {''delete'', ''deletecollection''} \<and> \<not> hardDeniedInSafeMode a))"

definition rules_permit :: "Config \<Rightarrow> Action \<Rightarrow> bool" where
  "rules_permit cfg a =
     (if Rules (cfg_Policy cfg) = []
      then cfg_Mode cfg = ModeSafeWrite \<longrightarrow> Mutating a \<longrightarrow> safeDefaultResource a
      else \<exists>rule \<in> set (Rules (cfg_Policy cfg)).
             match (rule_APIGroups rule) (act_Group a) \<and> match (rule_Resources rule) (ResourceName a) \<and>
             (match (rule_Verbs rule) (act_Verb a) \<or> match (rule_Verbs rule) (act_Action a)))"

definition sensitive_permits :: "Config \<Rightarrow> Action \<Rightarrow> bool" where
  "sensitive_permits cfg a =
     (SensitiveReads (cfg_Policy cfg) = SensitiveReadDeny \<longrightarrow>
        \<not> (\<not> Mutating a \<and> act_Group a = [] \<and> act_Resource a = ''secrets''))"

definition permits :: "Config \<Rightarrow> Action \<Rightarrow> string \<Rightarrow> bool" where
  "permits cfg a ns = (scope_permits cfg a ns \<and> mode_permits (cfg_Mode cfg) a \<and> rules_permit cfg a \<and> sensitive_permits cfg a)"

section \<open>Lemmas: policy\<close>

lemma matchesAnyRule_iff:
  "matchesAnyRule rules a \<longleftrightarrow>
     (\<exists>rule \<in> set rules. match (rule_APIGroups rule) (act_Group a) \<and> match (rule_Resources rule) (ResourceName a) \<and>
        (match (rule_Verbs rule) (act_Verb a) \<or> match (rule_Verbs rule) (act_Action a)))"
  by (simp add: matchesAnyRule_def list_ex_iff)

lemma check_steps_None_iff:
  "check_sensitive cfg a = None \<longleftrightarrow> sensitive_permits cfg a"
  "check_scope cfg a ns = None \<longleftrightarrow> scope_permits cfg a ns"
  "check_mode cfg a = None \<longleftrightarrow> mode_permits (cfg_Mode cfg) a"
  "check_rules cfg a = None \<longleftrightarrow> rules_permit cfg a"
  by (simp_all add: check_sensitive_def sensitive_permits_def check_scope_def scope_permits_def
      check_mode_def mode_permits_def check_rules_def rules_permit_def matchesAnyRule_iff conj_left_commute)
    blast

lemma Check_iff_permits: "Check cfg a ns = None \<longleftrightarrow> permits cfg a ns"
  by (auto simp: Check_def check_steps_None_iff permits_def)

lemma CheckTarget_None_iff:
  "CheckTarget sha cfg a ns name = None \<longleftrightarrow>
     permits cfg a ns \<and> \<not> (Mutating a \<and> name \<noteq> [] \<and> managedTarget sha cfg a ns name)"
  by (auto simp: CheckTarget_def Check_iff_permits)

lemma check_steps_reason:
  "check_sensitive cfg a = Some e \<Longrightarrow> as_tool e = Some (''sensitive_read_denied'', tool_Message e)"
  "check_scope cfg a ns = Some e \<Longrightarrow> as_tool e = Some (''scope_denied'', tool_Message e)"
  "check_mode cfg a = Some e \<Longrightarrow> as_tool e = Some (''mode_denied'', tool_Message e)"
  "check_rules cfg a = Some e \<Longrightarrow> as_tool e = Some (''policy_denied'', tool_Message e)"
  by (auto simp: check_sensitive_def check_scope_def check_mode_def check_rules_def split: if_splits)

lemma Check_tool: "Check cfg a ns = Some e \<Longrightarrow> as_tool e \<noteq> None"
  unfolding Check_def andthen_def by (auto split: option.splits dest: check_steps_reason)

lemma CheckTarget_tool: "CheckTarget sha cfg a ns name = Some e \<Longrightarrow> as_tool e \<noteq> None"
  unfolding CheckTarget_def
  by (cases "Check cfg a ns") (auto dest: Check_tool split: if_splits)

lemma not_Mutating_prerequisite [simp]: "\<not> Mutating (prerequisiteGetAction a)"
  by (simp add: Mutating_def prerequisiteGetAction_def)

section \<open>Lemmas: authorization\<close>

lemma authorize_log:
  "authorize (logged ev api) a ns name (w, log) = (r, (w', log')) \<Longrightarrow>
     \<exists>q. log' = log @ [ev (authorization_key a ns name) q] \<and>
         (r = Inr () \<longleftrightarrow> (\<exists>review. q = Inr review \<and> rev_Allowed review))"
  unfolding authorize_def
  by (auto simp: go_simps logged_def review_error_def split: prod.splits sum.splits if_splits option.splits)

lemma Authorize_uncached:
  "Authorize api a ns name (None, w) =
     (case api_ctx_err api w of Some e \<Rightarrow> (Inl e, (None, w))
      | None \<Rightarrow> (case authorize api a ns name w of (r, w') \<Rightarrow> (r, (None, w'))))"
  by (simp add: Authorize_def Let_def cong: option.case_cong)

lemma Authorize_uncached_log:
  assumes "Authorize (logged ev api) a ns name (None, (w, log)) = (r, (c, (w', log')))"
  shows "c = None \<and> (\<exists>qs. log' = log @ map (\<lambda>q. ev (authorization_key a ns name) q) qs \<and>
     (r = Inr () \<longrightarrow> (\<exists>review. qs = [Inr review] \<and> rev_Allowed review)))"
proof (cases "api_ctx_err (logged ev api) (w, log)")
  case (Some e)
  with assms have "c = None" "r = Inl e" "log' = log" by (auto simp: Authorize_uncached)
  then show ?thesis by (intro conjI exI [of _ "[]"]) auto
next
  case None
  obtain r' v l where au: "authorize (logged ev api) a ns name (w, log) = (r', (v, l))"
    by (metis prod.exhaust)
  with None assms have "c = None" "r = r'" "w' = v" "log' = l" by (auto simp: Authorize_uncached)
  obtain q where "l = log @ [ev (authorization_key a ns name) q]" "r' = Inr () \<longleftrightarrow> (\<exists>review. q = Inr review \<and> rev_Allowed review)"
    using authorize_log [OF au] by blast
  with \<open>c = None\<close> \<open>r = r'\<close> \<open>log' = l\<close> show ?thesis by (intro conjI exI [of _ "[q]"]) auto
qed

text \<open>The cache only ever holds answers that were given: every review is asked at most once.\<close>

definition cache_covers :: "authorizationCache \<Rightarrow> (authorizationKey \<times> 'r) list \<Rightarrow> bool" where
  "cache_covers m log = (set (map fst log) = fst ` set m \<and> distinct (map fst log))"

lemma Authorize_cached_covers:
  assumes "Authorize (logged Pair api) a ns name (Some m, (w, log)) = (r, (c, (w', log')))"
    and "cache_covers m log"
  shows "\<exists>m'. c = Some m' \<and> cache_covers m' log'"
proof (cases "api_ctx_err (logged Pair api) (w, log)")
  case (Some e)
  with assms show ?thesis by (auto simp: Authorize_def)
next
  case None
  let ?k = "authorization_key a ns name"
  show ?thesis
  proof (cases "mget m ?k")
    case (Some cached)
    with None assms show ?thesis by (cases cached) (auto simp: Authorize_def Let_def)
  next
    case None': None
    obtain r' v l where au: "authorize (logged Pair api) a ns name (w, log) = (r', (v, l))"
      by (metis prod.exhaust)
    obtain q where l: "l = log @ [(?k, q)]" using authorize_log [OF au] by blast
    have "c = Some (mput m ?k (err_of r'))" "log' = l"
      using assms(1) None None' au by (auto simp: Authorize_def Let_def)
    moreover have "?k \<notin> fst ` set log"
      using None' assms(2) by (auto simp: cache_covers_def mget_None_iff)
    ultimately show ?thesis
      using assms(2) l by (auto simp: cache_covers_def fst_set_mput)
  qed
qed

text \<open>A search: a sequence of authorizations with one context.\<close>

fun authorize_all :: "'w authzApi \<Rightarrow> (Action \<times> string \<times> string) list \<Rightarrow> 'w auth_state \<Rightarrow> (gerr, unit) res list \<times> 'w auth_state" where
  "authorize_all api [] s = ([], s)"
| "authorize_all api ((a, ns, name) # qs) s =
     (case Authorize api a ns name s of (r, t) \<Rightarrow> (case authorize_all api qs t of (rs, u) \<Rightarrow> (r # rs, u)))"

lemma authorize_all_covers:
  assumes "authorize_all (logged Pair api) qs (Some m, (w, log)) = (rs, (c, (w', log')))" and "cache_covers m log"
  shows "\<exists>m'. c = Some m' \<and> cache_covers m' log'"
  using assms
proof (induction qs arbitrary: m w log rs)
  case (Cons q qs)
  obtain a ns name where q: "q = (a, ns, name)" by (cases q)
  obtain r c1 w1 log1 where st: "Authorize (logged Pair api) a ns name (Some m, (w, log)) = (r, (c1, (w1, log1)))"
    by (metis prod.exhaust)
  then obtain m1 where "c1 = Some m1" "cache_covers m1 log1"
    using Authorize_cached_covers [OF st Cons.prems(2)] by blast
  with Cons.IH [of m1 w1 log1] Cons.prems(1) st q show ?case by (auto split: prod.splits)
qed auto

section \<open>Properties\<close>

lemma first_of_five:
  assumes "andthen s (andthen c (andthen m (andthen r t))) = Some e"
    and "s = Some e \<Longrightarrow> f e = Some a1" "c = Some e \<Longrightarrow> f e = Some a2" "m = Some e \<Longrightarrow> f e = Some a3"
    and "r = Some e \<Longrightarrow> f e = Some a4" "t = Some e \<Longrightarrow> f e = Some a5"
  shows "f e = Some (if s \<noteq> None then a1 else if c \<noteq> None then a2 else if m \<noteq> None then a3 else if r \<noteq> None then a4 else a5)"
proof (cases s)
  case s: None
  show ?thesis
  proof (cases c)
    case c: None
    with assms s show ?thesis by (cases m; cases r) auto
  qed (use assms s in auto)
qed (use assms in auto)


lemma CheckAndAuthorizeOperation_log:
  assumes "CheckAndAuthorizeOperation sha cfg (logged ev api) a ns name (None, (w, log)) = (Inr (), (c, (w', log')))"
  shows "CheckTarget sha cfg a ns name = None \<and>
    (Mutating a \<longrightarrow> CheckTarget sha cfg (prerequisiteGetAction a) ns name = None) \<and>
    (\<exists>review. rev_Allowed review \<and>
       (if Mutating a
        then \<exists>review'. rev_Allowed review' \<and>
               log' = log @ [ev (authorization_key a ns name) (Inr review), ev (authorization_key (prerequisiteGetAction a) ns name) (Inr review')]
        else log' = log @ [ev (authorization_key a ns name) (Inr review)]))"
proof -
  have ct: "CheckTarget sha cfg a ns name = None" "Mutating a \<Longrightarrow> CheckTarget sha cfg (prerequisiteGetAction a) ns name = None"
    using assms by (auto simp: CheckAndAuthorizeOperation_def go_simps split: option.splits if_splits)
  obtain r c1 w1 log1 where a1: "Authorize (logged ev api) a ns name (None, (w, log)) = (r, (c1, (w1, log1)))"
    by (metis prod.exhaust)
  have r: "r = Inr ()"
    using assms ct a1 by (cases r) (auto simp: CheckAndAuthorizeOperation_def go_simps split: if_splits)
  from Authorize_uncached_log [OF a1] r obtain review where
    rev: "c1 = None" "log1 = log @ [ev (authorization_key a ns name) (Inr review)]" "rev_Allowed review" by auto
  show ?thesis
  proof (cases "Mutating a")
    case False
    then show ?thesis using assms ct a1 r rev by (auto simp: CheckAndAuthorizeOperation_def go_simps)
  next
    case True
    then have "Authorize (logged ev api) (prerequisiteGetAction a) ns name (None, (w1, log1)) = (Inr (), (c, (w', log')))"
      using assms ct a1 r rev(1) by (auto simp: CheckAndAuthorizeOperation_def go_simps)
    from Authorize_uncached_log [OF this] obtain review' where
      "log' = log1 @ [ev (authorization_key (prerequisiteGetAction a) ns name) (Inr review')]" "rev_Allowed review'" by auto
    then show ?thesis using True ct rev by auto
  qed
qed

text \<open>
  An operation is authorized by fresh reviews. Without a search cache, \<open>CheckAndAuthorizeOperation\<close> succeeds only if the
  policy accepts the action and, for a write, the read it needs first, and if the Kubernetes API allowed, during this very call,
  the action for this target and then that read, with the caller's credentials.
\<close>

theorem operation_freshly_authorized:
  assumes "CheckAndAuthorizeOperation sha cfg (logged ev api) a ns name (None, (w, log)) = (Inr (), (c, (w', log')))"
  shows "CheckTarget sha cfg a ns name = None \<and>
    (Mutating a \<longrightarrow> CheckTarget sha cfg (prerequisiteGetAction a) ns name = None) \<and>
    (\<exists>review. rev_Allowed review \<and>
       (if Mutating a
        then \<exists>review'. rev_Allowed review' \<and>
               log' = log @ [ev (authorization_key a ns name) (Inr review), ev (authorization_key (prerequisiteGetAction a) ns name) (Inr review')]
        else log' = log @ [ev (authorization_key a ns name) (Inr review)]))"
  using assms by (rule CheckAndAuthorizeOperation_log)

text \<open>
  A search asks once. However many actions a search authorizes with its cache, the Kubernetes API receives every access
  review at most once.
\<close>

theorem search_reviews_distinct:
  assumes "authorize_all (logged Pair api) qs (withAuthorizationCache (w, [])) = (rs, (c, (w', log)))"
  shows "distinct (map fst log)"
  using authorize_all_covers [of api qs "[]" w "[]" rs c w' log] assms
  by (auto simp: withAuthorizationCache_def cache_covers_def)


section \<open>Witnesses\<close>

definition sample_action :: Action where
  "sample_action =
     \<lparr>act_GVR = \<lparr>gvr_Group = ''apps'', gvr_Version = ''v1'', gvr_Resource = ''deployments''\<rparr>, act_Kind = ''Deployment'',
      act_Subresource = [], act_Verb = ''patch'', act_Action = ''patch'', act_Namespaced = True\<rparr>"

definition allow_all :: "unit authzApi" where
  "allow_all =
     \<lparr>api_ctx_err = (\<lambda>w. None), api_ssar = (\<lambda>key w. (Inr \<lparr>rev_Allowed = True, rev_EvaluationError = [], rev_Reason = []\<rparr>, w))\<rparr>"

lemma sample_permitted:
  "CheckTarget sha sample_config sample_action ''demo'' ''web'' = None"
  "CheckTarget sha sample_config (prerequisiteGetAction sample_action) ''demo'' ''web'' = None"
  by (simp_all add: CheckTarget_None_iff permits_def scope_permits_def mode_permits_def rules_permit_def sensitive_permits_def
      sample_config_def sample_spec_def sample_action_def default_spec_def or_default_def Mutating_def Dangerous_def
      hardDeniedInSafeMode_def hard_denied_resources_def hard_denied_groups_def safeDefaultResource_def safe_default_keys_def
      prerequisiteGetAction_def managedTarget_def)

lemma sample_Mutating: "Mutating sample_action"
  by (simp add: Mutating_def sample_action_def)

lemma sample_authorized:
  "CheckAndAuthorizeOperation sha sample_config (logged Pair allow_all) sample_action ''demo'' ''web'' (None, ((), [])) =
   (Inr (), (None, ((), [(authorization_key sample_action ''demo'' ''web'', Inr \<lparr>rev_Allowed = True, rev_EvaluationError = [], rev_Reason = []\<rparr>),
      (authorization_key (prerequisiteGetAction sample_action) ''demo'' ''web'', Inr \<lparr>rev_Allowed = True, rev_EvaluationError = [], rev_Reason = []\<rparr>)])))"
  by (simp add: CheckAndAuthorizeOperation_def io_simps sample_permitted sample_Mutating Authorize_uncached authorize_def
      logged_def allow_all_def review_error_def)

theorem operation_freshly_authorized_witness:
  "CheckTarget (\<lambda>t. t) sample_config sample_action ''demo'' ''web'' = None \<and>
   CheckTarget (\<lambda>t. t) sample_config (prerequisiteGetAction sample_action) ''demo'' ''web'' = None"
  using operation_freshly_authorized [OF sample_authorized] sample_Mutating by blast

theorem search_reviews_distinct_witness:
  "let out = authorize_all (logged Pair allow_all) [(sample_action, ''demo'', []), (sample_action, ''demo'', [])]
        (withAuthorizationCache ((), []))
   in distinct (map fst (snd (snd (snd out))))"
  unfolding Let_def by (rule search_reviews_distinct, (subst prod.collapse)+, rule refl)


end
