(* ===== verification/Ledger.thy ===== *)
theory Ledger
  imports Prelude
begin

text \<open>
  The contract that the server's bounded stores share: a map of entries and a counter that is meant to be the
  sum of the weights of the entries, changed by adding one entry and by removing one entry. The plan store
  (\<open>planstore.go\<close>) and the schema cache (\<open>schema_cache.go\<close>) count bytes; the identity rate limiter
  (\<open>ratelimit.go\<close>) only counts entries. All three sweep expired entries with the same loop.
\<close>

definition balanced ::
  "('s \<Rightarrow> ('k \<times> 'v) list) \<Rightarrow> ('s \<Rightarrow> int) \<Rightarrow> ('v \<Rightarrow> int) \<Rightarrow> 's \<Rightarrow> bool" where
  "balanced entries used weight s =
     (mwf (entries s) \<and> used s = msum weight (entries s) \<and> (\<forall>(k, v) \<in> set (entries s). 0 \<le> weight v))"

text \<open>\<open>for k, v := range entries { if expired(v) { remove(k, v) } }\<close>\<close>

definition sweep :: "('s \<Rightarrow> 'k \<Rightarrow> 'v \<Rightarrow> 's) \<Rightarrow> ('v \<Rightarrow> bool) \<Rightarrow> ('k \<times> 'v) list \<Rightarrow> 's \<Rightarrow> 's" where
  "sweep remove expired es s = fold (\<lambda>(k, v) t. if expired v then remove t k v else t) es s"

locale byte_ledger =
  fixes entries :: "'s \<Rightarrow> ('k \<times> 'v) list"
    and used :: "'s \<Rightarrow> int"
    and weight :: "'v \<Rightarrow> int"
    and add :: "'s \<Rightarrow> 'k \<Rightarrow> 'v \<Rightarrow> 's"
    and remove :: "'s \<Rightarrow> 'k \<Rightarrow> 'v \<Rightarrow> 's"
  assumes entries_add: "entries (add s k v) = mput (entries s) k v"
    and used_add: "used (add s k v) = used s + weight v"
    and entries_remove: "entries (remove s k v) = mdel (entries s) k"
    and used_remove: "used (remove s k v) = used s - weight v"
begin

lemma balanced_used_nonneg: "balanced entries used weight s \<Longrightarrow> 0 \<le> used s"
  by (auto simp: balanced_def intro!: msum_nonneg)

lemma balanced_member_le:
  assumes "balanced entries used weight s" and "mget (entries s) k = Some v"
  shows "0 \<le> weight v \<and> weight v \<le> used s"
proof -
  have m: "(k, v) \<in> set (entries s)" using assms(2) by (rule mget_in_set)
  moreover have "\<And>k v. (k, v) \<in> set (entries s) \<Longrightarrow> 0 \<le> weight v" using assms(1) by (auto simp: balanced_def)
  ultimately show ?thesis using assms(1) msum_member_le [OF m] by (simp add: balanced_def)
qed

lemma balanced_add:
  assumes "balanced entries used weight s" and "mget (entries s) k = None" and "0 \<le> weight v"
  shows "balanced entries used weight (add s k v)"
  using assms set_mput_subset [of "entries s" k v]
  by (auto simp: balanced_def entries_add used_add msum_mput_new)

lemma balanced_remove:
  assumes "balanced entries used weight s" and "mget (entries s) k = Some v"
  shows "balanced entries used weight (remove s k v)"
  using assms set_mdel_subset [of "entries s" k]
  by (auto simp: balanced_def entries_remove used_remove msum_mdel)

lemma sweep_Cons:
  "sweep remove expired ((k, v) # es) s = sweep remove expired es (if expired v then remove s k v else s)"
  by (simp add: sweep_def)

lemma sweep_entries_aux:
  "distinct (map fst es) \<Longrightarrow> entries (sweep remove expired es s) =
     filter (\<lambda>(k, v). \<not> (\<exists>u. (k, u) \<in> set es \<and> expired u)) (entries s)"
proof (induction es arbitrary: s)
  case Nil
  then show ?case by (simp add: sweep_def)
next
  case (Cons e es)
  obtain k v where e: "e = (k, v)" by (cases e)
  have k: "\<And>u. (k, u) \<notin> set es" using Cons.prems e by force
  have IH: "entries (sweep remove expired es t) = filter (\<lambda>(k, v). \<not> (\<exists>u. (k, u) \<in> set es \<and> expired u)) (entries t)" for t
    using Cons by simp
  show ?case
    unfolding e sweep_Cons IH using k
    by (auto simp: entries_remove mdel_def AList.delete_eq intro!: filter_cong)
qed

lemma sweep_entries:
  assumes "mwf (entries s)"
  shows "entries (sweep remove expired (entries s) s) = filter (\<lambda>(k, v). \<not> expired v) (entries s)"
proof -
  have "entries (sweep remove expired (entries s) s) =
      filter (\<lambda>(k, v). \<not> (\<exists>u. (k, u) \<in> set (entries s) \<and> expired u)) (entries s)"
    using assms by (intro sweep_entries_aux) (simp add: mwf_def)
  also have "\<dots> = filter (\<lambda>(k, v). \<not> expired v) (entries s)"
  proof (rule filter_cong [OF refl])
    fix x assume x: "x \<in> set (entries s)"
    obtain k v where kv: "x = (k, v)" by (cases x)
    have "u = v" if "(k, u) \<in> set (entries s)" for u
      using assms x kv that by (metis in_set_mget option.inject)
    then have "(\<exists>u. (k, u) \<in> set (entries s) \<and> expired u) = expired v" using x kv by blast
    with kv show "(case x of (k, v) \<Rightarrow> \<not> (\<exists>u. (k, u) \<in> set (entries s) \<and> expired u)) = (case x of (k, v) \<Rightarrow> \<not> expired v)"
      by auto
  qed
  finally show ?thesis .
qed

text \<open>An invariant that every legal removal keeps is kept by the sweep.\<close>

lemma sweep_invariant:
  assumes inv: "I s" and es: "distinct (map fst es)"
    and pres: "\<And>k v. (k, v) \<in> set es \<Longrightarrow> mget (entries s) k = Some v"
    and wf: "\<And>t. I t \<Longrightarrow> mwf (entries t)"
    and rem: "\<And>t k v. I t \<Longrightarrow> mget (entries t) k = Some v \<Longrightarrow> expired v \<Longrightarrow> I (remove t k v)"
  shows "I (sweep remove expired es s)"
  using inv es pres
proof (induction es arbitrary: s)
  case Nil
  then show ?case by (simp add: sweep_def)
next
  case (Cons e es)
  obtain k v where e: "e = (k, v)" by (cases e)
  let ?t = "if expired v then remove s k v else s"
  have "mget (entries s) k = Some v" using Cons.prems(3) e by simp
  then have "I ?t" using Cons.prems(1) rem by auto
  moreover have "mget (entries ?t) j = Some u" if "(j, u) \<in> set es" for j u
  proof -
    have "mget (entries s) j = Some u" using that Cons.prems(3) by simp
    moreover have "j \<noteq> k" using that Cons.prems(2) e by (auto simp: image_iff)
    ultimately show ?thesis by (simp add: entries_remove)
  qed
  moreover have "distinct (map fst es)" using Cons.prems(2) by simp
  ultimately have "I (sweep remove expired es ?t)" by (intro Cons.IH)
  with e show ?case by (simp only: sweep_Cons)
qed

lemma sweep_all_invariant:
  assumes "I s" and "mwf (entries s)" and "\<And>t. I t \<Longrightarrow> mwf (entries t)"
    and "\<And>t k v. I t \<Longrightarrow> mget (entries t) k = Some v \<Longrightarrow> expired v \<Longrightarrow> I (remove t k v)"
  shows "I (sweep remove expired (entries s) s)"
proof (rule sweep_invariant [where I = I])
  show "I s" by (rule assms(1))
  show "distinct (map fst (entries s))" using assms(2) by (simp add: mwf_def)
  show "\<And>k v. (k, v) \<in> set (entries s) \<Longrightarrow> mget (entries s) k = Some v" using assms(2) by (rule in_set_mget)
qed (use assms(3,4) in blast)+

lemma balanced_sweep:
  assumes "balanced entries used weight s"
  shows "balanced entries used weight (sweep remove expired (entries s) s)"
  by (rule sweep_all_invariant [where I = "balanced entries used weight", OF assms])
    (use assms balanced_remove in \<open>auto simp: balanced_def\<close>)

end

end
