(* ===== verification/Plan_Store.thy ===== *)
theory Plan_Store
  imports Policy Ledger
begin

text \<open>
  The store of pending write plans (\<open>internal/server/planstore.go\<close>): one-time plans bound to an
  identity, with a time to live, a confirmation code and byte budgets.

  The clock and the random source are arguments: \<open>now\<close> is what \<open>time.Now()\<close> returns at
  that point and \<open>rid\<close>, \<open>rcode\<close> are what \<open>rand.Read\<close> and \<open>rand.Int\<close> deliver. SHA-256
  is the parameter \<open>sha\<close>. Sizes of data held in memory are far below \<open>2^63\<close>, so byte
  counters are unbounded integers here. The mutex makes each operation one step.
\<close>

abbreviation planTTL :: duration where
  "planTTL \<equiv> 2 * minute"

definition planStoreMaxBytes :: int where
  "planStoreMaxBytes = 67108864"

definition planStoreSubjectMaxBytes :: int where
  "planStoreSubjectMaxBytes = 16777216"

definition planStoreSizeSafetyFactor :: int where
  "planStoreSizeSafetyFactor = 4"

definition confirmationMaxAttempts :: int where
  "confirmationMaxAttempts = 5"

record Operation =
  op_Action :: Action
  op_Namespace :: string
  op_Name :: string
  op_Object :: "gmap option"
  op_Patch :: gval
  op_PatchType :: string
  op_Replicas :: "int option"
  op_Command :: "string list"
  op_Container :: string
  op_Stdin :: string
  op_TimeoutSeconds :: int
  op_GracePeriod :: "int option"
  op_Force :: bool
  op_TargetUID :: string
  op_ResourceVersion :: string
  op_ExpectedAbsent :: bool
  op_Generation :: int

record storedPlan =
  sp_Operation :: Operation
  sp_SubjectKey :: string
  sp_ExpiresAt :: instant
  sp_Size :: int
  sp_ConfirmationHash :: string
  sp_ConfirmationFailures :: int

record PlanStore =
  plans :: "(string \<times> storedPlan) list"
  capacity :: int
  usedBytes :: int
  subjectBytes :: "(string \<times> int) list"
  maxBytes :: int
  maxSubjectBytes :: int

text \<open>The JSON text of an operation, field by field with its \<open>omitempty\<close> tags.\<close>

definition opt_field :: "bool \<Rightarrow> string \<Rightarrow> string \<Rightarrow> (string \<times> string) list" where
  "opt_field present k t = (if present then [(k, t)] else [])"

definition marshal_action :: "Action \<Rightarrow> string" where
  "marshal_action a =
     json_object ([(''kind'', json_string (act_Kind a))]
       @ opt_field (act_Subresource a \<noteq> []) ''subresource'' (json_string (act_Subresource a))
       @ [(''verb'', json_string (act_Verb a)), (''action'', json_string (act_Action a)),
          (''namespaced'', show_bool (act_Namespaced a))])"

definition marshal_operation :: "Operation \<Rightarrow> string" where
  "marshal_operation x =
     json_object ([(''action'', marshal_action (op_Action x))]
       @ opt_field (op_Namespace x \<noteq> []) ''namespace'' (json_string (op_Namespace x))
       @ opt_field (op_Name x \<noteq> []) ''name'' (json_string (op_Name x))
       @ (case op_Object x of None \<Rightarrow> [] | Some m \<Rightarrow> opt_field (m \<noteq> []) ''object'' (json_marshal (GObj m)))
       @ opt_field (op_Patch x \<noteq> GNil) ''patch'' (json_marshal (op_Patch x))
       @ opt_field (op_PatchType x \<noteq> []) ''patchType'' (json_string (op_PatchType x))
       @ (case op_Replicas x of None \<Rightarrow> [] | Some n \<Rightarrow> [(''replicas'', itoa n)])
       @ opt_field (op_Command x \<noteq> []) ''command'' (json_array (map json_string (op_Command x)))
       @ opt_field (op_Container x \<noteq> []) ''container'' (json_string (op_Container x))
       @ opt_field (op_Stdin x \<noteq> []) ''stdin'' (json_string (op_Stdin x))
       @ opt_field (op_TimeoutSeconds x \<noteq> 0) ''timeoutSeconds'' (itoa (op_TimeoutSeconds x))
       @ (case op_GracePeriod x of None \<Rightarrow> [] | Some n \<Rightarrow> [(''gracePeriodSeconds'', itoa n)])
       @ opt_field (op_Force x) ''force'' ''true''
       @ opt_field (op_TargetUID x \<noteq> []) ''targetUID'' (json_string (op_TargetUID x))
       @ opt_field (op_ResourceVersion x \<noteq> []) ''resourceVersion'' (json_string (op_ResourceVersion x))
       @ opt_field (op_ExpectedAbsent x) ''expectedAbsent'' ''true''
       @ [(''generation'', itoa (op_Generation x))])"

definition plan_size :: "Operation \<Rightarrow> int" where
  "plan_size x = int (length (marshal_operation x)) * planStoreSizeSafetyFactor"

definition NewPlanStore :: "int \<Rightarrow> PlanStore" where
  "NewPlanStore cap =
     \<lparr>plans = [], capacity = cap, usedBytes = 0, subjectBytes = [],
      maxBytes = planStoreMaxBytes, maxSubjectBytes = planStoreSubjectMaxBytes\<rparr>"

definition randomPlanID :: "(gerr, string) res \<Rightarrow> (gerr, string) res" where
  "randomPlanID random =
     (case random of Inl e \<Rightarrow> Inl (Wrapped ''generate plan ID'' e) | Inr bs \<Rightarrow> Inr (b64_encode URLAlphabet bs))"

definition randomConfirmationCode :: "(gerr, int) res \<Rightarrow> (gerr, string) res" where
  "randomConfirmationCode random =
     (case random of Inl e \<Rightarrow> Inl (Wrapped ''generate confirmation code'' e) | Inr n \<Rightarrow> Inr (itoa (n + 100000)))"

definition validConfirmationCode :: "string \<Rightarrow> bool" where
  "validConfirmationCode code = (length code = 6 \<and> list_all is_digit code)"

definition confirmationHash :: "(string \<Rightarrow> string) \<Rightarrow> string \<Rightarrow> string \<Rightarrow> string" where
  "confirmationHash sha planID code = sha (planID @ [char_of (0::nat)] @ code)"

definition subject_used :: "PlanStore \<Rightarrow> string \<Rightarrow> int" where
  "subject_used s subject = (case mget (subjectBytes s) subject of Some n \<Rightarrow> n | None \<Rightarrow> 0)"

definition delete_plan :: "PlanStore \<Rightarrow> string \<Rightarrow> storedPlan \<Rightarrow> PlanStore" where
  "delete_plan s planID p =
     (let remaining = subject_used s (sp_SubjectKey p) - sp_Size p
      in s\<lparr>plans := mdel (plans s) planID,
           usedBytes := usedBytes s - sp_Size p,
           subjectBytes := (if remaining \<le> 0 then mdel (subjectBytes s) (sp_SubjectKey p)
                            else mput (subjectBytes s) (sp_SubjectKey p) remaining)\<rparr>)"

definition prune :: "instant \<Rightarrow> PlanStore \<Rightarrow> PlanStore" where
  "prune now s = sweep delete_plan (\<lambda>p. time_after now (sp_ExpiresAt p)) (plans s) s"

text \<open>The last statements of \<open>Create\<close>: store the plan and charge its bytes.\<close>

definition put_plan :: "PlanStore \<Rightarrow> string \<Rightarrow> storedPlan \<Rightarrow> PlanStore" where
  "put_plan s planID p =
     s\<lparr>plans := mput (plans s) planID p,
       usedBytes := usedBytes s + sp_Size p,
       subjectBytes := mput (subjectBytes s) (sp_SubjectKey p) (subject_used s (sp_SubjectKey p) + sp_Size p)\<rparr>"

definition Create ::
  "(string \<Rightarrow> string) \<Rightarrow> (gerr, string) res \<Rightarrow> (gerr, int) res \<Rightarrow> instant \<Rightarrow> instant \<Rightarrow>
   string \<Rightarrow> Operation \<Rightarrow> (PlanStore, gerr, string \<times> string \<times> instant) io" where
  "Create sha rid rcode now now' subject operation =
     (let size = plan_size operation in
      bindE (liftR (randomPlanID rid)) (\<lambda>planID.
      bindE (liftR (randomConfirmationCode rcode)) (\<lambda>confirmationCode s.
        let s' = prune now s; subjectLimit = max (maxSubjectBytes s') size; expires = now' + planTTL in
        if capacity s' \<le> int (length (plans s')) then (Inl (policyError ''plan_capacity'' ''too many pending plans''), s')
        else if maxBytes s' < size \<or> maxBytes s' - size < usedBytes s'
          then (Inl (policyError ''plan_capacity'' ''pending plans exceed the server memory budget''), s')
        else if subjectLimit - size < subject_used s' subject
          then (Inl (policyError ''plan_capacity'' ''this Kubernetes identity has too many pending plan bytes''), s')
        else (Inr (planID, confirmationCode, expires),
              put_plan s' planID
                \<lparr>sp_Operation = operation, sp_SubjectKey = subject, sp_ExpiresAt = expires, sp_Size = size,
                 sp_ConfirmationHash = confirmationHash sha planID confirmationCode, sp_ConfirmationFailures = 0\<rparr>))))"

definition Consume ::
  "(string \<Rightarrow> string) \<Rightarrow> instant \<Rightarrow> string \<Rightarrow> string \<Rightarrow> string \<Rightarrow> (PlanStore, gerr, Operation) io" where
  "Consume sha now planID subject confirmationCode = (\<lambda>s.
     if confirmationCode = [] then (Inl (policyError ''confirmation_required'' ''a human confirmation code is required''), s)
     else if \<not> validConfirmationCode confirmationCode
       then (Inl (policyError ''invalid_confirmation'' ''confirmation code must be exactly six digits''), s)
     else (case mget (plans s) planID of
       None \<Rightarrow> (Inl (policyError ''invalid_plan'' ''plan does not exist or has already been used''), s)
     | Some p \<Rightarrow>
        if time_after now (sp_ExpiresAt p) then (Inl (policyError ''expired_plan'' ''plan has expired''), delete_plan s planID p)
        else if sp_SubjectKey p \<noteq> subject
          then (Inl (policyError ''identity_mismatch'' ''plan belongs to a different Kubernetes identity''), s)
        else if sp_ConfirmationHash p \<noteq> confirmationHash sha planID confirmationCode then
          (let p' = p\<lparr>sp_ConfirmationFailures := sp_ConfirmationFailures p + 1\<rparr>
           in if confirmationMaxAttempts \<le> sp_ConfirmationFailures p'
              then (Inl (policyError ''confirmation_locked'' ''too many incorrect confirmation attempts; create a new plan''),
                    delete_plan s planID p')
              else (Inl (policyError ''invalid_confirmation'' ''confirmation code is incorrect''),
                    s\<lparr>plans := mput (plans s) planID p'\<rparr>))
        else (Inr (sp_Operation p), delete_plan s planID p)))"

definition isRemote :: "PlanStore \<Rightarrow> string \<Rightarrow> string \<Rightarrow> bool" where
  "isRemote s planID subject =
     (case mget (plans s) planID of None \<Rightarrow> False
      | Some p \<Rightarrow> sp_SubjectKey p = subject \<and>
          (act_Action (op_Action (sp_Operation p)) = ''exec'' \<or> act_Action (op_Action (sp_Operation p)) = ''attach''))"

section \<open>The store as a state machine\<close>

datatype planEvent =
    CreateEv "(gerr, string) res" "(gerr, int) res" instant instant string Operation
  | ConsumeEv instant string string string

datatype planResult = Created "(gerr, string \<times> string \<times> instant) res" | Consumed string "(gerr, Operation) res"

definition plan_step :: "(string \<Rightarrow> string) \<Rightarrow> planEvent \<Rightarrow> PlanStore \<Rightarrow> planResult \<times> PlanStore" where
  "plan_step sha e s =
     (case e of
        CreateEv rid rcode now now' subject operation \<Rightarrow>
          (case Create sha rid rcode now now' subject operation s of (r, t) \<Rightarrow> (Created r, t))
      | ConsumeEv now planID subject code \<Rightarrow>
          (case Consume sha now planID subject code s of (r, t) \<Rightarrow> (Consumed planID r, t)))"

fun plan_run :: "(string \<Rightarrow> string) \<Rightarrow> planEvent list \<Rightarrow> PlanStore \<Rightarrow> planResult list \<times> PlanStore" where
  "plan_run sha [] s = ([], s)"
| "plan_run sha (e # es) s =
     (case plan_step sha e s of (r, t) \<Rightarrow> (case plan_run sha es t of (rs, u) \<Rightarrow> (r # rs, u)))"

text \<open>The random plan ID of an event does not name a stored plan (192 random bits).\<close>

definition fresh_event :: "PlanStore \<Rightarrow> planEvent \<Rightarrow> bool" where
  "fresh_event s e =
     (case e of
        CreateEv rid rcode now now' subject operation \<Rightarrow>
          (case randomPlanID rid of Inl _ \<Rightarrow> True | Inr planID \<Rightarrow> mget (plans s) planID = None)
      | ConsumeEv now planID subject code \<Rightarrow> True)"

inductive reachable_store :: "(string \<Rightarrow> string) \<Rightarrow> int \<Rightarrow> PlanStore \<Rightarrow> bool" for sha cap where
  start: "reachable_store sha cap (NewPlanStore cap)"
| step: "reachable_store sha cap s \<Longrightarrow> fresh_event s e \<Longrightarrow> plan_step sha e s = (r, t) \<Longrightarrow> reachable_store sha cap t"

definition subject_total :: "PlanStore \<Rightarrow> string \<Rightarrow> int" where
  "subject_total s subject = msum (\<lambda>p. if sp_SubjectKey p = subject then sp_Size p else 0) (plans s)"

text \<open>The budgets and the two byte counters agree with the stored plans.\<close>

definition plan_inv :: "PlanStore \<Rightarrow> bool" where
  "plan_inv s =
     (balanced plans usedBytes sp_Size s \<and> mwf (subjectBytes s) \<and>
      (\<forall>subject. subject_used s subject = subject_total s subject) \<and>
      (\<forall>(k, n) \<in> set (subjectBytes s). 0 < n) \<and>
      (\<forall>(k, p) \<in> set (plans s). 0 < sp_Size p \<and> 0 \<le> sp_ConfirmationFailures p \<and>
          sp_ConfirmationFailures p < confirmationMaxAttempts) \<and>
      usedBytes s \<le> maxBytes s \<and> int (length (plans s)) \<le> capacity s)"

section \<open>Interpretation of the ledger contract\<close>

interpretation pl: byte_ledger plans usedBytes sp_Size put_plan delete_plan
  by unfold_locales (simp_all add: put_plan_def delete_plan_def Let_def)

section \<open>Lemmas\<close>

lemma delete_plan_frame [simp]:
  "capacity (delete_plan s k p) = capacity s" "maxBytes (delete_plan s k p) = maxBytes s"
  "maxSubjectBytes (delete_plan s k p) = maxSubjectBytes s"
  "plans (delete_plan s k p) = mdel (plans s) k"
  by (simp_all add: delete_plan_def Let_def)

lemma put_plan_frame [simp]:
  "capacity (put_plan s k p) = capacity s" "maxBytes (put_plan s k p) = maxBytes s"
  "maxSubjectBytes (put_plan s k p) = maxSubjectBytes s"
  "plans (put_plan s k p) = mput (plans s) k p"
  by (simp_all add: put_plan_def)

lemma marshal_operation_nonempty: "marshal_operation x \<noteq> []"
  by (simp add: marshal_operation_def json_object_def)

lemma plan_size_pos: "0 < plan_size x"
  using marshal_operation_nonempty [of x] by (simp add: plan_size_def planStoreSizeSafetyFactor_def)

lemma plan_invD:
  assumes "plan_inv s"
  shows "balanced plans usedBytes sp_Size s" "mwf (plans s)" "mwf (subjectBytes s)"
    "subject_used s subject = subject_total s subject"
    "(k, n) \<in> set (subjectBytes s) \<Longrightarrow> 0 < n"
    "mget (plans s) j = Some p \<Longrightarrow> 0 < sp_Size p"
    "mget (plans s) j = Some p \<Longrightarrow> 0 \<le> sp_ConfirmationFailures p \<and> sp_ConfirmationFailures p < confirmationMaxAttempts"
    "usedBytes s \<le> maxBytes s" "int (length (plans s)) \<le> capacity s"
  using assms by (auto simp: plan_inv_def balanced_def dest: mget_in_set)

lemma subject_total_nonneg: "plan_inv s \<Longrightarrow> 0 \<le> subject_total s subject"
  unfolding subject_total_def by (rule msum_nonneg) (auto simp: plan_inv_def)

lemma subject_total_delete:
  assumes "mwf (plans s)" "mget (plans s) k = Some p"
  shows "subject_total (delete_plan s k p) subject =
    subject_total s subject - (if sp_SubjectKey p = subject then sp_Size p else 0)"
  using assms by (simp add: subject_total_def msum_mdel)

lemma subject_total_put:
  assumes "mget (plans s) k = None"
  shows "subject_total (put_plan s k p) subject =
    subject_total s subject + (if sp_SubjectKey p = subject then sp_Size p else 0)"
  using assms by (simp add: subject_total_def msum_mput_new)

lemma subject_used_delete:
  assumes "plan_inv s" "mget (plans s) k = Some p"
  shows "subject_used (delete_plan s k p) subject = subject_total (delete_plan s k p) subject"
proof -
  have t: "subject_total (delete_plan s k p) subject =
      subject_total s subject - (if sp_SubjectKey p = subject then sp_Size p else 0)"
    using assms by (intro subject_total_delete plan_invD)
  have nn: "0 \<le> subject_total (delete_plan s k p) (sp_SubjectKey p)"
    unfolding subject_total_def
    by (rule msum_nonneg) (use assms(1) set_mdel_subset [of "plans s" k] in \<open>fastforce simp: plan_inv_def\<close>)
  have u: "subject_used s (sp_SubjectKey p) = subject_total s (sp_SubjectKey p)" for p
    using assms(1) by (rule plan_invD)
  show ?thesis
  proof (cases "sp_SubjectKey p = subject")
    case True
    have "subject_total s subject - sp_Size p = subject_total (delete_plan s k p) subject"
      using t True by simp
    with nn True u [of p] show ?thesis
      by (auto simp: subject_used_def delete_plan_def Let_def)
  next
    case False
    have "subject_used (delete_plan s k p) subject = subject_used s subject"
      using False by (simp add: subject_used_def delete_plan_def Let_def)
    with False t plan_invD(4) [OF assms(1)] show ?thesis by simp
  qed
qed

lemma plan_inv_delete [inv_intros]:
  assumes "plan_inv s" "mget (plans s) k = Some p"
  shows "plan_inv (delete_plan s k p)"
proof -
  have "balanced plans usedBytes sp_Size (delete_plan s k p)"
    using assms by (intro pl.balanced_remove plan_invD)
  moreover have "mwf (subjectBytes (delete_plan s k p))"
    using plan_invD(3) [OF assms(1)] by (simp add: delete_plan_def Let_def)
  moreover have "\<forall>(j, n) \<in> set (subjectBytes (delete_plan s k p)). 0 < n"
  proof (cases "subject_used s (sp_SubjectKey p) - sp_Size p \<le> 0")
    case True
    then have "set (subjectBytes (delete_plan s k p)) \<subseteq> set (subjectBytes s)"
      by (simp add: delete_plan_def set_mdel_subset)
    with plan_invD(5) [OF assms(1)] show ?thesis by blast
  next
    case False
    then have "set (subjectBytes (delete_plan s k p)) \<subseteq>
        insert (sp_SubjectKey p, subject_used s (sp_SubjectKey p) - sp_Size p) (set (subjectBytes s))"
      by (simp add: delete_plan_def Let_def set_mput_subset)
    with False plan_invD(5) [OF assms(1)] show ?thesis by fastforce
  qed
  moreover have "\<forall>(j, q) \<in> set (plans (delete_plan s k p)). 0 < sp_Size q \<and> 0 \<le> sp_ConfirmationFailures q \<and>
      sp_ConfirmationFailures q < confirmationMaxAttempts"
    using assms(1) set_mdel_subset [of "plans s" k] by (auto simp: plan_inv_def)
  moreover have "usedBytes (delete_plan s k p) \<le> maxBytes (delete_plan s k p)"
    using plan_invD(6,8) [OF assms(1)] assms(2) by (force simp: pl.used_remove)
  moreover have "int (length (plans (delete_plan s k p))) \<le> capacity (delete_plan s k p)"
    using plan_invD(9) [OF assms(1)] length_mdel_le [of "plans s" k] by simp
  ultimately show ?thesis
    using subject_used_delete [OF assms] by (simp add: plan_inv_def)
qed

lemma plan_inv_prune [inv_intros]: "plan_inv s \<Longrightarrow> plan_inv (prune now s)"
  unfolding prune_def
  by (rule pl.sweep_all_invariant [where I = plan_inv]) (auto intro: plan_inv_delete plan_invD)

lemma prune_plans: "plan_inv s \<Longrightarrow> plans (prune now s) = filter (\<lambda>(k, p). \<not> time_after now (sp_ExpiresAt p)) (plans s)"
  unfolding prune_def by (rule pl.sweep_entries) (rule plan_invD)

lemma delete_plan_failures [simp]: "delete_plan s k (p\<lparr>sp_ConfirmationFailures := n\<rparr>) = delete_plan s k p"
  by (simp add: delete_plan_def)

lemma subject_total_bump:
  assumes "mwf (plans s)" "mget (plans s) k = Some p"
  shows "subject_total (s\<lparr>plans := mput (plans s) k (p\<lparr>sp_ConfirmationFailures := n\<rparr>)\<rparr>) subject = subject_total s subject"
  using assms by (simp add: subject_total_def msum_mput_old)

lemma plan_inv_bump [inv_intros]:
  assumes "plan_inv s" "mget (plans s) k = Some p" "0 \<le> n" "n < confirmationMaxAttempts"
  shows "plan_inv (s\<lparr>plans := mput (plans s) k (p\<lparr>sp_ConfirmationFailures := n\<rparr>)\<rparr>)"
proof -
  let ?p = "p\<lparr>sp_ConfirmationFailures := n\<rparr>"
  let ?t = "s\<lparr>plans := mput (plans s) k ?p\<rparr>"
  have sub: "set (mput (plans s) k ?p) \<subseteq> insert (k, ?p) (set (plans s))" by (rule set_mput_subset)
  have "balanced plans usedBytes sp_Size ?t"
    using plan_invD(1,2,6) [OF assms(1)] assms(2) sub
    by (fastforce simp: balanced_def msum_mput_old)
  moreover have "\<forall>(j, q) \<in> set (plans ?t). 0 < sp_Size q \<and> 0 \<le> sp_ConfirmationFailures q \<and>
      sp_ConfirmationFailures q < confirmationMaxAttempts"
    using assms sub plan_invD(6) [OF assms(1,2)] by (fastforce simp: plan_inv_def)
  moreover have "subject_used ?t subject = subject_total ?t subject" for subject
    using plan_invD(2,4) [OF assms(1)] assms(2) by (simp add: subject_total_bump subject_used_def)
  moreover have "length (plans ?t) = length (plans s)"
    using assms(2) by (simp add: length_mput)
  ultimately show ?thesis
    using assms(1) by (simp add: plan_inv_def)
qed

lemma subject_used_put:
  "subject_used (put_plan s k p) subject =
    (if sp_SubjectKey p = subject then subject_used s subject + sp_Size p else subject_used s subject)"
  by (simp add: subject_used_def put_plan_def)

lemma plan_inv_put [inv_intros]:
  assumes "plan_inv s" "mget (plans s) k = None" "0 < sp_Size p" "sp_ConfirmationFailures p = 0"
    and "usedBytes s \<le> maxBytes s - sp_Size p" "int (length (plans s)) < capacity s"
  shows "plan_inv (put_plan s k p)"
proof -
  let ?t = "put_plan s k p"
  have "balanced plans usedBytes sp_Size ?t"
    using assms by (intro pl.balanced_add plan_invD) auto
  moreover have "mwf (subjectBytes ?t)"
    using plan_invD(3) [OF assms(1)] by (simp add: put_plan_def)
  moreover have "subject_used ?t subject = subject_total ?t subject" for subject
    using plan_invD(4) [OF assms(1)] by (simp add: subject_used_put subject_total_put [OF assms(2)])
  moreover have "\<forall>(j, n) \<in> set (subjectBytes ?t). 0 < n"
  proof -
    have "0 \<le> subject_used s (sp_SubjectKey p)"
      using plan_invD(4) [OF assms(1)] subject_total_nonneg [OF assms(1)] by simp
    moreover have "set (subjectBytes ?t) \<subseteq>
        insert (sp_SubjectKey p, subject_used s (sp_SubjectKey p) + sp_Size p) (set (subjectBytes s))"
      by (simp add: put_plan_def set_mput_subset)
    ultimately show ?thesis using plan_invD(5) [OF assms(1)] assms(3) by fastforce
  qed
  moreover have "\<forall>(j, q) \<in> set (plans ?t). 0 < sp_Size q \<and> 0 \<le> sp_ConfirmationFailures q \<and>
      sp_ConfirmationFailures q < confirmationMaxAttempts"
    using assms(1,3,4) set_mput_subset [of "plans s" k p]
    by (fastforce simp: plan_inv_def confirmationMaxAttempts_def)
  moreover have "usedBytes ?t \<le> maxBytes ?t" using assms(5) by (simp add: pl.used_add)
  moreover have "int (length (plans ?t)) \<le> capacity ?t" using assms(2,6) by (simp add: length_mput)
  ultimately show ?thesis by (simp add: plan_inv_def)
qed

section \<open>Lemmas: the two operations\<close>

lemma Consume_Inr_iff:
  "Consume sha now planID subject code s = (Inr op, t) \<longleftrightarrow>
     validConfirmationCode code \<and>
     (\<exists>p. mget (plans s) planID = Some p \<and> \<not> time_after now (sp_ExpiresAt p) \<and> sp_SubjectKey p = subject \<and>
          sp_ConfirmationHash p = confirmationHash sha planID code \<and>
          op = sp_Operation p \<and> t = delete_plan s planID p)"
  by (auto simp: Consume_def Let_def validConfirmationCode_def split: option.splits if_splits)

lemma Consume_store:
  assumes "Consume sha now planID subject code s = (r, t)"
  shows "t = s \<or> (\<exists>p. mget (plans s) planID = Some p \<and>
     (t = delete_plan s planID p \<or>
      (t = s\<lparr>plans := mput (plans s) planID (p\<lparr>sp_ConfirmationFailures := sp_ConfirmationFailures p + 1\<rparr>)\<rparr> \<and>
       sp_ConfirmationFailures p + 1 < confirmationMaxAttempts)))"
  using assms by (auto simp: Consume_def Let_def split: option.splits if_splits)

lemma Consume_inv [inv_intros]:
  assumes "Consume sha now planID subject code s = (r, t)" "plan_inv s"
  shows "plan_inv t"
proof -
  consider "t = s"
    | p where "mget (plans s) planID = Some p" "t = delete_plan s planID p"
    | p where "mget (plans s) planID = Some p" "sp_ConfirmationFailures p + 1 < confirmationMaxAttempts"
        "t = s\<lparr>plans := mput (plans s) planID (p\<lparr>sp_ConfirmationFailures := sp_ConfirmationFailures p + 1\<rparr>)\<rparr>"
    using Consume_store [OF assms(1)] by blast
  then show ?thesis
  proof cases
    case 3
    then show ?thesis using plan_inv_bump [OF assms(2) 3(1)] plan_invD(7) [OF assms(2) 3(1)] by simp
  qed (use assms(2) plan_inv_delete in auto)
qed

lemma Create_cases:
  assumes "Create sha rid rcode now now' subject operation s = (r, t)"
  obtains (random) e where "r = Inl e" "t = s"
  | (refused) m where "r = Inl (ToolError ''plan_capacity'' m)" "t = prune now s"
  | (stored) planID code n where
      "randomPlanID rid = Inr planID" "rcode = Inr n" "code = itoa (n + 100000)"
      "r = Inr (planID, code, now' + planTTL)"
      "int (length (plans (prune now s))) < capacity (prune now s)"
      "usedBytes (prune now s) \<le> maxBytes (prune now s) - plan_size operation"
      "subject_used (prune now s) subject \<le> max (maxSubjectBytes (prune now s)) (plan_size operation) - plan_size operation"
      "t = put_plan (prune now s) planID
         \<lparr>sp_Operation = operation, sp_SubjectKey = subject, sp_ExpiresAt = now' + planTTL, sp_Size = plan_size operation,
          sp_ConfirmationHash = confirmationHash sha planID code, sp_ConfirmationFailures = 0\<rparr>"
proof (cases "randomPlanID rid")
  case (Inl e)
  with assms show ?thesis by (intro random [of e]) (simp_all add: Create_def Let_def io_simps)
next
  case rid: (Inr planID)
  show ?thesis
  proof (cases rcode)
    case (Inl e)
    with assms rid show ?thesis
      by (intro random [of "Wrapped ''generate confirmation code'' e"]) (simp_all add: Create_def Let_def io_simps randomConfirmationCode_def)
  next
    case rc: (Inr n)
    define u where "u = prune now s"
    note e = assms [unfolded Create_def Let_def io_simps rid, simplified, unfolded io_simps randomConfirmationCode_def rc,
        simplified, folded u_def]
    show ?thesis
    proof (cases "capacity u \<le> int (length (plans u)) \<or> maxBytes u < plan_size operation \<or>
        maxBytes u - plan_size operation < usedBytes u \<or>
        max (maxSubjectBytes u) (plan_size operation) - plan_size operation < subject_used u subject")
      case True
      with e show ?thesis by (auto simp: u_def split: if_splits intro: refused)
    next
      case False
      with e rid rc show ?thesis by (intro stored [of planID n "itoa (n + 100000)"]) (auto simp: u_def)
    qed
  qed
qed

lemma mget_prune: "mwf (plans s) \<Longrightarrow> mget (plans (prune now s)) k = (case mget (plans s) k of None \<Rightarrow> None | Some p \<Rightarrow> if time_after now (sp_ExpiresAt p) then None else Some p)"
proof -
  assume wf: "mwf (plans s)"
  have f: "plans (prune now s) = filter (\<lambda>(k, p). \<not> time_after now (sp_ExpiresAt p)) (plans s)"
    unfolding prune_def by (rule pl.sweep_entries [OF wf])
  show ?thesis
    unfolding f using mget_filter [OF wf, of "\<lambda>p. \<not> time_after now (sp_ExpiresAt p)" k] by (simp split: option.splits)
qed

lemma Create_inv [inv_intros]:
  assumes "Create sha rid rcode now now' subject operation s = (r, t)" "plan_inv s"
    and "\<And>planID. randomPlanID rid = Inr planID \<Longrightarrow> mget (plans s) planID = None"
  shows "plan_inv t"
  using assms(1)
proof (cases rule: Create_cases)
  case (stored planID code n)
  have "mget (plans (prune now s)) planID = None"
    using assms(2,3) stored(1) by (simp add: mget_prune plan_invD)
  then show ?thesis
    using stored(5,6) plan_inv_prune [OF assms(2)] plan_size_pos unfolding stored(8)
    by (intro plan_inv_put) auto
qed (use assms(2) plan_inv_prune in auto)

lemma plan_inv_New: "0 \<le> cap \<Longrightarrow> plan_inv (NewPlanStore cap)"
  by (simp add: plan_inv_def NewPlanStore_def balanced_def subject_used_def subject_total_def planStoreMaxBytes_def)

lemma plan_step_inv:
  assumes "plan_step sha e s = (r, t)" "fresh_event s e" "plan_inv s"
  shows "plan_inv t"
  using assms
  by (auto simp: plan_step_def fresh_event_def split: planEvent.splits prod.splits sum.splits
      intro: Consume_inv Create_inv)

lemma reachable_plan_inv: "reachable_store sha cap s \<Longrightarrow> 0 \<le> cap \<Longrightarrow> plan_inv s"
  by (induction rule: reachable_store.induct) (auto intro: plan_inv_New plan_step_inv)

section \<open>Counting the results of a run\<close>

lemma prune_mwf [inv_intros]: "mwf (plans s) \<Longrightarrow> mwf (plans (prune now s))"
  unfolding prune_def
  by (rule pl.sweep_all_invariant [where I = "\<lambda>s. mwf (plans s)"]) simp_all

lemma mget_delete_plan: "mget (plans (delete_plan s k p)) j = (if j = k then None else mget (plans s) j)"
  by simp

text \<open>What is left of the attempts of a plan, and how a step changes the plan under one ID.\<close>

definition attempts_left :: "string \<Rightarrow> PlanStore \<Rightarrow> int" where
  "attempts_left planID s =
     (case mget (plans s) planID of None \<Rightarrow> 0 | Some p \<Rightarrow> confirmationMaxAttempts - sp_ConfirmationFailures p)"

definition attempts_inv :: "PlanStore \<Rightarrow> bool" where
  "attempts_inv s =
     (mwf (plans s) \<and> (\<forall>k p. mget (plans s) k = Some p \<longrightarrow> sp_ConfirmationFailures p < confirmationMaxAttempts))"

text \<open>A result of \<open>Consume\<close> that tells whether the code was right.\<close>

definition guess_result :: "(gerr, Operation) res \<Rightarrow> bool" where
  "guess_result r =
     (case r of Inr _ \<Rightarrow> True
      | Inl e \<Rightarrow> e = policyError ''invalid_confirmation'' ''confirmation code is incorrect'' \<or>
          e = policyError ''confirmation_locked'' ''too many incorrect confirmation attempts; create a new plan'')"

definition success_of :: "string \<Rightarrow> planResult \<Rightarrow> bool" where
  "success_of planID r = (case r of Consumed k (Inr _) \<Rightarrow> k = planID | _ \<Rightarrow> False)"

definition guess_of :: "string \<Rightarrow> planResult \<Rightarrow> bool" where
  "guess_of planID r = (case r of Consumed k q \<Rightarrow> k = planID \<and> guess_result q | _ \<Rightarrow> False)"

definition creation_of :: "string \<Rightarrow> planResult \<Rightarrow> bool" where
  "creation_of planID r = (case r of Created (Inr (k, code, expires)) \<Rightarrow> k = planID | _ \<Rightarrow> False)"

lemma count_Cons: "int (length (filter P (x # xs))) = (if P x then 1 else 0) + int (length (filter P xs))"
  by simp

text \<open>
  A quantity that every step pays for: if a step with a counted result lowers it and only creations raise it,
  the number of counted results of a run is bounded by the number of creations.
\<close>

lemma run_potential:
  assumes step: "\<And>e s r t. I s \<Longrightarrow> plan_step sha e s = (r, t) \<Longrightarrow>
      I t \<and> (if P r then 1 else 0) + phi t \<le> phi s + (if creation_of planID r then c else (0::int))"
    and nonneg: "\<And>s. I s \<Longrightarrow> 0 \<le> phi s"
  shows "I s \<Longrightarrow> plan_run sha es s = (rs, t) \<Longrightarrow>
    int (length (filter P rs)) \<le> phi s + c * int (length (filter (creation_of planID) rs))"
proof (induction es arbitrary: s rs)
  case Nil
  then show ?case using nonneg by simp
next
  case (Cons e es)
  obtain r u where r: "plan_step sha e s = (r, u)" by (cases "plan_step sha e s")
  obtain rs' v where rs': "plan_run sha es u = (rs', v)" by (cases "plan_run sha es u")
  have rs: "rs = r # rs'" "v = t" using Cons.prems(2) r rs' by auto
  have st: "I u" "(if P r then 1 else 0) + phi u \<le> phi s + (if creation_of planID r then c else (0::int))"
    using step [OF Cons.prems(1) r] by auto
  have "int (length (filter P rs')) \<le> phi u + c * int (length (filter (creation_of planID) rs'))"
    using Cons.IH st(1) rs' rs(2) by blast
  then show ?case using st(2) unfolding rs(1) count_Cons by (auto simp: algebra_simps)
qed

lemma attempts_left_nonneg: "attempts_inv s \<Longrightarrow> 0 \<le> attempts_left planID s"
  by (force simp: attempts_inv_def attempts_left_def split: option.splits)

lemma Create_attempts:
  assumes "Create sha rid rcode now now' subject operation s = (r, t)" "attempts_inv s"
  shows "attempts_inv t \<and> attempts_left planID t \<le>
    attempts_left planID s + (if creation_of planID (Created r) then confirmationMaxAttempts else 0)"
proof -
  have p: "attempts_inv (prune now s)" "attempts_left planID (prune now s) \<le> attempts_left planID s"
    using assms(2) prune_mwf [of s now]
    by (auto simp: attempts_inv_def attempts_left_def mget_prune less_imp_le split: option.splits if_splits)
  from assms(1) show ?thesis
  proof (cases rule: Create_cases)
    case (stored k code n)
    have nn: "0 \<le> attempts_left planID s"
      using assms(2) by (rule attempts_left_nonneg)
    have "attempts_inv t"
      using p(1) by (auto simp: stored(8) attempts_inv_def confirmationMaxAttempts_def)
    moreover have "attempts_left planID t \<le> (if k = planID then confirmationMaxAttempts else attempts_left planID (prune now s))"
      by (simp add: stored(8) attempts_left_def)
    ultimately show ?thesis
      using p(2) nn stored(4) by (auto simp: creation_of_def)
  qed (use p assms(2) in \<open>auto simp: creation_of_def\<close>)
qed

lemma Consume_attempts:
  assumes "Consume sha now k subject code s = (r, t)" "attempts_inv s"
  shows "attempts_inv t \<and> (if guess_of planID (Consumed k r) then 1 else 0) + attempts_left planID t \<le> attempts_left planID s"
proof (cases "mget (plans s) k")
  case None
  then show ?thesis
    using assms by (auto simp: Consume_def guess_of_def guess_result_def split: if_splits)
next
  case (Some p)
  have f: "sp_ConfirmationFailures p < confirmationMaxAttempts"
    using assms(2) Some by (simp add: attempts_inv_def)
  consider "t = s" "\<not> guess_result r"
    | "t = delete_plan s k p"
    | "t = s\<lparr>plans := mput (plans s) k (p\<lparr>sp_ConfirmationFailures := sp_ConfirmationFailures p + 1\<rparr>)\<rparr>"
      "sp_ConfirmationFailures p + 1 < confirmationMaxAttempts"
    using assms(1) Some by (auto simp: Consume_def guess_result_def Let_def split: if_splits)
  then show ?thesis
  proof cases
    case 1
    then show ?thesis using assms(2) by (simp add: guess_of_def)
  next
    case 2
    have "attempts_inv t" using 2 assms(2) by (auto simp: attempts_inv_def split: if_splits)
    moreover have "(if guess_of planID (Consumed k r) then 1 else 0) + attempts_left planID t \<le> attempts_left planID s"
      using 2 Some f by (auto simp: attempts_left_def guess_of_def)
    ultimately show ?thesis ..
  next
    case 3
    have "attempts_inv t" using 3 assms(2) by (auto simp: attempts_inv_def split: if_splits)
    moreover have "(if guess_of planID (Consumed k r) then 1 else 0) + attempts_left planID t \<le> attempts_left planID s"
      using 3 Some f by (auto simp: attempts_left_def guess_of_def)
    ultimately show ?thesis ..
  qed
qed

lemma plan_step_attempts:
  assumes "attempts_inv s" "plan_step sha e s = (r, t)"
  shows "attempts_inv t \<and> (if guess_of planID r then 1 else 0) + attempts_left planID t \<le>
    attempts_left planID s + (if creation_of planID r then confirmationMaxAttempts else 0)"
proof (cases e)
  case (CreateEv rid rcode now now' subject operation)
  then obtain q where "Create sha rid rcode now now' subject operation s = (q, t)" "r = Created q"
    using assms(2) by (auto simp: plan_step_def split: prod.splits)
  then show ?thesis using Create_attempts [OF _ assms(1)] by (auto simp: guess_of_def)
next
  case (ConsumeEv now k subject code)
  then obtain q where "Consume sha now k subject code s = (q, t)" "r = Consumed k q"
    using assms(2) by (auto simp: plan_step_def split: prod.splits)
  then show ?thesis using Consume_attempts [OF _ assms(1)] by (auto simp: creation_of_def)
qed

lemma attempts_inv_New: "attempts_inv (NewPlanStore cap)" "attempts_left planID (NewPlanStore cap) = 0"
  by (simp_all add: attempts_inv_def attempts_left_def NewPlanStore_def)

text \<open>
  Property C10 (guesses are bounded). In every history of a store, whoever sends the requests and whatever codes they carry,
  the number of times that a request for a plan ID learns whether its confirmation code was right is at most five times
  the number of plans that were issued under that ID.
\<close>

theorem confirmation_guesses_bounded:
  "int (length (filter (guess_of planID) (fst (plan_run sha es (NewPlanStore cap))))) \<le>
   confirmationMaxAttempts * int (length (filter (creation_of planID) (fst (plan_run sha es (NewPlanStore cap)))))"
proof -
  obtain rs t where run: "plan_run sha es (NewPlanStore cap) = (rs, t)" by (cases "plan_run sha es (NewPlanStore cap)")
  have "int (length (filter (guess_of planID) rs)) \<le>
      attempts_left planID (NewPlanStore cap) + confirmationMaxAttempts * int (length (filter (creation_of planID) rs))"
    by (rule run_potential [where I = attempts_inv and phi = "attempts_left planID", OF _ _ attempts_inv_New(1) run])
      (rule plan_step_attempts attempts_left_nonneg, assumption+)+
  then show ?thesis using run by (simp add: attempts_inv_New)
qed

definition is_stored :: "string \<Rightarrow> PlanStore \<Rightarrow> int" where
  "is_stored planID s = (if mget (plans s) planID = None then 0 else 1)"

lemma plan_step_stored:
  assumes "mwf (plans s)" "plan_step sha e s = (r, t)"
  shows "mwf (plans t) \<and> (if success_of planID r then 1 else 0) + is_stored planID t \<le>
    is_stored planID s + (if creation_of planID r then 1 else 0)"
proof (cases e)
  case (CreateEv rid rcode now now' subject operation)
  then obtain q where q: "Create sha rid rcode now now' subject operation s = (q, t)" "r = Created q"
    using assms(2) by (auto simp: plan_step_def split: prod.splits)
  have p: "mwf (plans (prune now s))" "is_stored planID (prune now s) \<le> is_stored planID s"
    using prune_mwf assms(1) by (auto simp: is_stored_def mget_prune split: option.splits)
  from q(1) show ?thesis
  proof (cases rule: Create_cases)
    case (stored k code n)
    then show ?thesis using p q(2) by (auto simp: success_of_def creation_of_def is_stored_def split: if_splits)
  qed (use p assms(1) q(2) in \<open>auto simp: success_of_def\<close>)
next
  case (ConsumeEv now k subject code)
  then obtain q where q: "Consume sha now k subject code s = (q, t)" "r = Consumed k q"
    using assms(2) by (auto simp: plan_step_def split: prod.splits)
  have "mwf (plans t) \<and> is_stored planID t \<le> is_stored planID s"
    using Consume_store [OF q(1)] assms(1) by (auto simp: is_stored_def split: if_splits)
  moreover have "is_stored planID t = 0 \<and> is_stored planID s = 1" if "success_of planID r"
    using that q by (auto simp: success_of_def is_stored_def Consume_Inr_iff split: sum.splits)
  ultimately show ?thesis by (auto simp: creation_of_def q(2))
qed

text \<open>
  Property C9 (plans are one-shot). In every history of a store, a plan ID is consumed successfully at most as often as
  it was issued: a plan is executed once at most.
\<close>

theorem plan_consumed_once:
  "length (filter (success_of planID) (fst (plan_run sha es (NewPlanStore cap)))) \<le>
   length (filter (creation_of planID) (fst (plan_run sha es (NewPlanStore cap))))"
proof -
  obtain rs t where run: "plan_run sha es (NewPlanStore cap) = (rs, t)" by (cases "plan_run sha es (NewPlanStore cap)")
  have init: "mwf (plans (NewPlanStore cap))" "is_stored planID (NewPlanStore cap) = 0"
    by (simp_all add: NewPlanStore_def is_stored_def)
  have "int (length (filter (success_of planID) rs)) \<le>
      is_stored planID (NewPlanStore cap) + 1 * int (length (filter (creation_of planID) rs))"
    by (rule run_potential [where I = "\<lambda>s. mwf (plans s)" and phi = "is_stored planID", OF _ _ init(1) run])
      (use plan_step_stored in \<open>auto simp: is_stored_def\<close>)
  then show ?thesis using run init(2) by simp
qed

section \<open>Budgets\<close>

text \<open>The number of plans of one identity, and the quota: within the byte limit, or a single large plan.\<close>

definition subject_count :: "PlanStore \<Rightarrow> string \<Rightarrow> int" where
  "subject_count s subject = msum (\<lambda>p. if sp_SubjectKey p = subject then 1 else 0) (plans s)"

definition within_quota :: "PlanStore \<Rightarrow> bool" where
  "within_quota s =
     (\<forall>subject. subject_total s subject \<le> maxSubjectBytes s \<or> subject_count s subject \<le> 1)"

definition limits_fixed :: "int \<Rightarrow> PlanStore \<Rightarrow> bool" where
  "limits_fixed cap s = (capacity s = cap \<and> maxBytes s = planStoreMaxBytes \<and> maxSubjectBytes s = planStoreSubjectMaxBytes)"

abbreviation store_inv :: "int \<Rightarrow> PlanStore \<Rightarrow> bool" where
  "store_inv cap s \<equiv> plan_inv s \<and> within_quota s \<and> limits_fixed cap s"

lemma subject_count_total: "plan_inv s \<Longrightarrow> subject_total s subject \<le> 0 \<Longrightarrow> subject_count s subject \<le> 0"
proof -
  assume inv: "plan_inv s" and z: "subject_total s subject \<le> 0"
  have "msum (\<lambda>p. if sp_SubjectKey p = subject then 1 else 0) (plans s) \<le>
      msum (\<lambda>p. if sp_SubjectKey p = subject then sp_Size p else 0) (plans s)"
    using inv by (intro msum_mono) (auto simp: plan_inv_def)
  with z show ?thesis by (simp add: subject_count_def subject_total_def)
qed

lemma store_inv_delete:
  assumes "store_inv cap s" "mget (plans s) k = Some p"
  shows "store_inv cap (delete_plan s k p)"
proof -
  have wf: "mwf (plans s)" "0 < sp_Size p" using assms plan_invD(2,6) by blast+
  have "subject_count (delete_plan s k p) subject \<le> subject_count s subject" for subject
    using wf assms(2) by (simp add: subject_count_def msum_mdel)
  moreover have "subject_total (delete_plan s k p) subject \<le> subject_total s subject" for subject
    using wf assms(2) by (simp add: subject_total_delete)
  ultimately have "within_quota (delete_plan s k p)"
    using assms(1) unfolding within_quota_def by (metis delete_plan_frame(3) order_trans)
  then show ?thesis using assms plan_inv_delete by (simp add: limits_fixed_def)
qed

lemma store_inv_prune: "store_inv cap s \<Longrightarrow> store_inv cap (prune now s)"
  unfolding prune_def
  by (rule pl.sweep_all_invariant [where I = "store_inv cap"])
    (assumption | rule store_inv_delete plan_invD(2) | erule conjunct1)+

lemma store_inv_bump:
  assumes "store_inv cap s" "mget (plans s) k = Some p" "0 \<le> n" "n < confirmationMaxAttempts"
  shows "store_inv cap (s\<lparr>plans := mput (plans s) k (p\<lparr>sp_ConfirmationFailures := n\<rparr>)\<rparr>)"
proof -
  have wf: "mwf (plans s)" using assms plan_invD(2) by blast
  have "subject_count (s\<lparr>plans := mput (plans s) k (p\<lparr>sp_ConfirmationFailures := n\<rparr>)\<rparr>) subject = subject_count s subject" for subject
    using wf assms(2) by (simp add: subject_count_def msum_mput_old)
  then have "within_quota (s\<lparr>plans := mput (plans s) k (p\<lparr>sp_ConfirmationFailures := n\<rparr>)\<rparr>)"
    using assms wf by (simp add: within_quota_def subject_total_bump)
  then show ?thesis
    using assms plan_inv_bump [of s k p n] by (simp add: limits_fixed_def)
qed

lemma store_inv_put:
  assumes inv: "store_inv cap s" and new: "mget (plans s) k = None" and size: "0 < sp_Size p"
    and f: "sp_ConfirmationFailures p = 0" and room: "usedBytes s \<le> maxBytes s - sp_Size p" "int (length (plans s)) < capacity s"
    and quota: "subject_used s (sp_SubjectKey p) \<le> max (maxSubjectBytes s) (sp_Size p) - sp_Size p"
  shows "store_inv cap (put_plan s k p)"
proof -
  have c: "subject_count (put_plan s k p) subject = subject_count s subject + (if sp_SubjectKey p = subject then 1 else 0)" for subject
    using new by (simp add: subject_count_def msum_mput_new)
  have used: "subject_total s (sp_SubjectKey p) \<le> max (maxSubjectBytes s) (sp_Size p) - sp_Size p"
    using quota inv plan_invD(4) by simp
  have "subject_total (put_plan s k p) subject \<le> maxSubjectBytes s \<or> subject_count (put_plan s k p) subject \<le> 1" for subject
  proof (cases "sp_SubjectKey p = subject")
    case True
    then show ?thesis
      using used subject_count_total [of s subject] inv by (auto simp: c subject_total_put [OF new] max_def split: if_splits)
  next
    case False
    then show ?thesis using inv by (simp add: c subject_total_put [OF new] within_quota_def)
  qed
  then have "within_quota (put_plan s k p)" by (simp add: within_quota_def)
  then show ?thesis
    using inv plan_inv_put [of s k p] new size f room by (simp add: limits_fixed_def)
qed

lemma Create_store_inv:
  assumes "Create sha rid rcode now now' subject operation s = (r, t)" "store_inv cap s"
    and "\<And>planID. randomPlanID rid = Inr planID \<Longrightarrow> mget (plans s) planID = None"
  shows "store_inv cap t"
  using assms(1)
proof (cases rule: Create_cases)
  case (stored planID code n)
  have p: "store_inv cap (prune now s)" using store_inv_prune [OF assms(2)] .
  have "mget (plans (prune now s)) planID = None"
    using assms(2,3) stored(1) by (simp add: mget_prune plan_invD)
  then show ?thesis
    using stored(5-7) p plan_size_pos unfolding stored(8) by (intro store_inv_put) auto
qed (use assms(2) store_inv_prune in auto)

lemma Consume_store_inv:
  assumes "Consume sha now planID subject code s = (r, t)" "store_inv cap s"
  shows "store_inv cap t"
proof -
  consider "t = s"
    | p where "mget (plans s) planID = Some p" "t = delete_plan s planID p"
    | p where "mget (plans s) planID = Some p" "sp_ConfirmationFailures p + 1 < confirmationMaxAttempts"
        "t = s\<lparr>plans := mput (plans s) planID (p\<lparr>sp_ConfirmationFailures := sp_ConfirmationFailures p + 1\<rparr>)\<rparr>"
    using Consume_store [OF assms(1)] by blast
  then show ?thesis
  proof cases
    case 2
    then show ?thesis using store_inv_delete assms(2) by blast
  next
    case 3
    then show ?thesis
      using store_inv_bump [OF assms(2) 3(1)] plan_invD(7) [OF _ 3(1)] assms(2) by simp
  qed (use assms(2) in simp)
qed

lemma store_inv_step:
  assumes "plan_step sha e s = (r, t)" "fresh_event s e" "store_inv cap s"
  shows "store_inv cap t"
proof (cases e)
  case (CreateEv rid rcode now now' subject operation)
  then obtain q where "Create sha rid rcode now now' subject operation s = (q, t)"
    using assms(1) by (auto simp: plan_step_def split: prod.splits)
  then show ?thesis
    using Create_store_inv assms(2,3) CreateEv by (fastforce simp: fresh_event_def)
next
  case (ConsumeEv now k subject code)
  then obtain q where "Consume sha now k subject code s = (q, t)"
    using assms(1) by (auto simp: plan_step_def split: prod.splits)
  then show ?thesis using Consume_store_inv assms(3) by blast
qed

lemma reachable_store_inv: "reachable_store sha cap s \<Longrightarrow> 0 \<le> cap \<Longrightarrow> store_inv cap s"
proof (induction rule: reachable_store.induct)
  case start
  then show ?case
    using plan_inv_New [of cap]
    by (simp add: within_quota_def subject_count_def limits_fixed_def NewPlanStore_def)
next
  case (step s e r t)
  then show ?case using store_inv_step by blast
qed

text \<open>
  Property C11 (memory budgets). In every reachable state of the store, the byte counter is exactly the sum of the sizes of the
  pending plans and at most 64 MiB, at most \<open>cap\<close> plans are pending, the counter of every identity is exactly the
  sum of the sizes of its plans, and an identity that holds more than 16 MiB holds one plan only.
\<close>

theorem plan_store_budgets:
  assumes "reachable_store sha cap s" and "0 \<le> cap"
  shows "usedBytes s = msum sp_Size (plans s) \<and> usedBytes s \<le> 67108864 \<and> int (length (plans s)) \<le> cap \<and>
    subject_used s subject = msum (\<lambda>p. if sp_SubjectKey p = subject then sp_Size p else 0) (plans s) \<and>
    (16777216 < subject_used s subject \<longrightarrow> msum (\<lambda>p. if sp_SubjectKey p = subject then 1 else 0) (plans s) \<le> 1)"
proof -
  note inv = reachable_store_inv [OF assms]
  then have p: "plan_inv s" by simp
  have "usedBytes s = msum sp_Size (plans s)" using plan_invD(1) [OF p] by (simp add: balanced_def)
  moreover have "usedBytes s \<le> 67108864" "int (length (plans s)) \<le> cap"
    using plan_invD(8,9) [OF p] inv by (auto simp: limits_fixed_def planStoreMaxBytes_def)
  moreover have u: "subject_used s subject = msum (\<lambda>p. if sp_SubjectKey p = subject then sp_Size p else 0) (plans s)"
    using plan_invD(4) [OF p] by (simp add: subject_total_def)
  moreover have "msum (\<lambda>p. if sp_SubjectKey p = subject then 1 else 0) (plans s) \<le> 1" if "16777216 < subject_used s subject"
  proof -
    have "subject_total s subject \<le> maxSubjectBytes s \<or> subject_count s subject \<le> 1"
      using inv by (simp add: within_quota_def)
    then show ?thesis using that inv unfolding u subject_total_def subject_count_def
      by (auto simp: limits_fixed_def planStoreSubjectMaxBytes_def)
  qed
  ultimately show ?thesis by simp
qed

section \<open>Where an executed plan comes from\<close>

text \<open>The plan under an ID was stored by one of the creations of a history.\<close>

definition issued_by :: "(planEvent \<times> planResult) set \<Rightarrow> (string \<Rightarrow> string) \<Rightarrow> string \<Rightarrow> storedPlan \<Rightarrow> bool" where
  "issued_by history sha planID p =
     (\<exists>rid n now now' code.
        code = itoa (n + 100000) \<and>
        (CreateEv rid (Inr n) now now' (sp_SubjectKey p) (sp_Operation p), Created (Inr (planID, code, sp_ExpiresAt p))) \<in> history \<and>
        sp_ExpiresAt p = now' + planTTL \<and> sp_ConfirmationHash p = confirmationHash sha planID code)"

lemma issued_by_mono: "issued_by h sha planID p \<Longrightarrow> h \<subseteq> h' \<Longrightarrow> issued_by h' sha planID p"
  unfolding issued_by_def by blast

lemma issued_by_failures [simp]: "issued_by h sha planID (p\<lparr>sp_ConfirmationFailures := n\<rparr>) = issued_by h sha planID p"
  by (simp add: issued_by_def)

lemma plan_step_issued:
  assumes "mwf (plans s)" "plan_step sha e s = (r, t)" "mget (plans t) planID = Some p"
  shows "issued_by {(e, r)} sha planID p \<or> (\<exists>q. mget (plans s) planID = Some q \<and> p = q\<lparr>sp_ConfirmationFailures := sp_ConfirmationFailures p\<rparr>)"
proof (cases e)
  case (CreateEv rid rcode now now' subject operation)
  then obtain q where q: "Create sha rid rcode now now' subject operation s = (q, t)" "r = Created q"
    using assms(2) by (auto simp: plan_step_def split: prod.splits)
  have old: "mget (plans s) planID = Some p" if "mget (plans (prune now s)) planID = Some p"
    using that assms(1) by (simp add: mget_prune split: option.splits if_splits)
  from q(1) show ?thesis
  proof (cases rule: Create_cases)
    case (stored k code n)
    then show ?thesis
      using assms(3) old CreateEv q(2) by (auto simp: issued_by_def split: if_splits)
  qed (use assms(3) old in auto)
next
  case (ConsumeEv now k subject code)
  then obtain q where "Consume sha now k subject code s = (q, t)"
    using assms(2) by (auto simp: plan_step_def split: prod.splits)
  from Consume_store [OF this] show ?thesis
    using assms(3) by (auto split: if_splits)
qed

lemma plan_run_issued:
  assumes "mwf (plans s)" "plan_run sha es s = (rs, t)" "mget (plans t) planID = Some p"
  shows "issued_by (set (zip es rs)) sha planID p \<or> (\<exists>q. mget (plans s) planID = Some q \<and> p = q\<lparr>sp_ConfirmationFailures := sp_ConfirmationFailures p\<rparr>)"
  using assms
proof (induction es arbitrary: s rs)
  case (Cons e es)
  obtain r u where r: "plan_step sha e s = (r, u)" by (cases "plan_step sha e s")
  obtain rs' v where rs': "plan_run sha es u = (rs', v)" by (cases "plan_run sha es u")
  have rs: "rs = r # rs'" "v = t" using Cons.prems(2) r rs' by auto
  have "mwf (plans u)" using plan_step_stored [OF Cons.prems(1) r] by blast
  then consider "issued_by (set (zip es rs')) sha planID p"
    | q where "mget (plans u) planID = Some q" "p = q\<lparr>sp_ConfirmationFailures := sp_ConfirmationFailures p\<rparr>"
    using Cons.IH rs' rs(2) Cons.prems(3) by blast
  then show ?case
  proof cases
    case 1
    then have "issued_by (set (zip (e # es) rs)) sha planID p" by (rule issued_by_mono) (auto simp: rs(1))
    then show ?thesis ..
  next
    case (2 q)
    have sub: "{(e, r)} \<subseteq> set (zip (e # es) rs)" by (simp add: rs(1))
    from plan_step_issued [OF Cons.prems(1) r 2(1)] show ?thesis
    proof
      assume "issued_by {(e, r)} sha planID q"
      then have "issued_by (set (zip (e # es) rs)) sha planID q" by (rule issued_by_mono [OF _ sub])
      with 2(2) show ?thesis by (metis issued_by_failures)
    next
      assume "\<exists>q'. mget (plans s) planID = Some q' \<and> q = q'\<lparr>sp_ConfirmationFailures := sp_ConfirmationFailures q\<rparr>"
      then obtain q' where q': "mget (plans s) planID = Some q'" "q = q'\<lparr>sp_ConfirmationFailures := sp_ConfirmationFailures q\<rparr>"
        by blast
      have "p = q'\<lparr>sp_ConfirmationFailures := sp_ConfirmationFailures p\<rparr>"
        by (subst 2(2), subst q'(2)) simp
      with q'(1) show ?thesis by blast
    qed
  qed
qed simp

lemma randomConfirmationCode_valid:
  assumes "0 \<le> n" "n < 900000"
  shows "validConfirmationCode (itoa (n + 100000))"
proof -
  have e: "itoa (n + 100000) = show_nat (nat (n + 100000))" using assms by (simp add: itoa_def)
  have "length (show_nat (nat (n + 100000))) \<le> 6"
    using assms by (intro length_show_nat) auto
  moreover have "5 < length (show_nat (nat (n + 100000)))"
    using assms by (intro length_show_nat_lower) auto
  ultimately show ?thesis using show_nat_digits by (simp add: e validConfirmationCode_def)
qed

text \<open>
  Property C2 (only a confirmed plan runs). When a commit obtains an operation from the store, then that operation was planned
  earlier in the history, by the same identity, under the same plan ID; the plan has not expired, and the presented
  confirmation code is the one that was issued with the plan. The last part needs that SHA-256 separates the
  six-digit codes of one plan.
\<close>

theorem executed_plan_was_issued:
  assumes run: "plan_run sha es (NewPlanStore cap) = (rs, s)"
    and ok: "Consume sha now planID subject code s = (Inr operation, t)"
    and sep: "inj_on (confirmationHash sha planID) {c. validConfirmationCode c}"
    and range: "\<forall>e \<in> set es. case e of CreateEv rid (Inr n) now now' sub oper \<Rightarrow> 0 \<le> n \<and> n < 900000 | _ \<Rightarrow> True"
  shows "\<exists>rid rcode now0 now1.
    (CreateEv rid rcode now0 now1 subject operation, Created (Inr (planID, code, now1 + planTTL))) \<in> set (zip es rs) \<and>
    now \<le> now1 + planTTL"
proof -
  obtain p where v: "validConfirmationCode code" and p: "mget (plans s) planID = Some p" "now \<le> sp_ExpiresAt p"
      "sp_SubjectKey p = subject" "sp_ConfirmationHash p = confirmationHash sha planID code" "operation = sp_Operation p"
    using ok unfolding Consume_Inr_iff by (auto simp: not_less)
  have "mwf (plans (NewPlanStore cap))" "mget (plans (NewPlanStore cap)) planID = None"
    by (simp_all add: NewPlanStore_def)
  then have "issued_by (set (zip es rs)) sha planID p"
    using plan_run_issued [OF _ run p(1)] by auto
  then obtain rid n now0 now1 where i:
      "(CreateEv rid (Inr n) now0 now1 subject operation, Created (Inr (planID, itoa (n + 100000), now1 + planTTL))) \<in> set (zip es rs)"
      "sp_ExpiresAt p = now1 + planTTL" "sp_ConfirmationHash p = confirmationHash sha planID (itoa (n + 100000))"
    unfolding issued_by_def using p(3,5) by auto
  have "CreateEv rid (Inr n) now0 now1 subject operation \<in> set es"
    using i(1) by (rule set_zip_leftD)
  then have "0 \<le> n \<and> n < 900000" using range by fastforce
  then have "validConfirmationCode (itoa (n + 100000))" using randomConfirmationCode_valid by blast
  then have "code = itoa (n + 100000)"
    using inj_onD [OF sep, of code "itoa (n + 100000)"] v p(4) i(3) by simp
  with i p(2) show ?thesis by auto
qed

section \<open>A plan survives the activity of others\<close>

definition harmless :: "string \<Rightarrow> string \<Rightarrow> instant \<Rightarrow> planEvent \<Rightarrow> bool" where
  "harmless planID subject expires e =
     (case e of
        CreateEv rid rcode now now' sub operation \<Rightarrow> randomPlanID rid \<noteq> Inr planID \<and> now \<le> expires
      | ConsumeEv now k sub code \<Rightarrow> k \<noteq> planID \<or> (sub \<noteq> subject \<and> now \<le> expires))"

lemma plan_step_harmless:
  assumes "mwf (plans s)" "mget (plans s) planID = Some p" "harmless planID (sp_SubjectKey p) (sp_ExpiresAt p) e"
    and "plan_step sha e s = (r, t)"
  shows "mwf (plans t) \<and> mget (plans t) planID = Some p"
proof (cases e)
  case (CreateEv rid rcode now now' subject operation)
  then obtain q where q: "Create sha rid rcode now now' subject operation s = (q, t)"
    using assms(4) by (auto simp: plan_step_def split: prod.splits)
  have pr: "mget (plans (prune now s)) planID = Some p"
    using assms CreateEv by (simp add: mget_prune harmless_def)
  from q have "mget (plans t) planID = Some p"
  proof (cases rule: Create_cases)
    case (stored k code n)
    then show ?thesis using pr assms(3) CreateEv by (auto simp: harmless_def)
  qed (use pr assms(2) in auto)
  then show ?thesis using plan_step_stored [OF assms(1,4)] by blast
next
  case (ConsumeEv now k subject code)
  then obtain q where q: "Consume sha now k subject code s = (q, t)"
    using assms(4) by (auto simp: plan_step_def split: prod.splits)
  have "mget (plans t) planID = Some p"
  proof (cases "k = planID")
    case True
    then have "t = s" using q assms(2,3) ConsumeEv by (auto simp: Consume_def harmless_def split: if_splits)
    then show ?thesis using assms(2) by simp
  next
    case False
    then show ?thesis using Consume_store [OF q] assms(2) by auto
  qed
  then show ?thesis using plan_step_stored [OF assms(1,4)] by blast
qed

lemma plan_run_harmless:
  assumes "mwf (plans s)" "mget (plans s) planID = Some p"
    and "list_all (harmless planID (sp_SubjectKey p) (sp_ExpiresAt p)) es" and "plan_run sha es s = (rs, t)"
  shows "mget (plans t) planID = Some p"
  using assms
proof (induction es arbitrary: s rs)
  case (Cons e es)
  obtain r u where r: "plan_step sha e s = (r, u)" by (cases "plan_step sha e s")
  obtain rs' v where rs': "plan_run sha es u = (rs', v)" by (cases "plan_run sha es u")
  have "mwf (plans u) \<and> mget (plans u) planID = Some p"
    using plan_step_harmless [OF Cons.prems(1,2) _ r] Cons.prems(3) by simp
  then show ?case using Cons.IH [of u rs'] Cons.prems(3,4) r rs' by simp
qed simp

text \<open>
  Create and consume round trip. A plan that \<open>Create\<close> returned can be consumed with its code until it expires,
  and yields exactly the planned operation, whatever happens to the store in between, as long as its own identity does not
  use the plan ID: other identities can plan, commit, guess codes for this very ID, or fail.
\<close>

theorem plan_roundtrip:
  assumes wf: "mwf (plans s)"
    and created: "Create sha rid rcode now now' subject operation s = (Inr (planID, code, expires), t)"
    and range: "case rcode of Inr n \<Rightarrow> 0 \<le> n \<and> n < 900000 | Inl _ \<Rightarrow> False"
    and others: "list_all (harmless planID subject expires) es"
    and run: "plan_run sha es t = (rs, u)"
    and time: "later \<le> expires"
  shows "fst (Consume sha later planID subject code u) = Inr operation"
  using created
proof (cases rule: Create_cases)
  case (stored k c n)
  let ?p = "\<lparr>sp_Operation = operation, sp_SubjectKey = subject, sp_ExpiresAt = expires, sp_Size = plan_size operation,
          sp_ConfirmationHash = confirmationHash sha planID code, sp_ConfirmationFailures = 0\<rparr>"
  have t: "mwf (plans t)" "mget (plans t) planID = Some ?p"
    using stored(4) wf by (auto simp: stored(8) prune_mwf)
  have "mget (plans u) planID = Some ?p"
    by (rule plan_run_harmless [OF t]) (use others run in simp_all)
  moreover have "validConfirmationCode code"
    using range stored(2,3,4) randomConfirmationCode_valid by auto
  ultimately show ?thesis
    using time by (auto simp: Consume_def validConfirmationCode_def not_less [symmetric])
qed simp_all

section \<open>Witnesses\<close>

text \<open>A concrete planned operation, and SHA-256 replaced by the identity, which separates all codes.\<close>

definition sample_operation :: Operation where
  "sample_operation =
     \<lparr>op_Action = \<lparr>act_GVR = \<lparr>gvr_Group = ''apps'', gvr_Version = ''v1'', gvr_Resource = ''deployments''\<rparr>,
        act_Kind = ''Deployment'', act_Subresource = ''scale'', act_Verb = ''update'', act_Action = ''scale'', act_Namespaced = True\<rparr>,
      op_Namespace = ''demo'', op_Name = ''web'', op_Object = None, op_Patch = GNil, op_PatchType = [], op_Replicas = Some 3,
      op_Command = [], op_Container = [], op_Stdin = [], op_TimeoutSeconds = 0, op_GracePeriod = None, op_Force = False,
      op_TargetUID = ''u1'', op_ResourceVersion = ''7'', op_ExpectedAbsent = False, op_Generation = 1\<rparr>"

definition sample_bytes :: string where
  "sample_bytes = replicate 24 (CHR ''x'')"

definition sample_id :: string where
  "sample_id = b64_encode URLAlphabet sample_bytes"

definition sample_create :: planEvent where
  "sample_create = CreateEv (Inr sample_bytes) (Inr 23456) 1000 1001 ''alice'' sample_operation"

definition sample_store :: PlanStore where
  "sample_store =
     put_plan (NewPlanStore 4) sample_id
       \<lparr>sp_Operation = sample_operation, sp_SubjectKey = ''alice'', sp_ExpiresAt = 1001 + planTTL,
        sp_Size = plan_size sample_operation, sp_ConfirmationHash = confirmationHash (\<lambda>t. t) sample_id ''123456'',
        sp_ConfirmationFailures = 0\<rparr>"

lemma identity_separates: "inj_on (confirmationHash (\<lambda>t. t) planID) A"
  by (simp add: inj_on_def confirmationHash_def)

lemma sample_size: "plan_size sample_operation \<le> 4000"
  by (simp add: plan_size_def sample_operation_def marshal_operation_def marshal_action_def opt_field_def json_object_def
      json_string_def json_escape_char_def Let_def itoa_def show_nat.simps dquote_def backslash_def show_bool_def
      planStoreSizeSafetyFactor_def)

lemma digit_chars:
  "digit_char (Suc 0) = CHR ''1''" "digit_char 2 = CHR ''2''" "digit_char 3 = CHR ''3''"
  "digit_char 4 = CHR ''4''" "digit_char 5 = CHR ''5''" "digit_char 6 = CHR ''6''"
  by code_simp+

lemma sample_code: "itoa 123456 = ''123456''" "validConfirmationCode ''123456''"
  by (simp_all add: itoa_def show_nat.simps digit_chars validConfirmationCode_def is_digit_def)

lemma sample_Create:
  "Create (\<lambda>t. t) (Inr sample_bytes) (Inr 23456) 1000 1001 ''alice'' sample_operation (NewPlanStore 4) =
     (Inr (sample_id, ''123456'', 1001 + planTTL), sample_store)"
  using sample_size
  by (simp add: Create_def Let_def go_simps randomPlanID_def sample_id_def [symmetric] sample_store_def randomConfirmationCode_def sample_code prune_def sweep_def
      NewPlanStore_def planStoreMaxBytes_def planStoreSubjectMaxBytes_def subject_used_def)

lemma sample_created:
  "plan_step (\<lambda>t. t) sample_create (NewPlanStore 4) = (Created (Inr (sample_id, ''123456'', 1001 + planTTL)), sample_store)"
  by (simp add: plan_step_def sample_create_def sample_Create)

lemma sample_Consume:
  "fst (Consume (\<lambda>t. t) 5000 sample_id ''alice'' ''123456'' sample_store) = Inr sample_operation"
  by (simp add: sample_store_def Consume_def sample_code)

lemma sample_reachable: "reachable_store (\<lambda>t. t) 4 sample_store"
  by (rule reachable_store.step [OF reachable_store.start _ sample_created])
    (simp add: fresh_event_def sample_create_def randomPlanID_def NewPlanStore_def)

theorem plan_store_budgets_witness:
  "reachable_store (\<lambda>t. t) 4 sample_store \<and> usedBytes sample_store = msum sp_Size (plans sample_store) \<and>
   int (length (plans sample_store)) \<le> 4"
  using plan_store_budgets [OF sample_reachable, of "''alice''"] sample_reachable by simp

theorem executed_plan_was_issued_witness:
  "\<exists>rid rcode now0 now1.
    (CreateEv rid rcode now0 now1 ''alice'' sample_operation, Created (Inr (sample_id, ''123456'', now1 + planTTL)))
      \<in> set (zip [sample_create] [Created (Inr (sample_id, ''123456'', 1001 + planTTL))]) \<and> 5000 \<le> now1 + planTTL"
proof (rule executed_plan_was_issued [OF _ _ identity_separates])
  show "plan_run (\<lambda>t. t) [sample_create] (NewPlanStore 4) =
      ([Created (Inr (sample_id, ''123456'', 1001 + planTTL))], sample_store)"
    by (simp add: sample_created)
  show "Consume (\<lambda>t. t) 5000 sample_id ''alice'' ''123456'' sample_store =
      (Inr sample_operation, snd (Consume (\<lambda>t. t) 5000 sample_id ''alice'' ''123456'' sample_store))"
    using sample_Consume by (intro prod_eqI) simp_all
qed (simp add: sample_create_def)

theorem plan_roundtrip_witness:
  "fst (Consume (\<lambda>t. t) 9000 sample_id ''alice'' ''123456''
     (snd (plan_run (\<lambda>t. t) [ConsumeEv 8000 sample_id ''mallory'' ''123456''] sample_store))) = Inr sample_operation"
proof (rule plan_roundtrip [where s = "NewPlanStore 4" and expires = "1001 + planTTL"])
  show "Create (\<lambda>t. t) (Inr sample_bytes) (Inr 23456) 1000 1001 ''alice'' sample_operation (NewPlanStore 4) =
      (Inr (sample_id, ''123456'', 1001 + planTTL), sample_store)"
    by (rule sample_Create)
  show "plan_run (\<lambda>t. t) [ConsumeEv 8000 sample_id ''mallory'' ''123456''] sample_store =
      (fst (plan_run (\<lambda>t. t) [ConsumeEv 8000 sample_id ''mallory'' ''123456''] sample_store),
       snd (plan_run (\<lambda>t. t) [ConsumeEv 8000 sample_id ''mallory'' ''123456''] sample_store))"
    by simp
  show "list_all (harmless sample_id ''alice'' (1001 + planTTL)) [ConsumeEv 8000 sample_id ''mallory'' ''123456'']"
    by (simp add: harmless_def)
qed (simp_all add: NewPlanStore_def)

end
