(* ===== verification/Capability.thy ===== *)
theory Capability
  imports Plan_Store
begin

text \<open>
  Capability handles (\<open>internal/server/capability.go\<close>): short opaque IDs that stand for one action on one resource, derived from a keyed
  digest of the capability and kept in a table until the catalog is refreshed.

  HMAC-SHA256 with the codec's key is the parameter \<open>sign\<close>. The panic of \<open>encode\<close> is an error value.
\<close>

record Capability =
  cap_ID :: string
  cap_Group :: string
  cap_Version :: string
  cap_Resource :: string
  cap_Subresource :: string
  cap_Kind :: string
  cap_Action :: string
  cap_Verb :: string
  cap_Namespaced :: bool
  cap_Categories :: "string list"

record capabilityHandle =
  h_payload :: string
  h_capability :: Capability

type_synonym capabilityCodec = "(string \<times> capabilityHandle) list"

text \<open>\<open>json.Marshal\<close> of a capability: struct order, with its \<open>omitempty\<close> tags.\<close>

definition marshal_capability :: "Capability \<Rightarrow> string" where
  "marshal_capability c =
     json_object ([(''id'', json_string (cap_ID c))]
       @ opt_field (cap_Group c \<noteq> []) ''group'' (json_string (cap_Group c))
       @ [(''version'', json_string (cap_Version c)), (''resource'', json_string (cap_Resource c))]
       @ opt_field (cap_Subresource c \<noteq> []) ''subresource'' (json_string (cap_Subresource c))
       @ [(''kind'', json_string (cap_Kind c)), (''action'', json_string (cap_Action c)), (''verb'', json_string (cap_Verb c)),
          (''namespaced'', show_bool (cap_Namespaced c))]
       @ opt_field (cap_Categories c \<noteq> []) ''categories'' (json_array (map json_string (cap_Categories c))))"

definition capability_payload :: "Capability \<Rightarrow> string" where
  "capability_payload c = marshal_capability (c\<lparr>cap_ID := []\<rparr>)"

definition handle_id :: "string \<Rightarrow> nat \<Rightarrow> string" where
  "handle_id digest n = ''cap_'' @ b64_encode URLAlphabet (take n digest)"

definition put_handle :: "capabilityCodec \<Rightarrow> string \<Rightarrow> Capability \<Rightarrow> capabilityCodec" where
  "put_handle handles h_id c =
     mput handles h_id \<lparr>h_payload = capability_payload c, h_capability = c\<lparr>cap_ID := h_id\<rparr>\<rparr>"

text \<open>The loop of \<open>encode\<close>: prefixes of 12, 16, ... bytes of the digest until one is free or holds the same payload.\<close>

function encode_from :: "string \<Rightarrow> nat \<Rightarrow> Capability \<Rightarrow> capabilityCodec \<Rightarrow> (gerr, string) res \<times> capabilityCodec" where
  "encode_from digest n c handles =
     (if length digest < n then (Inl (Plain ''capability handle collision across full HMAC digest''), handles)
      else let h_id = handle_id digest n
           in case mget handles h_id of
                Some existing \<Rightarrow>
                  if h_payload existing \<noteq> capability_payload c then encode_from digest (n + 4) c handles
                  else (Inr h_id, put_handle handles h_id c)
              | None \<Rightarrow> (Inr h_id, put_handle handles h_id c))"
  by pat_completeness auto
termination
  by (relation "measure (\<lambda>(digest, n, c, handles). Suc (length digest) - n)") auto

declare encode_from.simps [simp del]

definition encode :: "(string \<Rightarrow> string) \<Rightarrow> Capability \<Rightarrow> (capabilityCodec, gerr, string) io" where
  "encode sign c = encode_from (sign (capability_payload c)) 12 c"

definition decode :: "capabilityCodec \<Rightarrow> string \<Rightarrow> (gerr, Capability) res" where
  "decode handles h_id =
     (if \<not> has_prefix h_id ''cap_'' then Inl (policyError ''invalid_capability'' ''capability ID is not valid'')
      else (case mget handles h_id of
              None \<Rightarrow> Inl (policyError ''invalid_capability'' ''capability ID is unknown or expired; call k8s.search again'')
            | Some entry \<Rightarrow> Inr ((h_capability entry)\<lparr>cap_ID := h_id\<rparr>)))"

definition retain :: "Capability list \<Rightarrow> capabilityCodec \<Rightarrow> capabilityCodec" where
  "retain capabilities handles =
     fold (\<lambda>c current. case mget handles (cap_ID c) of Some h \<Rightarrow> mput current (cap_ID c) h | None \<Rightarrow> current) capabilities []"

definition capabilityFromAction :: "(string \<Rightarrow> string) \<Rightarrow> Action \<Rightarrow> string list \<Rightarrow> (capabilityCodec, gerr, Capability) io" where
  "capabilityFromAction sign action categories =
     (let capability =
        \<lparr>cap_ID = [], cap_Group = act_Group action, cap_Version = act_Version action, cap_Resource = act_Resource action,
         cap_Subresource = act_Subresource action, cap_Kind = act_Kind action, cap_Action = act_Action action,
         cap_Verb = act_Verb action, cap_Namespaced = act_Namespaced action, cap_Categories = categories\<rparr>
      in bindE (encode sign capability) (\<lambda>h_id. ret (capability\<lparr>cap_ID := h_id\<rparr>)))"

definition AsAction :: "Capability \<Rightarrow> Action" where
  "AsAction c =
     \<lparr>act_GVR = \<lparr>gvr_Group = cap_Group c, gvr_Version = cap_Version c, gvr_Resource = cap_Resource c\<rparr>,
      act_Kind = cap_Kind c, act_Subresource = cap_Subresource c, act_Verb = cap_Verb c, act_Action = cap_Action c,
      act_Namespaced = cap_Namespaced c\<rparr>"

section \<open>Invariant\<close>

text \<open>A handle's ID is a prefix of the digest of its payload, and its payload is that of its capability.\<close>

definition handle_ok :: "(string \<Rightarrow> string) \<Rightarrow> string \<Rightarrow> capabilityHandle \<Rightarrow> bool" where
  "handle_ok sign k h =
     (cap_ID (h_capability h) = k \<and> h_payload h = capability_payload (h_capability h) \<and>
      (\<exists>n \<le> length (sign (h_payload h)). k = handle_id (sign (h_payload h)) n))"

definition codec_inv :: "(string \<Rightarrow> string) \<Rightarrow> capabilityCodec \<Rightarrow> bool" where
  "codec_inv sign handles = (mwf handles \<and> (\<forall>k h. mget handles k = Some h \<longrightarrow> handle_ok sign k h))"

section \<open>Lemmas\<close>

lemma capability_payload_ID [simp]: "capability_payload (c\<lparr>cap_ID := i\<rparr>) = capability_payload c"
  by (simp add: capability_payload_def)

lemma encode_from_cases:
  assumes "encode_from digest n c handles = (r, handles')"
  shows "(\<exists>m \<ge> n. m \<le> length digest \<and> r = Inr (handle_id digest m) \<and> handles' = put_handle handles (handle_id digest m) c \<and>
            (\<forall>h. mget handles (handle_id digest m) = Some h \<longrightarrow> h_payload h = capability_payload c)) \<or>
         ((\<exists>e. r = Inl e) \<and> handles' = handles \<and>
          (\<forall>k. n + 4 * k \<le> length digest \<longrightarrow> (\<exists>h. mget handles (handle_id digest (n + 4 * k)) = Some h \<and> h_payload h \<noteq> capability_payload c)))"
  using assms
proof (induction digest n c handles rule: encode_from.induct)
  case (1 digest n c handles)
  show ?case
  proof (cases "length digest < n")
    case True
    with 1(2) show ?thesis by (auto simp: encode_from.simps [of digest n])
  next
    case False
    show ?thesis
    proof (cases "\<exists>h. mget handles (handle_id digest n) = Some h \<and> h_payload h \<noteq> capability_payload c")
      case True
      then obtain h where h: "mget handles (handle_id digest n) = Some h" "h_payload h \<noteq> capability_payload c" by blast
      then have "encode_from digest (n + 4) c handles = (r, handles')"
        using 1(2) False by (simp add: encode_from.simps [of digest n] Let_def)
      from 1(1) [OF False refl h this] show ?thesis
      proof (elim disjE)
        assume "\<exists>m \<ge> n + 4. m \<le> length digest \<and> r = Inr (handle_id digest m) \<and> handles' = put_handle handles (handle_id digest m) c \<and>
            (\<forall>h. mget handles (handle_id digest m) = Some h \<longrightarrow> h_payload h = capability_payload c)"
        then show ?thesis using add_leD1 by blast
      next
        assume a: "(\<exists>e. r = Inl e) \<and> handles' = handles \<and>
          (\<forall>k. n + 4 + 4 * k \<le> length digest \<longrightarrow> (\<exists>h. mget handles (handle_id digest (n + 4 + 4 * k)) = Some h \<and> h_payload h \<noteq> capability_payload c))"
        have "\<exists>h. mget handles (handle_id digest (n + 4 * k)) = Some h \<and> h_payload h \<noteq> capability_payload c"
          if "n + 4 * k \<le> length digest" for k
          using that a h by (cases k) (auto simp: algebra_simps)
        with a show ?thesis by blast
      qed
    next
      case free: False
      then have "r = Inr (handle_id digest n) \<and> handles' = put_handle handles (handle_id digest n) c"
        using 1(2) False by (auto simp: encode_from.simps [of digest n] Let_def split: option.splits if_splits)
      with free False show ?thesis by (intro disjI1 exI [of _ n]) auto
    qed
  qed
qed

lemma b64_encode_inj: "b64_encode a s = b64_encode a t \<longleftrightarrow> s = t"
  by (metis b64_decode_encode option.inject)

lemma handle_id_inj: "handle_id d n = handle_id e m \<longleftrightarrow> take n d = take m e"
  by (simp add: handle_id_def b64_encode_inj)

lemma has_prefix_handle_id [simp]: "has_prefix (handle_id d n) ''cap_''"
  by (simp add: handle_id_def has_prefix_def)

lemma put_handle_inv [inv_intros]:
  assumes "codec_inv sign handles" "n \<le> length (sign (capability_payload c))"
  shows "codec_inv sign (put_handle handles (handle_id (sign (capability_payload c)) n) c)"
proof -
  let ?k = "handle_id (sign (capability_payload c)) n"
  have "handle_ok sign ?k \<lparr>h_payload = capability_payload c, h_capability = c\<lparr>cap_ID := ?k\<rparr>\<rparr>"
    using assms(2) by (auto simp: handle_ok_def)
  then show ?thesis using assms(1) by (auto simp: codec_inv_def put_handle_def)
qed

lemma encode_inv [inv_intros]: "encode sign c handles = (r, handles') \<Longrightarrow> codec_inv sign handles \<Longrightarrow> codec_inv sign handles'"
  unfolding encode_def by (drule encode_from_cases) (auto intro: put_handle_inv)

lemma fold_retain_get:
  "mget (fold (\<lambda>c current. case mget handles (cap_ID c) of Some h \<Rightarrow> mput current (cap_ID c) h | None \<Rightarrow> current) cs init) k =
     (if k \<in> cap_ID ` set cs \<and> mget handles k \<noteq> None then mget handles k else mget init k)"
  by (induction cs arbitrary: init) (auto split: option.splits)

lemma retain_get: "mget (retain cs handles) k = (if k \<in> cap_ID ` set cs then mget handles k else None)"
  by (simp add: retain_def fold_retain_get)

section \<open>Properties\<close>

text \<open>
  Handles resolve to what they were issued for. The handle that \<open>capabilityFromAction\<close> returns resolves to the very action it was issued for, and keeps doing so, up to
  the payload that identifies it, when other capabilities are encoded later; a refresh of the catalog forgets exactly the handles it does not retain.
\<close>

theorem capability_roundtrip:
  assumes "capabilityFromAction sign a cats handles = (Inr c, handles1)" and "encode sign c2 handles1 = (r, handles2)"
  shows "map_option AsAction (case decode handles1 (cap_ID c) of Inr d \<Rightarrow> Some d | Inl _ \<Rightarrow> None) = Some a \<and>
    (\<exists>d. decode handles2 (cap_ID c) = Inr d \<and> capability_payload d = capability_payload c) \<and>
    (decode (retain cs handles2) (cap_ID c) = decode handles2 (cap_ID c) \<longleftrightarrow> cap_ID c \<in> cap_ID ` set cs)"
proof -
  define c0 where "c0 = \<lparr>cap_ID = [], cap_Group = act_Group a, cap_Version = act_Version a, cap_Resource = act_Resource a,
         cap_Subresource = act_Subresource a, cap_Kind = act_Kind a, cap_Action = act_Action a,
         cap_Verb = act_Verb a, cap_Namespaced = act_Namespaced a, cap_Categories = cats\<rparr>"
  obtain i where i: "encode sign c0 handles = (Inr i, handles1)" "c = c0\<lparr>cap_ID := i\<rparr>"
    using assms(1) unfolding capabilityFromAction_def Let_def c0_def [symmetric]
    by (auto simp: go_simps split: prod.splits sum.splits)
  obtain n where n: "i = handle_id (sign (capability_payload c0)) n" "handles1 = put_handle handles i c0"
    using encode_from_cases [OF i(1) [unfolded encode_def]] by auto
  have d1: "decode handles1 i = Inr c" by (simp add: decode_def n put_handle_def i(2))
  have a: "AsAction c = a" by (simp add: AsAction_def i(2) c0_def)
  have g: "mget handles1 i = Some \<lparr>h_payload = capability_payload c0, h_capability = c0\<lparr>cap_ID := i\<rparr>\<rparr>"
    by (simp add: n(2) put_handle_def)
  have d2: "\<exists>d. decode handles2 i = Inr d \<and> capability_payload d = capability_payload c"
    using encode_from_cases [OF assms(2) [unfolded encode_def]] g
    by (auto simp: decode_def n(1) put_handle_def i(2))
  have "decode (retain cs handles2) i = decode handles2 i \<longleftrightarrow> i \<in> cap_ID ` set cs"
    using d2 by (auto simp: decode_def retain_get split: option.splits if_splits)
  then show ?thesis using d1 d2 a by (simp add: i(2))
qed

text \<open>
  Encoding never panics. While the digest separates the payloads that are in the table from the new one, \<open>encode\<close> always finds a free prefix: truncated
  digests may collide, the full one may not.
\<close>

theorem encode_total:
  assumes inv: "codec_inv sign handles" and len: "\<forall>p. length (sign p) = 32"
    and sep: "\<forall>k h. mget handles k = Some h \<and> sign (h_payload h) = sign (capability_payload c) \<longrightarrow> h_payload h = capability_payload c"
  shows "\<exists>h_id. fst (encode sign c handles) = Inr h_id \<and> codec_inv sign (snd (encode sign c handles))"
proof -
  obtain r handles' where e: "encode sign c handles = (r, handles')" by (cases "encode sign c handles")
  have "\<exists>h_id. r = Inr h_id"
  proof (rule ccontr)
    assume "\<nexists>h_id. r = Inr h_id"
    then obtain h where h: "mget handles (handle_id (sign (capability_payload c)) 32) = Some h" "h_payload h \<noteq> capability_payload c"
      using encode_from_cases [OF e [unfolded encode_def]] len by (force dest: spec [of _ 5])
    then obtain n where n: "n \<le> 32" "handle_id (sign (capability_payload c)) 32 = handle_id (sign (h_payload h)) n"
    proof -
      have "handle_ok sign (handle_id (sign (capability_payload c)) 32) h" using inv h(1) by (simp add: codec_inv_def)
      then show thesis using that len unfolding handle_ok_def by metis
    qed
    then have t: "take 32 (sign (capability_payload c)) = take n (sign (h_payload h))" by (simp add: handle_id_inj)
    then have "length (take 32 (sign (capability_payload c))) = length (take n (sign (h_payload h)))" by simp
    then have "n = 32" using n(1) len by simp
    then have "sign (h_payload h) = sign (capability_payload c)" using t len by simp
    with sep h show False by blast
  qed
  then show ?thesis using e encode_inv [OF e inv] by auto
qed

section \<open>Witnesses\<close>

text \<open>A digest of 32 bytes: the payload itself, padded or cut.\<close>

definition sample_sign :: "string \<Rightarrow> string" where
  "sample_sign p = take 32 (p @ replicate 32 (CHR ''x''))"

lemma sample_encode_empty: "\<exists>i. encode sample_sign c [] = (Inr i, put_handle [] i c)"
  by (simp add: encode_def encode_from.simps [of _ 12] sample_sign_def Let_def)

theorem capability_roundtrip_witness:
  "\<exists>c handles. capabilityFromAction sample_sign sample_action [] [] = (Inr c, handles) \<and>
     map_option AsAction (case decode handles (cap_ID c) of Inr d \<Rightarrow> Some d | Inl _ \<Rightarrow> None) = Some sample_action"
proof -
  have "\<exists>c handles. capabilityFromAction sample_sign sample_action [] [] = (Inr c, handles)"
  proof -
    let ?c = "\<lparr>cap_ID = [], cap_Group = act_Group sample_action, cap_Version = act_Version sample_action,
         cap_Resource = act_Resource sample_action, cap_Subresource = act_Subresource sample_action, cap_Kind = act_Kind sample_action,
         cap_Action = act_Action sample_action, cap_Verb = act_Verb sample_action, cap_Namespaced = act_Namespaced sample_action,
         cap_Categories = []\<rparr>"
    obtain i where "encode sample_sign ?c [] = (Inr i, put_handle [] i ?c)" using sample_encode_empty by blast
    then show ?thesis by (simp add: capabilityFromAction_def io_simps)
  qed
  then obtain c handles where c: "capabilityFromAction sample_sign sample_action [] [] = (Inr c, handles)" by blast
  obtain r h2 where "encode sample_sign c handles = (r, h2)" by (cases "encode sample_sign c handles")
  from capability_roundtrip [OF c this] c show ?thesis by blast
qed

theorem encode_total_witness:
  "\<exists>h_id. fst (encode sample_sign
     \<lparr>cap_ID = [], cap_Group = [], cap_Version = ''v1'', cap_Resource = ''pods'', cap_Subresource = [], cap_Kind = ''Pod'',
      cap_Action = ''get'', cap_Verb = ''get'', cap_Namespaced = True, cap_Categories = []\<rparr> []) = Inr h_id"
proof -
  have "codec_inv sample_sign []" "\<forall>p. length (sample_sign p) = 32"
    by (auto simp: codec_inv_def sample_sign_def min_def)
  from encode_total [OF this] show ?thesis by fastforce
qed

end
