(* ===== verification/Catalog.thy ===== *)
theory Catalog
  imports Capability
begin

text \<open>
  The capability catalog (\<open>internal/server/catalog.go\<close>): building it from API discovery, caching it, and searching it.

  \<open>schema.ParseGroupVersion\<close> and \<open>GroupVersion.String\<close> of the client library and the discovery call are parameters. The critical sections of
  \<open>list\<close> are functions of their own: \<open>catalog_peek\<close> decides what a caller does, \<open>catalog_failed\<close>, \<open>catalog_partial\<close> and \<open>catalog_loaded\<close> store the
  outcome of a refresh, \<open>catalog_done\<close> gives the right to refresh back. The codec is shared with the server and part of the state. \<open>sort.Slice\<close> may order
  capabilities with the same sort key in any way; the model keeps their order.
\<close>

section \<open>Discovery\<close>

record APIResource =
  ar_Name :: string
  ar_Kind :: string
  ar_Namespaced :: bool
  ar_Verbs :: "string list"
  ar_Categories :: "string list"

record APIResourceList =
  al_GroupVersion :: string
  al_APIResources :: "APIResource list"

record APIGroup =
  ag_Name :: string
  ag_PreferredGroupVersion :: string
  ag_PreferredVersion :: string

record groupVersions =
  gv_parse :: "string \<Rightarrow> (gerr, string \<times> string) res"
  gv_string :: "string \<Rightarrow> string \<Rightarrow> string"

definition preferred_versions :: "groupVersions \<Rightarrow> APIGroup option list \<Rightarrow> (string \<times> string) list" where
  "preferred_versions G groups =
     fold (\<lambda>g preferred.
       case g of
         None \<Rightarrow> preferred
       | Some grp \<Rightarrow>
          (let groupVersion =
             (if ag_PreferredGroupVersion grp = [] \<and> ag_PreferredVersion grp \<noteq> []
              then gv_string G (ag_Name grp) (ag_PreferredVersion grp) else ag_PreferredGroupVersion grp)
           in if groupVersion \<noteq> [] then mput preferred (ag_Name grp) groupVersion else preferred)) groups []"

definition preferredResourceLists ::
  "groupVersions \<Rightarrow> APIGroup option list \<Rightarrow> APIResourceList option list \<Rightarrow> APIResourceList list" where
  "preferredResourceLists G groups resources =
     (let preferred = preferred_versions G groups in
      filter (\<lambda>l. case gv_parse G (al_GroupVersion l) of
          Inl _ \<Rightarrow> False
        | Inr (g, v) \<Rightarrow> (case mget preferred g of None \<Rightarrow> True | Some wanted \<Rightarrow> wanted = al_GroupVersion l))
        (List.map_filter (\<lambda>r. r) resources))"

record resourceInfo =
  inf_kind :: string
  inf_namespaced :: bool
  inf_categories :: "string list"
  inf_verbs :: "string list"

definition base_resource_list :: "groupVersions \<Rightarrow> APIResourceList \<Rightarrow> (string \<times> resourceInfo) list \<Rightarrow> (string \<times> resourceInfo) list" where
  "base_resource_list G l m =
     (case gv_parse G (al_GroupVersion l) of
        Inl _ \<Rightarrow> m
      | Inr (g, v) \<Rightarrow>
         fold (\<lambda>resource m.
           if CHR ''/'' \<in> set (ar_Name resource) then m
           else mput m (gv_string G g v @ ''/'' @ ar_Name resource)
             \<lparr>inf_kind = ar_Kind resource, inf_namespaced = ar_Namespaced resource, inf_categories = ar_Categories resource,
              inf_verbs = ar_Verbs resource\<rparr>) (al_APIResources l) m)"

definition baseResources :: "groupVersions \<Rightarrow> APIResourceList list \<Rightarrow> (string \<times> resourceInfo) list" where
  "baseResources G resources = fold (base_resource_list G) resources []"

text \<open>\<open>strings.SplitN(name, "/", 2)\<close>: what is before the first slash and what is behind it.\<close>

definition split_resource :: "string \<Rightarrow> string \<times> string" where
  "split_resource name = (takeWhile (\<lambda>c. c \<noteq> CHR ''/'') name, drop 1 (dropWhile (\<lambda>c. c \<noteq> CHR ''/'') name))"

text \<open>The action that a verb on a resource or subresource stands for, if the server offers it.\<close>

definition verb_action :: "string \<Rightarrow> string \<Rightarrow> string option" where
  "verb_action subresource verb =
     (if subresource = [] then (if verb \<in> set [''get'', ''list'', ''watch'', ''create'', ''update'', ''patch'', ''delete''] then Some verb else None)
      else if subresource = ''log'' then (if verb = ''get'' then Some ''logs'' else None)
      else if subresource = ''exec'' \<or> subresource = ''attach'' then (if verb = ''create'' then Some subresource else None)
      else if subresource = ''scale'' then (if verb = ''patch'' then Some ''scale'' else None)
      else None)"

definition restartable :: "string list" where
  "restartable = [''deployments'', ''statefulsets'', ''daemonsets'']"

definition resource_actions ::
  "groupVersions \<Rightarrow> (string \<times> resourceInfo) list \<Rightarrow> string \<Rightarrow> string \<Rightarrow> APIResource \<Rightarrow> (Action \<times> string list) list" where
  "resource_actions G base g v resource =
     (case split_resource (ar_Name resource) of (base_name, subresource) \<Rightarrow>
        (let info = (case mget base (gv_string G g v @ ''/'' @ base_name) of Some i \<Rightarrow> i
               | None \<Rightarrow> \<lparr>inf_kind = ar_Kind resource, inf_namespaced = ar_Namespaced resource, inf_categories = ar_Categories resource, inf_verbs = []\<rparr>);
             make = (\<lambda>name sub verb action.
               (\<lparr>act_GVR = \<lparr>gvr_Group = g, gvr_Version = v, gvr_Resource = name\<rparr>, act_Kind = inf_kind info, act_Subresource = sub,
                 act_Verb = verb, act_Action = action, act_Namespaced = inf_namespaced info\<rparr>, inf_categories info));
             patchable = (subresource = [] \<and> ''patch'' \<in> set (inf_verbs info))
         in List.map_filter (\<lambda>verb. map_option (make base_name subresource verb) (verb_action subresource verb)) (ar_Verbs resource)
            @ (if patchable \<and> g = ''apps'' \<and> ar_Name resource \<in> set restartable then [make (ar_Name resource) [] ''patch'' ''restart''] else [])
            @ (if patchable then [make (ar_Name resource) [] ''patch'' ''apply''] else [])))"

definition list_actions :: "groupVersions \<Rightarrow> (string \<times> resourceInfo) list \<Rightarrow> APIResourceList \<Rightarrow> (Action \<times> string list) list" where
  "list_actions G base l =
     (case gv_parse G (al_GroupVersion l) of
        Inl _ \<Rightarrow> []
      | Inr (g, v) \<Rightarrow> concat (map (resource_actions G base g v) (al_APIResources l)))"

definition sort_text :: "Capability \<Rightarrow> string" where
  "sort_text c = cap_Group c @ ''/'' @ cap_Version c @ ''/'' @ cap_Resource c @ ''/'' @ cap_Action c"

text \<open>Encode all actions, in order; a panic of the codec stops the whole refresh.\<close>

fun encode_all :: "(string \<Rightarrow> string) \<Rightarrow> (Action \<times> string list) list \<Rightarrow> (capabilityCodec, gerr, Capability list) io" where
  "encode_all sign [] = ret []"
| "encode_all sign ((action, categories) # acts) =
     bindE (capabilityFromAction sign action categories) (\<lambda>c. bindE (encode_all sign acts) (\<lambda>cs. ret (c # cs)))"

definition build_catalog :: "(string \<Rightarrow> string) \<Rightarrow> groupVersions \<Rightarrow> APIResourceList list \<Rightarrow> (capabilityCodec, gerr, Capability list) io" where
  "build_catalog sign G resources =
     bindE (encode_all sign (concat (map (list_actions G (baseResources G resources)) resources))) (\<lambda>cs. ret (sort_key sort_text cs))"

section \<open>The cache\<close>

record catalogCache =
  cc_refreshing :: bool
  cc_retryAt :: instant
  cc_lastError :: "gerr option"
  cc_lastPartial :: "Capability list option"
  cc_loadedAt :: instant
  cc_items :: "Capability list"
  cc_cacheTime :: duration
  cc_codec :: capabilityCodec

definition newCatalogCache :: "capabilityCodec \<Rightarrow> catalogCache" where
  "newCatalogCache codec =
     \<lparr>cc_refreshing = False, cc_retryAt = 0, cc_lastError = None, cc_lastPartial = None, cc_loadedAt = 0, cc_items = [],
      cc_cacheTime = 5 * minute, cc_codec = codec\<rparr>"

datatype catalogStep = Serve "(gerr, Capability list) res" | WaitRefresh | StartRefresh

text \<open>
  The first critical section. In the backoff branch the error is returned unless there is a partial or a complete snapshot; a failed refresh without any
  of them has set the error.
\<close>

definition catalog_peek :: "instant \<Rightarrow> catalogCache \<Rightarrow> catalogStep \<times> catalogCache" where
  "catalog_peek now c =
     (if time_sub now (cc_loadedAt c) < cc_cacheTime c \<and> \<not> is_zero_time (cc_loadedAt c) then (Serve (Inr (cc_items c)), c)
      else if now < cc_retryAt c then
        (Serve (if \<not> is_zero_time (cc_loadedAt c) then Inr (cc_items c)
                else (case cc_lastPartial c of
                        Some items \<Rightarrow> Inr items
                      | None \<Rightarrow> (case cc_lastError c of Some e \<Rightarrow> Inl e | None \<Rightarrow> Inr []))), c)
      else if cc_refreshing c then (WaitRefresh, c)
      else (StartRefresh, c\<lparr>cc_refreshing := True\<rparr>))"

definition catalog_done :: "catalogCache \<Rightarrow> catalogCache" where
  "catalog_done c = c\<lparr>cc_refreshing := False\<rparr>"

definition discovery_error :: "gerr \<Rightarrow> gerr" where
  "discovery_error e = Wrapped ''discover Kubernetes resources'' e"

definition catalog_failed :: "instant \<Rightarrow> gerr \<Rightarrow> catalogCache \<Rightarrow> catalogCache" where
  "catalog_failed now e c = c\<lparr>cc_retryAt := now + 5 * second, cc_lastError := Some (discovery_error e), cc_lastPartial := None\<rparr>"

definition catalog_partial :: "Capability list \<Rightarrow> catalogCache \<Rightarrow> catalogCache" where
  "catalog_partial capabilities c = c\<lparr>cc_lastPartial := Some capabilities\<rparr>"

definition catalog_loaded :: "instant \<Rightarrow> Capability list \<Rightarrow> catalogCache \<Rightarrow> catalogCache" where
  "catalog_loaded now capabilities c =
     c\<lparr>cc_codec := retain (capabilities @ cc_items c) (cc_codec c), cc_items := capabilities, cc_loadedAt := now, cc_retryAt := 0,
       cc_lastError := None, cc_lastPartial := None\<rparr>"

text \<open>What discovery returned: the groups, the resources and possibly an error, which may come with partial resources.\<close>

record discovered =
  d_groups :: "APIGroup option list"
  d_resources :: "APIResourceList option list"
  d_err :: "gerr option"

definition on_codec :: "(capabilityCodec, gerr, 'a) io \<Rightarrow> (catalogCache, gerr, 'a) io" where
  "on_codec m c = (case m (cc_codec c) of (r, codec) \<Rightarrow> (r, c\<lparr>cc_codec := codec\<rparr>))"

text \<open>From the answer of discovery to the end of \<open>list\<close>, without the deferred \<open>catalog_done\<close>.\<close>

definition catalog_refresh :: "(string \<Rightarrow> string) \<Rightarrow> groupVersions \<Rightarrow> instant \<Rightarrow> discovered \<Rightarrow> (catalogCache, gerr, Capability list) io" where
  "catalog_refresh sign G now d = (\<lambda>c.
     let resources = preferredResourceLists G (d_groups d) (d_resources d) in
     case d_err d of
       None \<Rightarrow>
         bindE (on_codec (build_catalog sign G resources)) (\<lambda>capabilities c'. (Inr capabilities, catalog_loaded now capabilities c')) c
     | Some e \<Rightarrow>
         (let c1 = catalog_failed now e c in
          if \<not> is_zero_time (cc_loadedAt c) then (Inr (cc_items c), c1)
          else if resources = [] then (Inl (discovery_error e), c1)
          else bindE (on_codec (build_catalog sign G resources)) (\<lambda>capabilities c'. (Inr capabilities, catalog_partial capabilities c')) c1))"

record 'w catalogApi =
  ca_ctx_err :: "'w \<Rightarrow> gerr option"
  ca_client :: "('w, gerr, unit) io"
  ca_discover :: "'w \<Rightarrow> discovered \<times> 'w"

text \<open>
  \<open>list\<close> when no other request is refreshing: a caller that finds a refresh pending waits for its end and starts again, so that a wait is a later
  call of this function.
\<close>

definition catalog_list ::
  "(string \<Rightarrow> string) \<Rightarrow> groupVersions \<Rightarrow> 'w catalogApi \<Rightarrow> instant \<Rightarrow> instant \<Rightarrow> catalogCache \<times> 'w \<Rightarrow> ((gerr, Capability list) res \<times> (catalogCache \<times> 'w)) option" where
  "catalog_list sign G api now now' = (\<lambda>(c, w).
     case ca_ctx_err api w of
       Some e \<Rightarrow> Some (Inl e, (c, w))
     | None \<Rightarrow>
        (case catalog_peek now c of
           (Serve r, c1) \<Rightarrow> Some (r, (c1, w))
         | (WaitRefresh, c1) \<Rightarrow> None
         | (StartRefresh, c1) \<Rightarrow>
            (case ca_client api w of
               (Inl e, w1) \<Rightarrow> Some (Inl e, (catalog_done c1, w1))
             | (Inr _, w1) \<Rightarrow>
                (case ca_discover api w1 of (d, w2) \<Rightarrow>
                   case ca_ctx_err api w2 of
                     Some e \<Rightarrow> Some (Inl e, (catalog_done c1, w2))
                   | None \<Rightarrow> (case catalog_refresh sign G now' d c1 of (r, c2) \<Rightarrow> Some (r, (catalog_done c2, w2)))))))"

section \<open>Search\<close>

definition searchAuthorizationCheckLimit :: int where
  "searchAuthorizationCheckLimit = 100"

record catalogSearchFilter =
  sf_Query :: string
  sf_Action :: string
  sf_ExactKind :: string
  sf_ExactResource :: string
  sf_APIGroup :: string
  sf_Version :: string
  sf_Namespace :: string
  sf_Name :: string

definition matchesExactResource :: "Capability \<Rightarrow> string \<Rightarrow> bool" where
  "matchesExactResource capability wanted =
     (equal_fold (cap_Resource capability) wanted \<or>
      (cap_Subresource capability \<noteq> [] \<and> equal_fold (cap_Resource capability @ ''/'' @ cap_Subresource capability) wanted))"

definition encodeCursor :: "int \<Rightarrow> string" where
  "encodeCursor index = b64_encode URLAlphabet (itoa index)"

definition decodeCursor :: "string \<Rightarrow> (gerr, int) res" where
  "decodeCursor cursor =
     (if cursor = [] then Inr 0
      else (case b64_decode URLAlphabet cursor of
              None \<Rightarrow> Inl (policyError ''invalid_cursor'' ''cursor is not valid'')
            | Some data \<Rightarrow>
               (case atoi data of
                  Some index \<Rightarrow> if index < 0 then Inl (policyError ''invalid_cursor'' ''cursor is not valid'') else Inr index
                | None \<Rightarrow> Inl (policyError ''invalid_cursor'' ''cursor is not valid''))))"

definition haystack :: "Capability \<Rightarrow> string" where
  "haystack c = to_lower (join '' '' [cap_Group c, cap_Version c, cap_Resource c, cap_Kind c, cap_Action c, join '' '' (cap_Categories c)])"

definition catalog_matches :: "catalogSearchFilter \<Rightarrow> Capability \<Rightarrow> bool" where
  "catalog_matches f c =
     (let query = to_lower (trim_space (sf_Query f));
          wantedAction = trim_space (sf_Action f);
          group0 = trim_space (sf_APIGroup f);
          wantedGroup = (if equal_fold group0 ''core'' then [] else group0)
      in (wantedAction = [] \<or> equal_fold (cap_Action c) wantedAction \<or> equal_fold (cap_Verb c) wantedAction) \<and>
         (sf_ExactKind f = [] \<or> equal_fold (cap_Kind c) (trim_space (sf_ExactKind f))) \<and>
         (sf_ExactResource f = [] \<or> matchesExactResource c (trim_space (sf_ExactResource f))) \<and>
         (sf_APIGroup f = [] \<or> equal_fold (cap_Group c) wantedGroup) \<and>
         (sf_Version f = [] \<or> equal_fold (cap_Version c) (trim_space (sf_Version f))) \<and>
         (query = [] \<or> contains (haystack c) query))"

definition search_namespace :: "Config \<Rightarrow> catalogSearchFilter \<Rightarrow> Capability \<Rightarrow> string" where
  "search_namespace cfg f c =
     (if cap_Namespaced c \<and> sf_Namespace f = [] \<and> Namespaces (cfg_Scope cfg) \<noteq> [] then hd (Namespaces (cfg_Scope cfg)) else sf_Namespace f)"

text \<open>
  The loop over the filtered capabilities from the cursor on: it stops at the limit, at the end, or when the checks are used up, skips what is denied, and fails on
  any other error.
\<close>

fun search_loop ::
  "(string \<Rightarrow> string) \<Rightarrow> Config \<Rightarrow> 'w authzApi \<Rightarrow> catalogSearchFilter \<Rightarrow> int \<Rightarrow> Capability list \<Rightarrow> int \<Rightarrow> int \<Rightarrow> Capability list \<Rightarrow>
   ('w auth_state, gerr, Capability list \<times> int) io" where
  "search_loop sha cfg api f limit [] index checks result = ret (result, index)"
| "search_loop sha cfg api f limit (c # cs) index checks result =
     (if limit \<le> int (length result) then ret (result, index)
      else (\<lambda>s. case api_ctx_err api (snd s) of
          Some e \<Rightarrow> (Inl e, s)
        | None \<Rightarrow>
           (if searchAuthorizationCheckLimit \<le> checks then (Inr (result, index), s)
            else (case CheckAndAuthorizeOperation sha cfg api (AsAction c) (search_namespace cfg f c) (sf_Name f) s of
               (Inl err, t) \<Rightarrow>
                 (case as_tool err of
                    None \<Rightarrow> (Inl err, t)
                  | Some _ \<Rightarrow> search_loop sha cfg api f limit cs (index + 1) (checks + 1) result t)
             | (Inr _, t) \<Rightarrow> search_loop sha cfg api f limit cs (index + 1) (checks + 1) (result @ [c]) t))))"

definition searchCatalog ::
  "(string \<Rightarrow> string) \<Rightarrow> Config \<Rightarrow> 'w authzApi \<Rightarrow> Capability list \<Rightarrow> catalogSearchFilter \<Rightarrow> string \<Rightarrow> int \<Rightarrow>
   ('w, gerr, Capability list \<times> string) io" where
  "searchCatalog sha cfg api items f cursor limit = (\<lambda>w.
     case api_ctx_err api w of
       Some e \<Rightarrow> (Inl e, w)
     | None \<Rightarrow>
        (case decodeCursor cursor of
           Inl e \<Rightarrow> (Inl e, w)
         | Inr start \<Rightarrow>
            (let filtered = filter (catalog_matches f) items in
             if int (length filtered) < start then (Inl (policyError ''invalid_cursor'' ''cursor is outside the result set''), w)
             else (case search_loop sha cfg api f limit (drop (nat start) filtered) start 0 [] (withAuthorizationCache w) of
                (Inl e, t) \<Rightarrow> (Inl e, snd t)
              | (Inr (result, index), t) \<Rightarrow>
                 (case api_ctx_err api (snd t) of
                    Some e \<Rightarrow> (Inl e, snd t)
                  | None \<Rightarrow> (Inr (result, if index < int (length filtered) then encodeCursor index else []), snd t))))))"

section \<open>Lemmas: what a search has authorized\<close>

text \<open>The reviews of a search that allowed something; a positive answer in the cache is one of them.\<close>

definition allowed_in :: "(authorizationKey \<times> (gerr, accessReview) res) list \<Rightarrow> authorizationKey \<Rightarrow> bool" where
  "allowed_in log key = (\<exists>review. (key, Inr review) \<in> set log \<and> rev_Allowed review)"

definition cache_backed :: "authorizationCache \<Rightarrow> (authorizationKey \<times> (gerr, accessReview) res) list \<Rightarrow> bool" where
  "cache_backed m log = (cache_covers m log \<and> (\<forall>key. mget m key = Some None \<longrightarrow> allowed_in log key))"

lemma allowed_in_append: "allowed_in log key \<Longrightarrow> allowed_in (log @ es) key"
  by (auto simp: allowed_in_def)

lemma Authorize_backed:
  assumes "Authorize (logged Pair api) a ns name (Some m, (w, log)) = (r, (c, (w', log')))" and "cache_backed m log"
  shows "\<exists>m' es. c = Some m' \<and> cache_backed m' log' \<and> log' = log @ es \<and> (r = Inr () \<longrightarrow> allowed_in log' (authorization_key a ns name))"
proof (cases "api_ctx_err (logged Pair api) (w, log)")
  case (Some e)
  with assms show ?thesis by (auto simp: Authorize_def)
next
  case None
  let ?k = "authorization_key a ns name"
  show ?thesis
  proof (cases "mget m ?k")
    case (Some cached)
    with None assms show ?thesis by (cases cached) (auto simp: Authorize_def Let_def cache_backed_def)
  next
    case None': None
    obtain r' v l where au: "authorize (logged Pair api) a ns name (w, log) = (r', (v, l))" by (metis prod.exhaust)
    obtain q where l: "l = log @ [(?k, q)]" "r' = Inr () \<longleftrightarrow> (\<exists>review. q = Inr review \<and> rev_Allowed review)"
      using authorize_log [OF au] by blast
    have eq: "c = Some (mput m ?k (err_of r'))" "log' = l" "r = r'" using assms(1) None None' au by (auto simp: Authorize_def Let_def)
    have "cache_covers (mput m ?k (err_of r')) log'"
      using Authorize_cached_covers [OF assms(1)] assms(2) eq(1) by (auto simp: cache_backed_def)
    moreover have ok: "r' = Inr () \<longrightarrow> allowed_in log' ?k" using l eq(2) by (auto simp: allowed_in_def)
    moreover have "err_of r' = None \<longrightarrow> r' = Inr ()" by (cases r') auto
    ultimately have "cache_backed (mput m ?k (err_of r')) log'"
      using assms(2) l(1) eq(2) by (auto simp: cache_backed_def allowed_in_append)
    then show ?thesis using eq l ok by auto
  qed
qed

text \<open>The keys that an operation needs: its own and, for a write, that of the read before it.\<close>

definition operation_keys :: "Action \<Rightarrow> string \<Rightarrow> string \<Rightarrow> authorizationKey list" where
  "operation_keys a ns name =
     authorization_key a ns name # (if Mutating a then [authorization_key (prerequisiteGetAction a) ns name] else [])"

lemma CheckAndAuthorizeOperation_backed:
  assumes "CheckAndAuthorizeOperation sha cfg (logged Pair api) a ns name (Some m, (w, log)) = (r, (c, (w', log')))" and "cache_backed m log"
  shows "\<exists>m' es. c = Some m' \<and> cache_backed m' log' \<and> log' = log @ es \<and>
    (r = Inr () \<longrightarrow> CheckTarget sha cfg a ns name = None \<and> list_all (allowed_in log') (operation_keys a ns name))"
proof (cases "CheckTarget sha cfg a ns name = None \<and> (Mutating a \<longrightarrow> CheckTarget sha cfg (prerequisiteGetAction a) ns name = None)")
  case False
  then have "c = Some m" "log' = log" "r \<noteq> Inr ()" using assms(1)
    by (auto simp: CheckAndAuthorizeOperation_def go_simps split: option.splits if_splits)
  with assms(2) show ?thesis by auto
next
  case True
  obtain r1 c1 w1 log1 where a1: "Authorize (logged Pair api) a ns name (Some m, (w, log)) = (r1, (c1, (w1, log1)))" by (metis prod.exhaust)
  obtain m1 es1 where m1: "c1 = Some m1" "cache_backed m1 log1" "log1 = log @ es1" "r1 = Inr () \<longrightarrow> allowed_in log1 (authorization_key a ns name)"
    using Authorize_backed [OF a1 assms(2)] by blast
  show ?thesis
  proof (cases "r1 = Inr () \<and> Mutating a")
    case False
    then have "r = r1" "c = c1" "log' = log1" using assms(1) True a1
      by (auto simp: CheckAndAuthorizeOperation_def go_simps split: sum.splits if_splits)
    with m1 True False show ?thesis by (auto simp: operation_keys_def)
  next
    case two: True
    then have a2: "Authorize (logged Pair api) (prerequisiteGetAction a) ns name (Some m1, (w1, log1)) = (r, (c, (w', log')))"
      using assms(1) True a1 m1(1) by (auto simp: CheckAndAuthorizeOperation_def go_simps)
    obtain m2 es2 where "c = Some m2" "cache_backed m2 log'" "log' = log1 @ es2"
      "r = Inr () \<longrightarrow> allowed_in log' (authorization_key (prerequisiteGetAction a) ns name)"
      using Authorize_backed [OF a2 m1(2)] by blast
    moreover have "allowed_in (log1 @ es2) (authorization_key a ns name)" using m1(4) two by (auto intro: allowed_in_append)
    ultimately show ?thesis using m1 True two by (auto simp: operation_keys_def)
  qed
qed

text \<open>What a search may return.\<close>

definition search_allows where
  "search_allows sha cfg f log c =
     (CheckTarget sha cfg (AsAction c) (search_namespace cfg f c) (sf_Name f) = None \<and>
      list_all (allowed_in log) (operation_keys (AsAction c) (search_namespace cfg f c) (sf_Name f)))"

lemma search_allows_append: "search_allows sha cfg f log c \<Longrightarrow> search_allows sha cfg f (log @ es) c"
  by (auto simp: search_allows_def list_all_iff allowed_in_append)

lemma search_loop_sound:
  assumes "search_loop sha cfg (logged Pair api) f limit cs index checks result (Some m, (w, log)) = (Inr (out, index'), (cache', (w', log')))"
    and "cache_backed m log" and "list_all (search_allows sha cfg f log) result" and "int (length result) \<le> max limit 0"
  shows "list_all (search_allows sha cfg f log') out \<and> distinct (map fst log') \<and> int (length out) \<le> max limit 0 \<and>
    (\<exists>picked. out = result @ picked \<and> set picked \<subseteq> set cs)"
  using assms
proof (induction cs arbitrary: index checks result m w log)
  case Nil
  then show ?case by (auto simp: go_simps cache_backed_def cache_covers_def)
next
  case (Cons c cs)
  let ?a = "AsAction c" and ?ns = "search_namespace cfg f c"
  have stop: ?case if "out = result" "log' = log" using that Cons.prems by (auto simp: cache_backed_def cache_covers_def)
  show ?case
  proof (cases "limit \<le> int (length result) \<or> searchAuthorizationCheckLimit \<le> checks")
    case True
    then show ?thesis using Cons.prems(1) by (intro stop) (auto simp: go_simps split: if_splits option.splits)
  next
    case False
    obtain r c1 w1 log1 where op: "CheckAndAuthorizeOperation sha cfg (logged Pair api) ?a ?ns (sf_Name f) (Some m, (w, log)) = (r, (c1, (w1, log1)))"
      by (metis prod.exhaust)
    obtain m1 es where m1: "c1 = Some m1" "cache_backed m1 log1" "log1 = log @ es"
      "r = Inr () \<longrightarrow> search_allows sha cfg f log1 c"
      using CheckAndAuthorizeOperation_backed [OF op Cons.prems(2)] by (auto simp: search_allows_def)
    define result1 where "result1 = (if r = Inr () then result @ [c] else result)"
    have next_step: "search_loop sha cfg (logged Pair api) f limit cs (index + 1) (checks + 1) result1 (Some m1, (w1, log1)) = (Inr (out, index'), (cache', (w', log')))"
      using Cons.prems(1) False op m1(1) by (auto simp: result1_def go_simps split: if_splits option.splits sum.splits)
    have "list_all (search_allows sha cfg f log1) result1"
      using Cons.prems(3) m1(3,4) by (auto simp: result1_def list_all_iff search_allows_append)
    moreover have "int (length result1) \<le> max limit 0" using Cons.prems(4) False by (auto simp: result1_def)
    ultimately show ?thesis using Cons.IH [OF next_step m1(2)] by (auto simp: result1_def split: if_splits)
  qed
qed

section \<open>Lemmas: pages\<close>

text \<open>An API server whose answers depend on the question only, and the verdict of the policy and that server on an action.\<close>

definition static_api :: "(authorizationKey \<Rightarrow> accessReview) \<Rightarrow> 'w authzApi" where
  "static_api answer = \<lparr>api_ctx_err = (\<lambda>w. None), api_ssar = (\<lambda>key w. (Inr (answer key), w))\<rparr>"

definition cache_agrees :: "(authorizationKey \<Rightarrow> accessReview) \<Rightarrow> authorizationCache \<Rightarrow> bool" where
  "cache_agrees answer m = (\<forall>key e. mget m key = Some e \<longrightarrow> e = review_error (answer key))"

definition verdict :: "(string \<Rightarrow> string) \<Rightarrow> Config \<Rightarrow> (authorizationKey \<Rightarrow> accessReview) \<Rightarrow> Action \<Rightarrow> string \<Rightarrow> string \<Rightarrow> gerr option" where
  "verdict sha cfg answer a ns name =
     andthen (CheckTarget sha cfg a ns name)
       (andthen (if Mutating a then CheckTarget sha cfg (prerequisiteGetAction a) ns name else None)
         (first_error (\<lambda>key. review_error (answer key)) (operation_keys a ns name)))"

definition res_of :: "gerr option \<Rightarrow> (gerr, unit) res" where
  "res_of e = (case e of None \<Rightarrow> Inr () | Some x \<Rightarrow> Inl x)"

lemma Authorize_static:
  assumes "cache_agrees answer m"
  shows "\<exists>m'. Authorize (static_api answer) a ns name (Some m, w) = (res_of (review_error (answer (authorization_key a ns name))), (Some m', w)) \<and> cache_agrees answer m'"
proof (cases "mget m (authorization_key a ns name)")
  case None
  let ?e = "review_error (answer (authorization_key a ns name))"
  have "authorize (static_api answer) a ns name w = (res_of ?e, w)"
    by (simp add: authorize_def go_simps static_api_def res_of_def split: option.splits)
  then show ?thesis using assms None
    by (auto simp: Authorize_def Let_def static_api_def cache_agrees_def res_of_def split: option.splits)
next
  case (Some e)
  then show ?thesis using assms
    by (auto simp: Authorize_def Let_def static_api_def cache_agrees_def res_of_def split: option.splits)
qed

lemma CheckAndAuthorizeOperation_static:
  assumes "cache_agrees answer m"
  shows "\<exists>m'. CheckAndAuthorizeOperation sha cfg (static_api answer) a ns name (Some m, w) = (res_of (verdict sha cfg answer a ns name), (Some m', w)) \<and>
    cache_agrees answer m'"
proof -
  obtain m1 where m1: "Authorize (static_api answer) a ns name (Some m, w) = (res_of (review_error (answer (authorization_key a ns name))), (Some m1, w))"
    "cache_agrees answer m1" using Authorize_static [OF assms, of a ns name w] by blast
  obtain m2 where m2: "Authorize (static_api answer) (prerequisiteGetAction a) ns name (Some m1, w) =
      (res_of (review_error (answer (authorization_key (prerequisiteGetAction a) ns name))), (Some m2, w))"
    "cache_agrees answer m2" using Authorize_static [OF m1(2), of "prerequisiteGetAction a" ns name w] by blast
  show ?thesis
    using assms m1 m2 unfolding CheckAndAuthorizeOperation_def verdict_def operation_keys_def
    by (cases "CheckTarget sha cfg a ns name"; cases "CheckTarget sha cfg (prerequisiteGetAction a) ns name";
        cases "review_error (answer (authorization_key a ns name))"; cases "Mutating a") (auto simp: go_simps res_of_def split: option.splits)
qed

definition search_permits :: "(string \<Rightarrow> string) \<Rightarrow> Config \<Rightarrow> (authorizationKey \<Rightarrow> accessReview) \<Rightarrow> catalogSearchFilter \<Rightarrow> Capability \<Rightarrow> bool" where
  "search_permits sha cfg answer f c = (verdict sha cfg answer (AsAction c) (search_namespace cfg f c) (sf_Name f) = None)"

lemma verdict_tool:
  assumes "\<forall>key. rev_EvaluationError (answer key) = []" "verdict sha cfg answer a ns name = Some e"
  shows "as_tool e \<noteq> None"
proof -
  have "as_tool x \<noteq> None" if "review_error (answer key) = Some x" for key x
    using that assms(1) by (auto simp: review_error_def split: if_splits)
  moreover have "as_tool x \<noteq> None" if "CheckTarget sha cfg b ns name = Some x" for b x
    using that Check_tool by (auto simp: CheckTarget_def andthen_def split: if_splits option.splits)
  ultimately show ?thesis using assms(2)
    by (auto simp: verdict_def andthen_def split: option.splits if_splits dest!: first_error_Some)
qed

lemma search_loop_static:
  assumes "cache_agrees answer m" and "\<forall>key. rev_EvaluationError (answer key) = []"
  shows "\<exists>n m'. search_loop sha cfg (static_api answer) f limit cs index checks result (Some m, w) =
      (Inr (result @ filter (search_permits sha cfg answer f) (take n cs), index + int n), (Some m', w)) \<and>
    n \<le> length cs \<and> (cs \<noteq> [] \<and> int (length result) < limit \<and> checks < searchAuthorizationCheckLimit \<longrightarrow> 0 < n)"
  using assms(1)
proof (induction cs arbitrary: index checks result m)
  case Nil
  then show ?case by (auto simp: go_simps)
next
  case (Cons c cs)
  show ?case
  proof (cases "limit \<le> int (length result) \<or> searchAuthorizationCheckLimit \<le> checks")
    case True
    then show ?thesis by (intro exI [of _ 0] exI [of _ m]) (auto simp: go_simps static_api_def)
  next
    case False
    let ?v = "verdict sha cfg answer (AsAction c) (search_namespace cfg f c) (sf_Name f)"
    obtain m1 where m1: "CheckAndAuthorizeOperation sha cfg (static_api answer) (AsAction c) (search_namespace cfg f c) (sf_Name f) (Some m, w) =
        (res_of ?v, (Some m1, w))" "cache_agrees answer m1"
      using CheckAndAuthorizeOperation_static [OF Cons.prems, of sha cfg "AsAction c" "search_namespace cfg f c" "sf_Name f" w] by blast
    define result1 where "result1 = (if ?v = None then result @ [c] else result)"
    obtain n m2 where n: "search_loop sha cfg (static_api answer) f limit cs (index + 1) (checks + 1) result1 (Some m1, w) =
        (Inr (result1 @ filter (search_permits sha cfg answer f) (take n cs), index + 1 + int n), (Some m2, w))" "n \<le> length cs"
      using Cons.IH [OF m1(2), of "index + 1" "checks + 1" result1] by blast
    have "search_loop sha cfg (static_api answer) f limit (c # cs) index checks result (Some m, w) =
        (Inr (result1 @ filter (search_permits sha cfg answer f) (take n cs), index + 1 + int n), (Some m2, w))"
    proof (cases ?v)
      case None
      then show ?thesis using n(1) m1(1) False by (simp add: static_api_def result1_def res_of_def)
    next
      case (Some e)
      then obtain t where "as_tool e = Some t" using verdict_tool [OF assms(2)] by blast
      then show ?thesis using Some n(1) m1(1) False by (simp add: static_api_def result1_def res_of_def)
    qed
    moreover have "search_permits sha cfg answer f c \<longleftrightarrow> ?v = None" by (simp add: search_permits_def)
    ultimately show ?thesis using n(2)
      by (intro exI [of _ "Suc n"] exI [of _ m2]) (simp add: result1_def del: search_loop.simps)
  qed
qed

lemma decode_encode_cursor: "0 \<le> index \<Longrightarrow> index \<le> max_int64 \<Longrightarrow> decodeCursor (encodeCursor index) = Inr index"
proof -
  assume i: "0 \<le> index" "index \<le> max_int64"
  have "b64_encode URLAlphabet (itoa index) \<noteq> []"
    using length_b64_encode [of URLAlphabet "itoa index"] i show_nat_nonempty [of "nat index"]
    by (cases "itoa index") (auto simp: itoa_def split: if_splits)
  moreover have "atoi (itoa index) = Some index" using atoi_itoa_nat [of "nat index"] i by simp
  ultimately show ?thesis using i by (simp add: decodeCursor_def encodeCursor_def b64_decode_encode)
qed

section \<open>Lemmas: handles of the catalog\<close>

definition resolves :: "capabilityCodec \<Rightarrow> Capability \<Rightarrow> bool" where
  "resolves handles c = (\<exists>d. decode handles (cap_ID c) = Inr d \<and> capability_payload d = capability_payload c)"

lemma resolves_mget:
  "resolves handles c \<longleftrightarrow> has_prefix (cap_ID c) ''cap_'' \<and>
     (\<exists>h. mget handles (cap_ID c) = Some h \<and> capability_payload (h_capability h) = capability_payload c)"
  by (auto simp: resolves_def decode_def split: option.splits)

lemma encode_keeps:
  assumes "encode sign c handles = (r, handles')" "codec_inv sign handles" "resolves handles d"
  shows "resolves handles' d"
proof -
  from encode_from_cases [OF assms(1) [unfolded encode_def]] consider "handles' = handles"
    | i where "handles' = put_handle handles i c" "\<forall>h. mget handles i = Some h \<longrightarrow> h_payload h = capability_payload c" by blast
  then show ?thesis
  proof cases
    case 2
    then show ?thesis using assms(2,3)
      by (force simp: resolves_mget put_handle_def codec_inv_def handle_ok_def)
  qed (use assms(3) in simp)
qed

lemma capabilityFromAction_resolves:
  assumes "capabilityFromAction sign a cats handles = (Inr c, handles')" "codec_inv sign handles"
  shows "resolves handles' c \<and> codec_inv sign handles'"
proof -
  let ?c0 = "\<lparr>cap_ID = [], cap_Group = act_Group a, cap_Version = act_Version a, cap_Resource = act_Resource a,
      cap_Subresource = act_Subresource a, cap_Kind = act_Kind a, cap_Action = act_Action a, cap_Verb = act_Verb a,
      cap_Namespaced = act_Namespaced a, cap_Categories = cats\<rparr>"
  from assms(1) obtain i where i: "encode sign ?c0 handles = (Inr i, handles')" "c = ?c0\<lparr>cap_ID := i\<rparr>"
    by (auto simp: capabilityFromAction_def Let_def go_simps split: prod.splits sum.splits)
  from encode_from_cases [OF i(1) [unfolded encode_def]]
  have "handles' = put_handle handles i ?c0" "has_prefix i ''cap_''" by auto
  then have "resolves handles' c" using i(2) capability_payload_ID [of i ?c0] by (simp add: resolves_mget put_handle_def)
  moreover have "codec_inv sign handles'" by (rule encode_inv [OF i(1) assms(2)])
  ultimately show ?thesis ..
qed

lemma capabilityFromAction_keeps:
  assumes "capabilityFromAction sign a cats handles = (Inr c, handles')" "codec_inv sign handles" "resolves handles d"
  shows "resolves handles' d"
  using assms by (auto simp: capabilityFromAction_def Let_def go_simps split: prod.splits sum.splits intro: encode_keeps)

lemma encode_all_resolves:
  assumes "encode_all sign acts handles = (Inr cs, handles')" "codec_inv sign handles"
  shows "(\<forall>c \<in> set cs. resolves handles' c) \<and> codec_inv sign handles' \<and> (\<forall>d. resolves handles d \<longrightarrow> resolves handles' d)"
  using assms
proof (induction acts arbitrary: handles cs)
  case Nil
  then show ?case by (simp add: go_simps)
next
  case (Cons act acts)
  obtain a cats where act: "act = (a, cats)" by (cases act)
  from Cons.prems(1) obtain c h1 cs1 where c: "capabilityFromAction sign a cats handles = (Inr c, h1)"
    and rest: "encode_all sign acts h1 = (Inr cs1, handles')" and cs: "cs = c # cs1"
    unfolding act encode_all.simps by (elim bindE_InrE) (auto simp: go_simps)
  have "resolves h1 c" "codec_inv sign h1" using capabilityFromAction_resolves [OF c Cons.prems(2)] by auto
  with Cons.IH [OF rest] capabilityFromAction_keeps [OF c Cons.prems(2)] show ?case unfolding cs by auto
qed

lemma resolves_retain: "resolves (retain cs handles) c \<longleftrightarrow> resolves handles c \<and> cap_ID c \<in> cap_ID ` set cs"
  by (auto simp: resolves_mget retain_get)

section \<open>Properties\<close>

text \<open>
  Property C14 (a search shows only what the caller may do). Every capability that a search returns comes from the catalog and matches the filter, is permitted by the policy for the namespace and name asked for, and was
  allowed by the API server during this very search with the caller's credentials, together with the read that a write needs. The result has at most
  \<open>limit\<close> entries, and no access review is asked twice.
\<close>

theorem search_sound:
  assumes "searchCatalog sha cfg (logged Pair api) items f cursor limit (w, []) = (Inr (out, next_cursor), (w', log))"
  shows "int (length out) \<le> max limit 0 \<and> distinct (map fst log) \<and> list_all (search_allows sha cfg f log) out \<and>
    list_all (\<lambda>c. c \<in> set items \<and> catalog_matches f c) out"
proof -
  let ?filtered = "filter (catalog_matches f) items"
  obtain start index cache' where
    "search_loop sha cfg (logged Pair api) f limit (drop (nat start) ?filtered) start 0 [] (Some [], (w, [])) = (Inr (out, index), (cache', (w', log)))"
    using assms by (auto simp: searchCatalog_def withAuthorizationCache_def Let_def split: option.splits sum.splits prod.splits if_splits)
  from search_loop_sound [OF this] have "list_all (search_allows sha cfg f log) out \<and> distinct (map fst log) \<and> int (length out) \<le> max limit 0 \<and>
      set out \<subseteq> set (drop (nat start) ?filtered)"
    by (auto simp: cache_backed_def cache_covers_def)
  then show ?thesis using set_drop_subset [of "nat start" ?filtered] by (auto simp: list_all_iff)
qed

text \<open>
  Property C31 (pages). If the answers of the API server do not change, a page of a search is exactly the permitted part of a stretch of the matching capabilities that begins at the cursor; it makes progress, and the next
  cursor leads to the end of the stretch or is empty when there is nothing left. So following the cursors visits every matching capability once, in order.
\<close>

theorem search_page_exact:
  assumes "decodeCursor cursor = Inr start" and "0 \<le> start" and "start \<le> int (length (filter (catalog_matches f) items))"
    and "int (length items) \<le> max_int64" and "0 < limit" and "\<forall>key. rev_EvaluationError (answer key) = []"
  shows "\<exists>n next_cursor. searchCatalog sha cfg (static_api answer) items f cursor limit w =
      (Inr (filter (search_permits sha cfg answer f) (take n (drop (nat start) (filter (catalog_matches f) items))), next_cursor), w) \<and>
    (start < int (length (filter (catalog_matches f) items)) \<longrightarrow> 0 < n) \<and>
    nat start + n \<le> length (filter (catalog_matches f) items) \<and>
    (if nat start + n = length (filter (catalog_matches f) items) then next_cursor = [] else decodeCursor next_cursor = Inr (start + int n))"
proof -
  let ?filtered = "filter (catalog_matches f) items"
  have "cache_agrees answer []" by (simp add: cache_agrees_def)
  from search_loop_static [OF this assms(6), of sha cfg f limit "drop (nat start) ?filtered" start 0 "[]" w]
  obtain n m where n: "search_loop sha cfg (static_api answer) f limit (drop (nat start) ?filtered) start 0 [] (Some [], w) =
      (Inr (filter (search_permits sha cfg answer f) (take n (drop (nat start) ?filtered)), start + int n), (Some m, w))"
    "n \<le> length (drop (nat start) ?filtered)" "drop (nat start) ?filtered \<noteq> [] \<longrightarrow> 0 < n"
    using assms(5) by (auto simp: searchAuthorizationCheckLimit_def)
  have len: "nat start + n \<le> length ?filtered" using n(2) assms(2,3) by auto
  moreover have "length ?filtered \<le> length items" by simp
  ultimately have "start + int n \<le> max_int64" using assms(2,4) by linarith
  then have cur: "decodeCursor (encodeCursor (start + int n)) = Inr (start + int n)" using assms(2) by (intro decode_encode_cursor) auto
  have "searchCatalog sha cfg (static_api answer) items f cursor limit w =
      (Inr (filter (search_permits sha cfg answer f) (take n (drop (nat start) ?filtered)),
        if start + int n < int (length ?filtered) then encodeCursor (start + int n) else []), w)"
    using assms(1,3) n(1) by (simp add: searchCatalog_def static_api_def withAuthorizationCache_def)
  then show ?thesis using n len cur assms(2)
    by (intro exI [of _ n] exI [of _ "if start + int n < int (length ?filtered) then encodeCursor (start + int n) else []"]) auto
qed

text \<open>
  Handles survive a refresh. After a complete refresh every listed capability resolves, and the handles of the snapshot before it, which clients may still hold, keep resolving to what they stood for; all
  older handles are forgotten. A failed refresh keeps the snapshot and its handles.
\<close>

theorem refresh_keeps_handles:
  assumes "catalog_refresh sign G now d c = (Inr out, c')" and "codec_inv sign (cc_codec c)" and "\<forall>x \<in> set (cc_items c). resolves (cc_codec c) x"
  shows "(\<forall>x \<in> set (cc_items c'). resolves (cc_codec c') x) \<and> (\<forall>x \<in> set (cc_items c). resolves (cc_codec c') x) \<and>
    (d_err d = None \<longrightarrow> cc_items c' = out \<and> cc_loadedAt c' = now \<and>
       (\<forall>x. resolves (cc_codec c') x \<longrightarrow> cap_ID x \<in> cap_ID ` set (out @ cc_items c))) \<and>
    (d_err d \<noteq> None \<longrightarrow> cc_items c' = cc_items c \<and> cc_retryAt c' = now + 5 * second)"
proof (cases "d_err d")
  case None
  let ?rs = "preferredResourceLists G (d_groups d) (d_resources d)"
  from assms(1) None obtain cs codec where cs: "encode_all sign (concat (map (list_actions G (baseResources G ?rs)) ?rs)) (cc_codec c) = (Inr cs, codec)"
    and out: "out = sort_key sort_text cs" and c': "c' = catalog_loaded now out (c\<lparr>cc_codec := codec\<rparr>)"
    by (auto simp: catalog_refresh_def Let_def on_codec_def build_catalog_def go_simps split: prod.splits sum.splits)
  have "\<forall>x \<in> set out. resolves codec x" "\<forall>x \<in> set (cc_items c). resolves codec x"
    using encode_all_resolves [OF cs assms(2)] assms(3) out by auto
  then show ?thesis using None c' by (auto simp: catalog_loaded_def resolves_retain)
next
  case (Some e)
  let ?rs = "preferredResourceLists G (d_groups d) (d_resources d)"
  show ?thesis
  proof (cases "is_zero_time (cc_loadedAt c)")
    case False
    then show ?thesis using Some assms by (auto simp: catalog_refresh_def Let_def catalog_failed_def)
  next
    case True
    with assms(1) Some obtain cs codec where cs: "encode_all sign (concat (map (list_actions G (baseResources G ?rs)) ?rs)) (cc_codec c) = (Inr cs, codec)"
      and c': "c' = catalog_partial (sort_key sort_text cs) ((catalog_failed now e c)\<lparr>cc_codec := codec\<rparr>)"
      by (auto simp: catalog_refresh_def Let_def on_codec_def build_catalog_def go_simps catalog_failed_def split: prod.splits sum.splits if_splits)
    then show ?thesis using Some encode_all_resolves [OF cs assms(2)] assms(3) by (auto simp: catalog_partial_def catalog_failed_def)
  qed
qed

section \<open>Witnesses\<close>

definition sample_capability :: Capability where
  "sample_capability =
     \<lparr>cap_ID = ''cap_x'', cap_Group = ''apps'', cap_Version = ''v1'', cap_Resource = ''deployments'', cap_Subresource = [],
      cap_Kind = ''Deployment'', cap_Action = ''patch'', cap_Verb = ''patch'', cap_Namespaced = True, cap_Categories = []\<rparr>"

definition sample_filter :: catalogSearchFilter where
  "sample_filter =
     \<lparr>sf_Query = [], sf_Action = [], sf_ExactKind = [], sf_ExactResource = [], sf_APIGroup = [], sf_Version = [],
      sf_Namespace = ''demo'', sf_Name = ''web''\<rparr>"

abbreviation yes :: accessReview where
  "yes \<equiv> \<lparr>rev_Allowed = True, rev_EvaluationError = [], rev_Reason = []\<rparr>"

lemma sample_matches: "catalog_matches sample_filter sample_capability" "search_namespace sample_config sample_filter sample_capability = ''demo''"
  "AsAction sample_capability = sample_action"
  by (simp_all add: catalog_matches_def sample_filter_def sample_capability_def search_namespace_def AsAction_def sample_action_def
      trim_space_def trim_runes.simps space_prefix_def)

lemma sample_keys_differ: "authorization_key (prerequisiteGetAction sample_action) ''demo'' ''web'' \<noteq> authorization_key sample_action ''demo'' ''web''"
  by (simp add: authorization_key_def prerequisiteGetAction_def sample_action_def)

lemma sample_search:
  "searchCatalog sha sample_config (logged Pair allow_all) [sample_capability] sample_filter [] 10 ((), []) =
   (Inr ([sample_capability], []), ((), [(authorization_key sample_action ''demo'' ''web'', Inr yes),
      (authorization_key (prerequisiteGetAction sample_action) ''demo'' ''web'', Inr yes)]))"
proof -
  have "sf_Name sample_filter = ''web''" by (simp add: sample_filter_def)
  then show ?thesis using sample_keys_differ
    by (simp add: searchCatalog_def logged_def allow_all_def decodeCursor_def sample_matches withAuthorizationCache_def searchAuthorizationCheckLimit_def
        CheckAndAuthorizeOperation_def io_simps sample_permitted sample_Mutating Authorize_def authorize_def review_error_def mget_def mput_def Let_def)
qed

theorem search_sound_witness:
  "search_allows (\<lambda>t. t) sample_config sample_filter
     [(authorization_key sample_action ''demo'' ''web'', Inr yes),
      (authorization_key (prerequisiteGetAction sample_action) ''demo'' ''web'', Inr yes)] sample_capability"
  using search_sound [OF sample_search] by simp

theorem search_page_exact_witness:
  "\<exists>n next_cursor. searchCatalog (\<lambda>t. t) sample_config (static_api (\<lambda>key. yes)) [sample_capability] sample_filter [] 10 () =
     (Inr (filter (search_permits (\<lambda>t. t) sample_config (\<lambda>key. yes) sample_filter) (take n [sample_capability]), next_cursor), ()) \<and> 0 < n"
  using search_page_exact [of "[]" 0 sample_filter "[sample_capability]" 10 "\<lambda>key. yes" "\<lambda>t. t" sample_config "()"]
  by (auto simp: decodeCursor_def sample_matches max_int64_def)

definition sample_versions :: groupVersions where
  "sample_versions = \<lparr>gv_parse = (\<lambda>t. Inr ([], t)), gv_string = (\<lambda>g v. v)\<rparr>"

definition sample_discovery :: discovered where
  "sample_discovery =
     \<lparr>d_groups = [],
      d_resources = [Some \<lparr>al_GroupVersion = ''v1'', al_APIResources =
        [\<lparr>ar_Name = ''pods'', ar_Kind = ''Pod'', ar_Namespaced = True, ar_Verbs = [''get''], ar_Categories = []\<rparr>]\<rparr>], d_err = None\<rparr>"

theorem refresh_keeps_handles_witness:
  "\<exists>out c'. catalog_refresh sample_sign sample_versions 100 sample_discovery (newCatalogCache []) = (Inr out, c') \<and> length out = 1 \<and>
     list_all (resolves (cc_codec c')) out"
proof -
  let ?a = "\<lparr>act_GVR = \<lparr>gvr_Group = [], gvr_Version = ''v1'', gvr_Resource = ''pods''\<rparr>, act_Kind = ''Pod'', act_Subresource = [],
      act_Verb = ''get'', act_Action = ''get'', act_Namespaced = True\<rparr>"
  have acts: "preferredResourceLists sample_versions [] (d_resources sample_discovery) =
      [\<lparr>al_GroupVersion = ''v1'', al_APIResources =
        [\<lparr>ar_Name = ''pods'', ar_Kind = ''Pod'', ar_Namespaced = True, ar_Verbs = [''get''], ar_Categories = []\<rparr>]\<rparr>]" (is "_ = ?l")
    by (simp add: preferredResourceLists_def preferred_versions_def sample_versions_def sample_discovery_def List.map_filter_simps)
  have list: "concat (map (list_actions sample_versions (baseResources sample_versions ?l)) ?l) = [(?a, [])]"
    by (simp add: list_actions_def resource_actions_def baseResources_def base_resource_list_def sample_versions_def split_resource_def
        verb_action_def mget_def mput_def List.map_filter_simps)
  obtain i where i: "capabilityFromAction sample_sign ?a [] [] =
      (Inr \<lparr>cap_ID = i, cap_Group = [], cap_Version = ''v1'', cap_Resource = ''pods'', cap_Subresource = [], cap_Kind = ''Pod'',
        cap_Action = ''get'', cap_Verb = ''get'', cap_Namespaced = True, cap_Categories = []\<rparr>, put_handle [] i
       \<lparr>cap_ID = [], cap_Group = [], cap_Version = ''v1'', cap_Resource = ''pods'', cap_Subresource = [], cap_Kind = ''Pod'',
        cap_Action = ''get'', cap_Verb = ''get'', cap_Namespaced = True, cap_Categories = []\<rparr>)"
    using sample_encode_empty [of "\<lparr>cap_ID = [], cap_Group = [], cap_Version = ''v1'', cap_Resource = ''pods'', cap_Subresource = [], cap_Kind = ''Pod'',
        cap_Action = ''get'', cap_Verb = ''get'', cap_Namespaced = True, cap_Categories = []\<rparr>"]
    by (auto simp: capabilityFromAction_def io_simps)
  have "\<exists>out c'. catalog_refresh sample_sign sample_versions 100 sample_discovery (newCatalogCache []) = (Inr out, c') \<and> length out = 1"
    using acts list i
    by (simp add: catalog_refresh_def sample_discovery_def on_codec_def build_catalog_def newCatalogCache_def io_simps)
  then obtain out c' where r: "catalog_refresh sample_sign sample_versions 100 sample_discovery (newCatalogCache []) = (Inr out, c')" "length out = 1"
    by blast
  have "cc_items c' = out" "\<forall>x \<in> set (cc_items c'). resolves (cc_codec c') x"
    using refresh_keeps_handles [OF r(1)] by (auto simp: newCatalogCache_def codec_inv_def sample_discovery_def)
  then show ?thesis using r by (auto simp: list_all_iff)
qed

end
