(* ===== verification/Identity.thy ===== *)
theory Identity
  imports Errors "HOL-Library.Multiset"
begin

text \<open>
  Identities and delegated clients (first part of \<open>internal/server/auth.go\<close>): the keys that name a principal, the
  authentication of a bearer token, the client configurations that act with the caller's token, and the
  limit on the size of delegated responses.

  SHA-256, the TokenReview call and the constructors of the client libraries are parameters. A client is represented
  by the configuration it is built from.
\<close>

section \<open>Principals\<close>

text \<open>
  The fields of \<open>rest.Config\<close> that the code reads or writes. \<open>rc_Limits\<close> lists the limits of the transport wrappers that
  \<open>configWithResponseLimit\<close> adds, the outermost first.
\<close>

record restConfig =
  rc_Host :: string
  rc_BearerToken :: string
  rc_BearerTokenFile :: string
  rc_Username :: string
  rc_Password :: string
  rc_Impersonate :: string
  rc_UserAgent :: string
  rc_Timeout :: duration
  rc_Limits :: "int list"

record Principal =
  pr_Username :: string
  pr_UID :: string
  pr_Groups :: "string list"
  pr_Extra :: "(string \<times> string list) list"
  pr_Token :: string
  pr_Config :: restConfig
  pr_Dynamic :: restConfig
  pr_Discovery :: restConfig
  pr_discoveryConfig :: restConfig
  pr_Kubernetes :: restConfig

definition nul :: char where
  "nul = char_of (0 :: nat)"

definition IdentityKey :: "(string \<Rightarrow> string) \<Rightarrow> Principal \<Rightarrow> string" where
  "IdentityKey sha p = hex_encode (sha (pr_Username p @ [nul] @ pr_UID p))"

text \<open>What \<open>SubjectKey\<close> writes into the hash.\<close>

definition subject_bytes :: "Principal \<Rightarrow> string" where
  "subject_bytes p =
     pr_Username p @ [nul] @ pr_UID p
     @ concat (map (\<lambda>group. [nul] @ group) (sort (pr_Groups p)))
     @ concat (map (\<lambda>(key, vs). [nul] @ key @ concat (map (\<lambda>value. [nul] @ value) (sort vs))) (sort_fields (pr_Extra p)))"

definition SubjectKey :: "(string \<Rightarrow> string) \<Rightarrow> Principal \<Rightarrow> string" where
  "SubjectKey sha p = hex_encode (sha (subject_bytes p))"

section \<open>Authentication\<close>

record authenticationError =
  ae_reason :: string
  ae_cause :: "gerr option"

definition authentication_error_text :: "authenticationError \<Rightarrow> string" where
  "authentication_error_text e = (case ae_cause e of None \<Rightarrow> ae_reason e | Some c \<Rightarrow> ae_reason e @ '': '' @ error_text c)"

text \<open>The status of a TokenReview, and the constructors of the three clients, which may fail.\<close>

record tokenStatus =
  ts_Error :: string
  ts_Authenticated :: bool
  ts_Username :: string
  ts_UID :: string
  ts_Groups :: "string list"
  ts_Extra :: "(string \<times> string list) list"

record 'w authApi =
  aa_review :: "string \<Rightarrow> ('w, gerr, tokenStatus) io"
  aa_dynamic :: "restConfig \<Rightarrow> gerr option"
  aa_discovery :: "restConfig \<Rightarrow> gerr option"
  aa_kubernetes :: "restConfig \<Rightarrow> gerr option"

record Authenticator =
  at_base :: restConfig
  at_requestTimeout :: duration
  at_operationTimeout :: duration

definition configWithTimeout :: "restConfig \<Rightarrow> duration \<Rightarrow> restConfig" where
  "configWithTimeout base timeout =
     (if rc_Timeout base \<le> 0 \<or> timeout < rc_Timeout base then base\<lparr>rc_Timeout := timeout\<rparr> else base)"

definition configWithResponseLimit :: "restConfig \<Rightarrow> int \<Rightarrow> restConfig" where
  "configWithResponseLimit base limit = base\<lparr>rc_Limits := limit # rc_Limits base\<rparr>"

definition maxDelegatedResourceResponseBytes :: int where
  "maxDelegatedResourceResponseBytes = 8388608"

text \<open>The client that reviews tokens is built from the reviewer's configuration; the constructor returns it with the authenticator.\<close>

definition NewAuthenticator :: "'w authApi \<Rightarrow> restConfig \<Rightarrow> duration \<Rightarrow> duration \<Rightarrow> (gerr, Authenticator \<times> restConfig) res" where
  "NewAuthenticator api base requestTimeout operationTimeout =
     (let reviewer = configWithTimeout base requestTimeout in
      case aa_kubernetes api reviewer of
        Some e \<Rightarrow> Inl (Wrapped ''create TokenReview client'' e)
      | None \<Rightarrow> Inr (\<lparr>at_base = base, at_requestTimeout = requestTimeout, at_operationTimeout = operationTimeout\<rparr>, reviewer))"

definition delegated_config :: "Authenticator \<Rightarrow> string \<Rightarrow> restConfig" where
  "delegated_config a token =
     (configWithTimeout (at_base a) (at_operationTimeout a))
       \<lparr>rc_BearerToken := token, rc_BearerTokenFile := [], rc_Username := [], rc_Password := [], rc_Impersonate := [],
        rc_UserAgent := ''supek8smcp/delegated-user''\<rparr>"

definition client_error :: "gerr \<Rightarrow> authenticationError" where
  "client_error e = \<lparr>ae_reason = ''delegated_client_error'', ae_cause = Some e\<rparr>"

definition Authenticate :: "'w authApi \<Rightarrow> Authenticator \<Rightarrow> string \<Rightarrow> ('w, authenticationError, Principal) io" where
  "Authenticate api a token = (\<lambda>w.
     case aa_review api token w of
       (Inl err, w') \<Rightarrow> (Inl \<lparr>ae_reason = ''tokenreview_error'', ae_cause = Some err\<rparr>, w')
     | (Inr status, w') \<Rightarrow>
        (if ts_Error status \<noteq> [] then Inl \<lparr>ae_reason = ''tokenreview_error'', ae_cause = Some (Plain (ts_Error status))\<rparr>
         else if \<not> ts_Authenticated status then Inl \<lparr>ae_reason = ''invalid_token'', ae_cause = None\<rparr>
         else let config = delegated_config a token;
                  dynamicConfig = configWithResponseLimit config maxDelegatedResourceResponseBytes;
                  discoveryConfig = configWithResponseLimit (configWithTimeout config (at_requestTimeout a)) maxDelegatedResourceResponseBytes
              in case aa_dynamic api dynamicConfig of
                   Some err \<Rightarrow> Inl (client_error err)
                 | None \<Rightarrow>
                  (case aa_discovery api discoveryConfig of
                     Some err \<Rightarrow> Inl (client_error err)
                   | None \<Rightarrow>
                    (case aa_kubernetes api config of
                       Some err \<Rightarrow> Inl (client_error err)
                     | None \<Rightarrow>
                        Inr \<lparr>pr_Username = ts_Username status, pr_UID = ts_UID status, pr_Groups = ts_Groups status,
                             pr_Extra = ts_Extra status, pr_Token = token, pr_Config = config, pr_Dynamic = dynamicConfig,
                             pr_Discovery = discoveryConfig, pr_discoveryConfig = discoveryConfig, pr_Kubernetes = config\<rparr>)), w'))"

text \<open>\<open>serverToken\<close>: the file, if one is configured, is read by \<open>readFile\<close>. The base configuration is never nil here.\<close>

definition serverToken :: "(string \<Rightarrow> (gerr, string) res) \<Rightarrow> Authenticator \<Rightarrow> (gerr, string) res" where
  "serverToken readFile a =
     (let configured =
        (let token = trim_space (rc_BearerToken (at_base a)) in
         if token \<noteq> [] then Inr token else Inl (Plain ''server Kubernetes credential is empty'')) in
      if rc_BearerTokenFile (at_base a) \<noteq> []
      then bindR (readFile (rc_BearerTokenFile (at_base a))) (\<lambda>data.
             if trim_space data \<noteq> [] then Inr (trim_space data) else configured)
      else configured)"

definition Ready :: "(string \<Rightarrow> (gerr, string) res) \<Rightarrow> 'w authApi \<Rightarrow> Authenticator \<Rightarrow> ('w, gerr, unit) io" where
  "Ready readFile api a =
     (case serverToken readFile a of
        Inl e \<Rightarrow> raise (Wrapped ''load TokenReview readiness credential'' e)
      | Inr token \<Rightarrow>
         bindE (tryE (aa_review api token)) (\<lambda>r.
           case r of
             Inl e \<Rightarrow> raise (Wrapped ''TokenReview readiness check failed'' e)
           | Inr status \<Rightarrow>
              if ts_Error status \<noteq> [] then raise (Plain (''TokenReview readiness check failed: '' @ ts_Error status))
              else if \<not> ts_Authenticated status then raise (Plain ''TokenReview readiness credential was not authenticated'')
              else ret ()))"

section \<open>Limited responses\<close>

text \<open>
  A reader is a function that is asked for at most \<open>n\<close> bytes and returns some bytes and possibly an error (\<open>io.EOF\<close> is one).
\<close>

type_synonym 'r reader = "nat \<Rightarrow> 'r \<Rightarrow> (string \<times> gerr option) \<times> 'r"

definition errDelegatedResourceResponseTooLarge :: gerr where
  "errDelegatedResourceResponseTooLarge = Plain ''delegated Kubernetes API response exceeds the configured limit''"

record 'r responseLimitBody =
  lb_body :: 'r
  lb_remaining :: int
  lb_exceeded :: bool

definition lb_Read :: "'r reader \<Rightarrow> nat \<Rightarrow> 'r responseLimitBody \<Rightarrow> (string \<times> gerr option) \<times> 'r responseLimitBody" where
  "lb_Read rd len b =
     (if len = 0 then (([], None), b)
      else if lb_exceeded b then (([], Some errDelegatedResourceResponseTooLarge), b)
      else if lb_remaining b = 0 then
        (case rd 1 (lb_body b) of ((data, err), r) \<Rightarrow>
           if data \<noteq> [] then (([], Some errDelegatedResourceResponseTooLarge), b\<lparr>lb_body := r, lb_exceeded := True\<rparr>)
           else (([], err), b\<lparr>lb_body := r\<rparr>))
      else let size = (if lb_remaining b + 1 < int len then nat (lb_remaining b + 1) else len) in
        (case rd size (lb_body b) of ((data, err), r) \<Rightarrow>
           if lb_remaining b < int (length data)
           then ((take (nat (lb_remaining b)) data, Some errDelegatedResourceResponseTooLarge),
                 b\<lparr>lb_body := r, lb_remaining := 0, lb_exceeded := True\<rparr>)
           else ((data, err), b\<lparr>lb_body := r, lb_remaining := lb_remaining b - int (length data)\<rparr>)))"

text \<open>A response: its declared length (-1 when unknown) and its body. The \<open>watch\<close> query parameter is given.\<close>

record 'r response =
  resp_ContentLength :: int
  resp_Body :: 'r

definition isWatchRequest :: "string \<Rightarrow> bool" where
  "isWatchRequest value = (value = ''1'' \<or> equal_fold value ''true'')"

text \<open>The body of a watch is passed on as it is (\<open>Inl\<close>), any other body is limited (\<open>Inr\<close>).\<close>

definition RoundTrip :: "int \<Rightarrow> string \<Rightarrow> (gerr, 'r response) res \<Rightarrow> (gerr, 'r response + 'r responseLimitBody) res" where
  "RoundTrip limit watch next =
     bindR next (\<lambda>response.
       if isWatchRequest watch then Inr (Inl response)
       else if limit < resp_ContentLength response then Inl errDelegatedResourceResponseTooLarge
       else Inr (Inr \<lparr>lb_body = resp_Body response, lb_remaining = limit, lb_exceeded = False\<rparr>))"

text \<open>Reads with buffers of the given sizes, collecting the results.\<close>

fun read_run :: "'r reader \<Rightarrow> nat list \<Rightarrow> 'r responseLimitBody \<Rightarrow> (string \<times> gerr option) list \<times> 'r responseLimitBody" where
  "read_run rd [] b = ([], b)"
| "read_run rd (n # ns) b = (case lb_Read rd n b of (r, b1) \<Rightarrow> case read_run rd ns b1 of (rs, b2) \<Rightarrow> (r # rs, b2))"

section \<open>Lemmas\<close>

lemma of_char_hex_digit: "d < 16 \<Longrightarrow> (of_char (hex_digit d) :: nat) = (if d < 10 then 48 + d else 87 + d)"
  by (auto simp: hex_digit_def take_bit_eq_mod)

lemma hex_digit_inj: "a < 16 \<Longrightarrow> b < 16 \<Longrightarrow> hex_digit a = hex_digit b \<Longrightarrow> a = b"
proof -
  assume ab: "a < 16" "b < 16" "hex_digit a = hex_digit b"
  then have "(of_char (hex_digit a) :: nat) = of_char (hex_digit b)" by simp
  with ab(1,2) show "a = b" by (simp add: of_char_hex_digit split: if_splits)
qed

lemma hex2_inj: "a < 256 \<Longrightarrow> b < 256 \<Longrightarrow> hex2 a = hex2 b \<Longrightarrow> a = b"
proof -
  assume ab: "a < 256" "b < 256" "hex2 a = hex2 b"
  then have "a div 16 = b div 16" "a mod 16 = b mod 16" by (auto simp: hex2_def intro!: hex_digit_inj)
  then show "a = b" by (metis div_mult_mod_eq)
qed

lemma hex_encode_inj: "hex_encode s = hex_encode t \<Longrightarrow> s = t"
proof (induction s arbitrary: t)
  case Nil
  then show ?case by (cases t) (auto simp: hex_encode_def hex2_def)
next
  case (Cons c s)
  then obtain d t' where t: "t = d # t'" by (cases t) (auto simp: hex_encode_def hex2_def)
  with Cons.prems have "hex2 (of_char c) = hex2 (of_char d)" "hex_encode s = hex_encode t'"
    by (auto simp: hex_encode_def hex2_def)
  then have "(of_char c :: nat) = of_char d" by (intro hex2_inj) auto
  with Cons.IH \<open>hex_encode s = hex_encode t'\<close> t show ?case by simp
qed

lemma sort_eq_iff_mset: "sort xs = sort ys \<longleftrightarrow> mset xs = mset (ys :: 'a :: linorder list)"
  by (metis mset_sort properties_for_sort sorted_sort)

lemma concat_sep_join: "concat (map (\<lambda>g. sep @ g) gs) = (if gs = [] then [] else sep @ join sep gs)"
  by (induction gs) (auto simp: join_Cons)

lemma subject_bytes_join:
  "pr_Extra p = [] \<Longrightarrow> subject_bytes p = join [nul] (pr_Username p # pr_UID p # sort (pr_Groups p))"
  using concat_sep_join [of "[nul]" "sort (pr_Groups p)"]
  by (cases "sort (pr_Groups p)") (auto simp: subject_bytes_def sort_fields_def)

lemma configWithTimeout_frame [simp]:
  "rc_BearerToken (configWithTimeout c t) = rc_BearerToken c" "rc_BearerTokenFile (configWithTimeout c t) = rc_BearerTokenFile c"
  "rc_Username (configWithTimeout c t) = rc_Username c" "rc_Password (configWithTimeout c t) = rc_Password c"
  "rc_Impersonate (configWithTimeout c t) = rc_Impersonate c" "rc_Host (configWithTimeout c t) = rc_Host c"
  "rc_Limits (configWithTimeout c t) = rc_Limits c"
  by (simp_all add: configWithTimeout_def)

lemma configWithTimeout_bounds: "0 < t \<Longrightarrow> 0 < rc_Timeout (configWithTimeout c t) \<and> rc_Timeout (configWithTimeout c t) \<le> t"
  by (simp add: configWithTimeout_def)

text \<open>Authority of a client configuration: only the caller's token, no other credential.\<close>

definition only_token :: "string \<Rightarrow> restConfig \<Rightarrow> bool" where
  "only_token token c =
     (rc_BearerToken c = token \<and> rc_BearerTokenFile c = [] \<and> rc_Username c = [] \<and> rc_Password c = [] \<and> rc_Impersonate c = [])"

lemma delegated_config_token [simp]:
  "only_token token (delegated_config a token)"
  "only_token token c \<Longrightarrow> only_token token (configWithTimeout c t)"
  "only_token token c \<Longrightarrow> only_token token (configWithResponseLimit c l)"
  by (simp_all add: only_token_def delegated_config_def configWithResponseLimit_def)

lemma delegated_timeout:
  "0 < at_operationTimeout a \<Longrightarrow> 0 < rc_Timeout (delegated_config a token) \<and> rc_Timeout (delegated_config a token) \<le> at_operationTimeout a"
  using configWithTimeout_bounds [of "at_operationTimeout a" "at_base a"] by (simp add: delegated_config_def)

text \<open>A reader that also records what the underlying reader delivered.\<close>

definition logged_reader :: "'r reader \<Rightarrow> ('r \<times> string) reader" where
  "logged_reader rd n = (\<lambda>(r, log). case rd n r of ((data, err), r') \<Rightarrow> ((data, err), (r', log @ data)))"

definition limit_inv :: "int \<Rightarrow> string \<Rightarrow> ('r \<times> string) responseLimitBody \<Rightarrow> bool" where
  "limit_inv limit got b =
     (let log = snd (lb_body b) in
      0 \<le> lb_remaining b \<and> int (length got) + lb_remaining b = limit \<and> (\<exists>rest. log = got @ rest) \<and>
      (\<not> lb_exceeded b \<longrightarrow> log = got) \<and> (lb_exceeded b \<longrightarrow> limit < int (length log)))"

lemma take_rest: "\<exists>rest. xs = take n xs @ rest"
  by (metis append_take_drop_id)

lemma lb_Read_inv:
  assumes "limit_inv limit got b" and "lb_Read (logged_reader rd) n b = ((data, err), b')"
  shows "limit_inv limit (got @ data) b'"
proof -
  obtain r log where body: "lb_body b = (r, log)" by (cases "lb_body b")
  show ?thesis
    using assms body
    by (auto simp: limit_inv_def lb_Read_def logged_reader_def Let_def intro!: take_rest split: if_splits prod.splits)
qed

lemma read_run_inv:
  "limit_inv limit got b \<Longrightarrow> read_run (logged_reader rd) ns b = (rs, b') \<Longrightarrow> limit_inv limit (got @ concat (map fst rs)) b'"
proof (induction ns arbitrary: got b rs)
  case (Cons n ns)
  then show ?case by (fastforce split: prod.splits dest: lb_Read_inv)
qed simp

section \<open>Properties\<close>

text \<open>
  Property C15 (the delegated clients act as the caller). When \<open>Authenticate\<close> accepts a token, the API server has confirmed that very token in this call and the principal is the user it named. Every client of
  the principal carries the caller's token and no credential of the server, no password and no impersonation; its time limit is positive
  and at most that of an operation; and the clients that read resources and discovery documents refuse responses beyond 8 MiB.
\<close>

theorem delegated_credentials:
  assumes "Authenticate api a token w = (Inr p, w')" and "0 < at_operationTimeout a" and "0 < at_requestTimeout a"
  shows "(\<exists>status. aa_review api token w = (Inr status, w') \<and> ts_Authenticated status \<and> ts_Error status = [] \<and>
      pr_Username p = ts_Username status \<and> pr_UID p = ts_UID status \<and> pr_Groups p = ts_Groups status \<and> pr_Extra p = ts_Extra status) \<and>
    (\<forall>c \<in> {pr_Config p, pr_Dynamic p, pr_Discovery p, pr_discoveryConfig p, pr_Kubernetes p}.
       only_token token c \<and> 0 < rc_Timeout c \<and> rc_Timeout c \<le> at_operationTimeout a) \<and>
    8388608 \<in> set (rc_Limits (pr_Dynamic p)) \<and> 8388608 \<in> set (rc_Limits (pr_Discovery p))"
proof -
  let ?c = "delegated_config a token"
  let ?d = "configWithTimeout ?c (at_requestTimeout a)"
  from assms(1) obtain status where st: "aa_review api token w = (Inr status, w')" "ts_Error status = []" "ts_Authenticated status"
    and p: "p = \<lparr>pr_Username = ts_Username status, pr_UID = ts_UID status, pr_Groups = ts_Groups status,
         pr_Extra = ts_Extra status, pr_Token = token, pr_Config = ?c, pr_Dynamic = configWithResponseLimit ?c 8388608,
         pr_Discovery = configWithResponseLimit ?d 8388608, pr_discoveryConfig = configWithResponseLimit ?d 8388608, pr_Kubernetes = ?c\<rparr>"
    by (auto simp: Authenticate_def Let_def maxDelegatedResourceResponseBytes_def split: prod.splits sum.splits if_splits option.splits)
  have t: "rc_Timeout (configWithResponseLimit x l) = rc_Timeout x" for x l by (simp add: configWithResponseLimit_def)
  have "rc_Timeout ?d \<le> at_operationTimeout a"
    using delegated_timeout [OF assms(2), of token] by (auto simp: configWithTimeout_def)
  moreover have "0 < rc_Timeout ?d" using configWithTimeout_bounds [OF assms(3), of ?c] by simp
  ultimately show ?thesis
    using st p delegated_timeout [OF assms(2), of token] by (simp add: t) (simp add: configWithResponseLimit_def)
qed

text \<open>
  Responses are limited. Whatever the upstream server sends, in whatever pieces, and with whatever buffers the client reads, at most \<open>limit\<close> bytes of a response that is not a watch are passed on.
  They are the first bytes that arrived; all arrived bytes are passed on unless the limit was really exceeded, and then
  every further read is an error.
\<close>

theorem response_limited:
  assumes "RoundTrip limit watch (Inr response) = Inr (Inr b0)" and "0 \<le> limit" and "resp_Body response = (r, [])"
    and "read_run (logged_reader rd) ns b0 = (rs, b)"
  shows "int (length (concat (map fst rs))) \<le> limit \<and> (\<exists>rest. snd (lb_body b) = concat (map fst rs) @ rest) \<and>
    (if lb_exceeded b
     then limit < int (length (snd (lb_body b))) \<and>
       (\<forall>n > 0. lb_Read (logged_reader rd) n b = (([], Some errDelegatedResourceResponseTooLarge), b))
     else snd (lb_body b) = concat (map fst rs))"
proof -
  have "limit_inv limit [] b0"
    using assms(1-3) by (auto simp: RoundTrip_def limit_inv_def split: if_splits)
  from read_run_inv [OF this assms(4)] show ?thesis
    by (auto simp: limit_inv_def Let_def lb_Read_def)
qed


section \<open>Witnesses\<close>

definition sample_rest :: restConfig where
  "sample_rest =
     \<lparr>rc_Host = ''https://10.0.0.1'', rc_BearerToken = ''server'', rc_BearerTokenFile = ''/token'', rc_Username = [], rc_Password = [],
      rc_Impersonate = [], rc_UserAgent = [], rc_Timeout = 0, rc_Limits = []\<rparr>"

definition sample_authenticator :: Authenticator where
  "sample_authenticator = \<lparr>at_base = sample_rest, at_requestTimeout = 30 * second, at_operationTimeout = minute\<rparr>"

definition alice_status :: tokenStatus where
  "alice_status =
     \<lparr>ts_Error = [], ts_Authenticated = True, ts_Username = ''alice'', ts_UID = ''1'', ts_Groups = [''dev'', ''ops''], ts_Extra = []\<rparr>"

definition sample_auth :: "unit authApi" where
  "sample_auth =
     \<lparr>aa_review = (\<lambda>token w. (Inr alice_status, w)), aa_dynamic = (\<lambda>c. None), aa_discovery = (\<lambda>c. None), aa_kubernetes = (\<lambda>c. None)\<rparr>"

definition alice :: Principal where
  "alice =
     \<lparr>pr_Username = ''alice'', pr_UID = ''1'', pr_Groups = [''dev'', ''ops''], pr_Extra = [], pr_Token = ''t'',
      pr_Config = delegated_config sample_authenticator ''t'',
      pr_Dynamic = configWithResponseLimit (delegated_config sample_authenticator ''t'') 8388608,
      pr_Discovery = configWithResponseLimit (configWithTimeout (delegated_config sample_authenticator ''t'') (30 * second)) 8388608,
      pr_discoveryConfig = configWithResponseLimit (configWithTimeout (delegated_config sample_authenticator ''t'') (30 * second)) 8388608,
      pr_Kubernetes = delegated_config sample_authenticator ''t''\<rparr>"

lemma alice_authenticated: "Authenticate sample_auth sample_authenticator ''t'' () = (Inr alice, ())"
  by (simp add: Authenticate_def sample_auth_def alice_status_def alice_def sample_authenticator_def Let_def maxDelegatedResourceResponseBytes_def)

theorem delegated_credentials_witness:
  "only_token ''t'' (pr_Kubernetes alice) \<and> only_token ''t'' (pr_Dynamic alice) \<and> 8388608 \<in> set (rc_Limits (pr_Dynamic alice))"
  using delegated_credentials [OF alice_authenticated] by (simp add: sample_authenticator_def)

definition string_reader :: "string reader" where
  "string_reader n s = ((take n s, if s = [] then Some (Plain ''EOF'') else None), drop n s)"

theorem response_limited_witness:
  "int (length (concat (map fst (fst (read_run (logged_reader string_reader) [2, 2, 2]
     \<lparr>lb_body = (''abcdef'', []), lb_remaining = 3, lb_exceeded = False\<rparr>))))) \<le> 3"
proof -
  let ?b = "\<lparr>lb_body = (''abcdef'', []), lb_remaining = 3, lb_exceeded = False\<rparr>"
  have "RoundTrip 3 [] (Inr \<lparr>resp_ContentLength = -1, resp_Body = (''abcdef'', [])\<rparr>) = Inr (Inr ?b)"
    by (simp add: RoundTrip_def isWatchRequest_def equal_fold_def fold_case.simps)
  from response_limited [OF this _ _ surjective_pairing [of "read_run (logged_reader string_reader) [2, 2, 2] ?b"]] show ?thesis by simp
qed

lemma nul_literal: "nul = CHR 0x00"
  by (simp add: nul_def char_of_def)


end
