(* ===== verification/Schema.thy ===== *)
theory Schema
  imports Capability Identity Ledger
begin

text \<open>
  OpenAPI schemas of resources (\<open>internal/server/schema.go\<close>) and the cache of the documents (\<open>internal/server/schema_cache.go\<close>).

  The expansion follows references between schemas, which may be cyclic, and threads a budget of nodes. The set \<open>seen\<close>
  of names under expansion makes it terminate: every followed reference adds a name of the document to it. \<open>schemaProperty\<close> in the
  source adds a reference to a shared map and deletes it again before it returns, which is the same as passing the larger set on.
\<close>

definition schema_prefix :: string where
  "schema_prefix = ''#/components/schemas/''"

text \<open>The names of the schemas of a document that are not in a list.\<close>

definition unseen :: "gmap \<Rightarrow> string list \<Rightarrow> nat" where
  "unseen S seen = card (fst ` set S - set seen)"

lemma unseen_Cons: "mget S name \<noteq> None \<Longrightarrow> name \<notin> set seen \<Longrightarrow> unseen S (name # seen) < unseen S seen"
  unfolding unseen_def by (rule psubset_card_mono) (auto simp: mget_None_iff)

section \<open>Expansion\<close>

definition maxSchemaExpansionNodes :: int where
  "maxSchemaExpansionNodes = 10000"

definition schemaTruncated :: gval where
  "schemaTruncated = GObj [(''truncated'', GBool True), (''reason'', GStr ''schema expansion budget reached'')]"

definition truncation_key :: string where
  "truncation_key = ''x-supek8smcp-truncated''"

definition nested_keys :: "string list" where
  "nested_keys = [''items'', ''additionalProperties'', ''oneOf'', ''anyOf'', ''allOf'']"

text \<open>The schema name of a local reference.\<close>

definition local_ref :: "gmap \<Rightarrow> string option" where
  "local_ref object =
     (case as_string (gfield object ''$ref'') of
        Some reference \<Rightarrow> if has_prefix reference schema_prefix then Some (trim_prefix reference schema_prefix) else None
      | None \<Rightarrow> None)"

lemma size_sort_fields: "size_list f (sort_fields kvs) = size_list f kvs"
proof -
  have "size_list f xs = sum_mset (image_mset (\<lambda>x. Suc (f x)) (mset xs))" for xs by (induction xs) auto
  then show ?thesis by (simp add: sort_fields_def)
qed

lemma size_map_or_nil: "size_list (size_prod (\<lambda>x. 0) size) (map_or_nil v) \<le> size v"
  by (cases v) (auto simp: map_or_nil_def)

lemma size_map_or_nil_less: "2 * size_list (size_prod (\<lambda>x. 0) size) (map_or_nil v) < Suc (Suc (Suc (Suc (2 * size v + n))))"
  using size_map_or_nil [of v] by linarith

text \<open>
  \<open>expandSchema\<close> and its three loops: over the elements of an array, over the properties and over the fields of an object. Each returns what
  is left of the budget. The fields of a map are visited in the order of their keys. In the last case of the loop over the fields the budget is
  positive, so that taking from it succeeds.
\<close>

function (sequential) expandSchema :: "gmap \<Rightarrow> gval \<Rightarrow> int \<Rightarrow> string list \<Rightarrow> int \<Rightarrow> gval \<times> int"
  and expand_items :: "gmap \<Rightarrow> gval list \<Rightarrow> int \<Rightarrow> string list \<Rightarrow> int \<Rightarrow> gval list \<times> int"
  and expand_properties :: "gmap \<Rightarrow> gmap \<Rightarrow> int \<Rightarrow> string list \<Rightarrow> int \<Rightarrow> gmap \<Rightarrow> gmap \<times> int"
  and expand_fields :: "gmap \<Rightarrow> gmap \<Rightarrow> int \<Rightarrow> string list \<Rightarrow> int \<Rightarrow> gmap \<Rightarrow> gmap \<times> int" where
  "expandSchema S value depth seen budget =
     (if depth < 0 \<or> budget \<le> 0 then (schemaTruncated, budget)
      else (case value of
         GArr xs \<Rightarrow> (case expand_items S xs depth seen (budget - 1) of (ys, b) \<Rightarrow> (GArr ys, b))
       | GObj kvs \<Rightarrow>
          (case local_ref kvs of
             Some name \<Rightarrow>
              (if name \<in> set seen then (GObj [(''$ref'', gfield kvs ''$ref''), (''recursive'', GBool True)], budget - 1)
               else (case mget S name of
                  Some target \<Rightarrow> expandSchema S target depth (name # seen) (budget - 1)
                | None \<Rightarrow> (case expand_fields S (sort_fields kvs) depth seen (budget - 1) [] of (m, b) \<Rightarrow> (GObj m, b))))
           | None \<Rightarrow> (case expand_fields S (sort_fields kvs) depth seen (budget - 1) [] of (m, b) \<Rightarrow> (GObj m, b)))
       | v \<Rightarrow> (v, budget - 1)))"
| "expand_items S [] depth seen budget = ([], budget)"
| "expand_items S (x # xs) depth seen budget =
     (if budget \<le> 0 then ([schemaTruncated], budget)
      else (case expandSchema S x depth seen budget of (y, b) \<Rightarrow>
            case expand_items S xs depth seen b of (ys, b') \<Rightarrow> (y # ys, b')))"
| "expand_properties S [] depth seen budget expanded = (expanded, budget)"
| "expand_properties S ((property, v) # props) depth seen budget expanded =
     (if budget \<le> 0 then (mput expanded truncation_key schemaTruncated, budget)
      else (case expandSchema S v (depth - 1) seen budget of (y, b) \<Rightarrow>
            expand_properties S props depth seen b (mput expanded property y)))"
| "expand_fields S [] depth seen budget result = (result, budget)"
| "expand_fields S ((key, child) # kvs) depth seen budget result =
     (if budget \<le> 0 then (mput result truncation_key (GBool True), budget)
      else if key = ''properties'' then
        (case expand_properties S (sort_fields (map_or_nil child)) depth seen budget [] of (m, b) \<Rightarrow>
           expand_fields S kvs depth seen b (mput result key (GObj m)))
      else if key \<in> set nested_keys then
        (case expandSchema S child (depth - 1) seen budget of (y, b) \<Rightarrow> expand_fields S kvs depth seen b (mput result key y))
      else expand_fields S kvs depth seen (budget - 1) (mput result key child))"
  by pat_completeness auto

termination
proof (relation "measures [\<lambda>x. case x of
      Inl (Inl (S, v, d, seen, b)) \<Rightarrow> unseen S seen | Inl (Inr (S, xs, d, seen, b)) \<Rightarrow> unseen S seen
    | Inr (Inl (S, ps, d, seen, b, m)) \<Rightarrow> unseen S seen | Inr (Inr (S, fs, d, seen, b, m)) \<Rightarrow> unseen S seen,
   \<lambda>x. case x of
      Inl (Inl (S, v, d, seen, b)) \<Rightarrow> 2 * size v | Inl (Inr (S, xs, d, seen, b)) \<Rightarrow> 2 * size_list size xs
    | Inr (Inl (S, ps, d, seen, b, m)) \<Rightarrow> 2 * size_list (size_prod (\<lambda>x. 0) size) ps
    | Inr (Inr (S, fs, d, seen, b, m)) \<Rightarrow> 2 * size_list (size_prod (\<lambda>x. 0) size) fs]", goal_cases)
qed (auto simp: size_sort_fields size_map_or_nil_less intro: unseen_Cons)

declare expandSchema.simps [simp del]

lemmas expand_induct = expandSchema_expand_items_expand_properties_expand_fields.induct

section \<open>Selection\<close>

definition schemaMatchesGVK :: "gmap \<Rightarrow> Capability \<Rightarrow> bool" where
  "schemaMatchesGVK candidate capability =
     list_ex (\<lambda>raw. let gvk = map_or_nil raw in
         string_or_empty (gfield gvk ''group'') = cap_Group capability \<and>
         string_or_empty (gfield gvk ''version'') = cap_Version capability \<and>
         string_or_empty (gfield gvk ''kind'') = cap_Kind capability)
       (list_or_nil (gfield candidate ''x-kubernetes-group-version-kind''))"

text \<open>The first combinator with a match decides: one match is the result, several are combined again.\<close>

fun first_match :: "(string \<times> gmap list) list \<Rightarrow> gmap option" where
  "first_match [] = None"
| "first_match ((combinator, matches) # rest) =
     (case matches of
        [] \<Rightarrow> first_match rest
      | [found] \<Rightarrow> Some found
      | _ \<Rightarrow> Some [(combinator, GArr (map GObj matches))])"

definition combinators :: "string list" where
  "combinators = [''allOf'', ''oneOf'', ''anyOf'']"

lemma size_branch [termination_simp]:
  assumes "raw \<in> set (list_or_nil (gfield current k))" "as_map raw = Some branch"
  shows "size_list (size_prod (\<lambda>x. 0) size) branch < size_list (size_prod (\<lambda>x. 0) size) current"
proof -
  obtain xs where xs: "mget current k = Some (GArr xs)" "raw \<in> set xs"
    using assms(1) by (auto simp: gfield_def list_or_nil_def split: option.splits gval.splits)
  have raw: "raw = GObj branch" using assms(2) by (cases raw) (auto simp: as_map_def)
  have "size_list (size_prod (\<lambda>x. 0) size) branch < size raw" by (simp add: raw)
  moreover have "size raw < size (GArr xs)" using size_list_estimation' [OF xs(2), of "size raw" size] by simp
  moreover have "size (GArr xs) < Suc (size_list (size_prod (\<lambda>x. 0) size) current)" by (rule size_pair_in_set [OF mget_in_set [OF xs(1)]])
  ultimately show ?thesis by linarith
qed

text \<open>The property of a schema with a given name: its own, that of the schema it refers to, or that of its combined branches.\<close>

function schemaProperty :: "gmap \<Rightarrow> gmap \<Rightarrow> string \<Rightarrow> string list \<Rightarrow> gmap option" where
  "schemaProperty S current name seenRefs =
     (case as_map (gfield (map_or_nil (gfield current ''properties'')) name) of
        Some property \<Rightarrow> Some property
      | None \<Rightarrow>
        (let referred =
           (case local_ref current of
              None \<Rightarrow> None
            | Some target \<Rightarrow>
               if target \<in> set seenRefs then None
               else (case mget S target of
                  Some (GObj m) \<Rightarrow> schemaProperty S m name (target # seenRefs)
                | _ \<Rightarrow> None))
         in case referred of
              Some property \<Rightarrow> Some property
            | None \<Rightarrow>
               first_match (map (\<lambda>combinator.
                 (combinator, List.map_filter (\<lambda>found. found)
                    (map (\<lambda>raw. case as_map raw of Some branch \<Rightarrow> schemaProperty S branch name seenRefs | None \<Rightarrow> None)
                      (list_or_nil (gfield current combinator))))) combinators)))"
  by pat_completeness auto

termination
  by (relation "measures [\<lambda>(S, current, name, seen). unseen S seen, \<lambda>(S, current, name, seen). size_list (size_prod (\<lambda>x. 0) size) current]")
    (auto intro: unseen_Cons size_branch)

declare schemaProperty.simps [simp del]

fun schema_path :: "gmap \<Rightarrow> gmap \<Rightarrow> string list \<Rightarrow> gmap option" where
  "schema_path S current [] = Some current"
| "schema_path S current (part # parts) =
     (case schemaProperty S current part [] of None \<Rightarrow> None | Some next_schema \<Rightarrow> schema_path S next_schema parts)"

text \<open>The first schema in the iteration order that matches the kind; the loop over the document's schemas has no fixed order.\<close>

definition select_schema :: "gmap \<Rightarrow> Capability \<Rightarrow> gmap option" where
  "select_schema S capability =
     List.find (\<lambda>candidate. schemaMatchesGVK candidate capability) (List.map_filter (\<lambda>(k, raw). as_map raw) S)"

definition schemaFromDocument :: "gmap \<Rightarrow> Capability \<Rightarrow> string \<Rightarrow> int \<Rightarrow> (gerr, gval) res" where
  "schemaFromDocument document capability fieldPath depth =
     (let S = map_or_nil (gfield (map_or_nil (gfield document ''components'')) ''schemas'') in
      case select_schema S capability of
        None \<Rightarrow> Inr (GObj [(''available'', GBool False), (''reason'', GStr ''resource has no structural OpenAPI v3 schema'')])
      | Some selected \<Rightarrow>
         (case (if fieldPath = [] then Some selected else schema_path S selected (split_on CHR ''.'' fieldPath)) of
            None \<Rightarrow> Inl (policyError ''schema_path_not_found'' (''field path '' @ go_quote fieldPath @ '' does not exist''))
          | Some target \<Rightarrow> Inr (fst (expandSchema S (GObj target) depth [] maxSchemaExpansionNodes))))"

section \<open>The document cache\<close>

definition schemaCacheMaxBytes :: int where
  "schemaCacheMaxBytes = 33554432"

record schemaCacheKey =
  sk_credential :: string
  sk_Group :: string
  sk_Version :: string

record schemaCacheEntry =
  se_document :: gmap
  se_expires :: instant
  se_bytes :: int

record schemaCache =
  sc_entries :: "(schemaCacheKey \<times> schemaCacheEntry) list"
  sc_bytes :: int

definition newSchemaCache :: schemaCache where
  "newSchemaCache = \<lparr>sc_entries = [], sc_bytes = 0\<rparr>"

definition sc_put :: "schemaCache \<Rightarrow> schemaCacheKey \<Rightarrow> schemaCacheEntry \<Rightarrow> schemaCache" where
  "sc_put c key entry = c\<lparr>sc_entries := mput (sc_entries c) key entry, sc_bytes := sc_bytes c + se_bytes entry\<rparr>"

definition sc_delete :: "schemaCache \<Rightarrow> schemaCacheKey \<Rightarrow> schemaCacheEntry \<Rightarrow> schemaCache" where
  "sc_delete c key entry = c\<lparr>sc_entries := mdel (sc_entries c) key, sc_bytes := sc_bytes c - se_bytes entry\<rparr>"

definition schema_key :: "(string \<Rightarrow> string) \<Rightarrow> Principal \<Rightarrow> string \<Rightarrow> string \<Rightarrow> schemaCacheKey" where
  "schema_key sha caller g v =
     \<lparr>sk_credential = sha (SubjectKey sha caller @ [nul] @ pr_Token caller), sk_Group = g, sk_Version = v\<rparr>"

text \<open>
  The two critical sections of \<open>load\<close>; the request to the API server is between them, without the lock. A cache is never nil in
  a server that \<open>NewApp\<close> made.
\<close>

definition schema_lookup :: "instant \<Rightarrow> schemaCacheKey \<Rightarrow> schemaCache \<Rightarrow> schemaCacheEntry option \<times> schemaCache" where
  "schema_lookup now key c =
     (let c1 = sweep sc_delete (\<lambda>entry. time_after now (se_expires entry)) (sc_entries c) c in (mget (sc_entries c1) key, c1))"

definition document_bytes :: "gmap \<Rightarrow> int" where
  "document_bytes document = int (length (json_marshal (GObj document))) * 4"

definition schema_store :: "instant \<Rightarrow> schemaCacheKey \<Rightarrow> gmap \<Rightarrow> schemaCache \<Rightarrow> schemaCache" where
  "schema_store now key document c =
     (let size = document_bytes document in
      if mget (sc_entries c) key = None \<and> length (sc_entries c) < 64 \<and> size \<le> schemaCacheMaxBytes - sc_bytes c
      then sc_put c key \<lparr>se_document = document, se_expires = now + 5 * minute, se_bytes = size\<rparr> else c)"

record 'w schemaApi =
  sa_ctx_err :: "'w \<Rightarrow> gerr option"
  sa_client :: "Principal \<Rightarrow> ('w, gerr, unit) io"
  sa_spec :: "Principal \<Rightarrow> string \<Rightarrow> string \<Rightarrow> ('w, gerr, gmap) io"

definition fetch_schema :: "'w schemaApi \<Rightarrow> Principal \<Rightarrow> string \<Rightarrow> string \<Rightarrow> ('w, gerr, gmap) io" where
  "fetch_schema api caller g v =
     bindE (sa_client api caller) (\<lambda>_.
     bindE (tryE (sa_spec api caller g v)) (\<lambda>r w.
       case sa_ctx_err api w of
         Some e \<Rightarrow> (Inl e, w)
       | None \<Rightarrow> (case r of Inl e \<Rightarrow> (Inl (Wrapped ''load OpenAPI v3 schema'' e), w) | Inr document \<Rightarrow> (Inr document, w))))"

definition load_schema ::
  "(string \<Rightarrow> string) \<Rightarrow> 'w schemaApi \<Rightarrow> instant \<Rightarrow> instant \<Rightarrow> Principal \<Rightarrow> string \<Rightarrow> string \<Rightarrow> (schemaCache \<times> 'w, gerr, gmap) io" where
  "load_schema sha api now now' caller g v = (\<lambda>(c, w).
     let key = schema_key sha caller g v;
         (hit, c1) = (if pr_Token caller \<noteq> [] then schema_lookup now key c else (None, c))
     in case hit of
          Some entry \<Rightarrow> (Inr (se_document entry), (c1, w))
        | None \<Rightarrow>
           (case fetch_schema api caller g v w of
              (Inl e, w') \<Rightarrow> (Inl e, (c1, w'))
            | (Inr document, w') \<Rightarrow>
               (Inr document, (if pr_Token caller \<noteq> [] then schema_store now' key document c1 else c1, w'))))"

definition schemaForCapability ::
  "(string \<Rightarrow> string) \<Rightarrow> 'w schemaApi \<Rightarrow> instant \<Rightarrow> instant \<Rightarrow> Principal \<Rightarrow> Capability \<Rightarrow> string \<Rightarrow> int \<Rightarrow> (schemaCache \<times> 'w, gerr, gval) io" where
  "schemaForCapability sha api now now' caller capability fieldPath depth = (\<lambda>(c, w).
     case sa_ctx_err api w of
       Some e \<Rightarrow> (Inl e, (c, w))
     | None \<Rightarrow>
        bindE (load_schema sha api now now' caller (cap_Group capability) (cap_Version capability))
          (\<lambda>document. liftR (schemaFromDocument document capability fieldPath depth)) (c, w))"

text \<open>
  The states that the cache can reach when any number of requests interleave their critical sections, with the history of what was
  stored under which key and when.
\<close>

inductive cache_run :: "(schemaCacheKey \<times> gmap \<times> instant) set \<Rightarrow> schemaCache \<Rightarrow> bool" where
  Start: "cache_run {} newSchemaCache"
| Lookup: "cache_run H c \<Longrightarrow> cache_run H (snd (schema_lookup now key c))"
| Store: "cache_run H c \<Longrightarrow> cache_run (insert (key, document, now) H) (schema_store now key document c)"

interpretation sc: byte_ledger sc_entries sc_bytes se_bytes sc_put sc_delete
  by unfold_locales (simp_all add: sc_put_def sc_delete_def)

section \<open>Lemmas: the budget\<close>

lemma expand_budget:
  "snd (expandSchema S v d seen b) \<le> b \<and> min b 0 \<le> snd (expandSchema S v d seen b)"
  "snd (expand_items S xs d seen b) \<le> b \<and> min b 0 \<le> snd (expand_items S xs d seen b)"
  "snd (expand_properties S ps d seen b m) \<le> b \<and> min b 0 \<le> snd (expand_properties S ps d seen b m)"
  "snd (expand_fields S fs d seen b m) \<le> b \<and> min b 0 \<le> snd (expand_fields S fs d seen b m)"
proof (induction S v d seen b and S xs d seen b and S ps d seen b m and S fs d seen b m rule: expand_induct)
  case (1 S v0 depth seen budget)
  then show ?case
    by (subst (1 2) expandSchema.simps) (simp add: split_beta split: gval.splits option.splits, force?)
next
  case (7 S key child kvs depth seen budget result)
  then show ?case by (auto split: prod.splits)
qed (fastforce split: prod.splits)+

lemma expand_left:
  "expandSchema S v d seen b = (y, b1) \<Longrightarrow> b1 \<le> b" "expand_items S xs d seen b = (ys, b1) \<Longrightarrow> b1 \<le> b"
  "expand_properties S ps d seen b m = (m1, b1) \<Longrightarrow> b1 \<le> b" "expand_fields S fs d seen b m = (m1, b1) \<Longrightarrow> b1 \<le> b"
  using expand_budget by (metis snd_conv)+

text \<open>Where the budget is not used up, more of it does not change the result.\<close>

lemma expand_more_budget:
  "expandSchema S v d seen b = (y, b1) \<Longrightarrow> 0 < b1 \<Longrightarrow> c = b + k \<Longrightarrow> 0 \<le> k \<Longrightarrow> expandSchema S v d seen c = (y, b1 + k)"
  "expand_items S xs d seen b = (ys, b1) \<Longrightarrow> 0 < b1 \<Longrightarrow> c = b + k \<Longrightarrow> 0 \<le> k \<Longrightarrow> expand_items S xs d seen c = (ys, b1 + k)"
  "expand_properties S ps d seen b m = (m1, b1) \<Longrightarrow> 0 < b1 \<Longrightarrow> c = b + k \<Longrightarrow> 0 \<le> k \<Longrightarrow> expand_properties S ps d seen c m = (m1, b1 + k)"
  "expand_fields S fs d seen b m = (m1, b1) \<Longrightarrow> 0 < b1 \<Longrightarrow> c = b + k \<Longrightarrow> 0 \<le> k \<Longrightarrow> expand_fields S fs d seen c m = (m1, b1 + k)"
proof (induction S v d seen b and S xs d seen b and S ps d seen b m and S fs d seen b m
    arbitrary: y b1 c and ys b1 c and m1 b1 c and m1 b1 c rule: expand_induct)
  case (1 S v0 depth seen budget)
  show ?case
  proof (cases "depth < 0 \<or> budget \<le> 0")
    case True
    then show ?thesis using "1.prems" by (auto simp: expandSchema.simps [of S v0 depth seen])
  next
    case False
    have c: "c - 1 = budget - 1 + k" "\<not> c \<le> 0" using "1.prems" False by auto
    note IH = 1(1-4) [where c = "c - 1", OF False]
    show ?thesis using "1.prems"(1,2,4) False c
      unfolding expandSchema.simps [of S v0 depth seen budget] expandSchema.simps [of S v0 depth seen c]
      by (auto split: gval.splits option.splits prod.splits if_splits dest: IH)
  qed
next
  case (3 S x xs depth seen budget)
  obtain y b where e: "expandSchema S x depth seen budget = (y, b)" by (cases "expandSchema S x depth seen budget")
  show ?case using 3 e by (auto split: prod.splits if_splits dest: expand_left)
next
  case (5 S property v props depth seen budget expanded)
  obtain y b where e: "expandSchema S v (depth - 1) seen budget = (y, b)" by (cases "expandSchema S v (depth - 1) seen budget")
  show ?case using 5 e by (auto split: if_splits dest: expand_left)
next
  case (7 S key child kvs depth seen budget result)
  obtain m b where m: "expand_properties S (sort_fields (map_or_nil child)) depth seen budget [] = (m, b)"
    by (cases "expand_properties S (sort_fields (map_or_nil child)) depth seen budget []")
  obtain y b' where y: "expandSchema S child (depth - 1) seen budget = (y, b')" by (cases "expandSchema S child (depth - 1) seen budget")
  have eq: "budget + k - 1 = budget - 1 + k" by simp
  show ?case using 7 m y by (auto simp: eq split: if_splits dest: expand_left)
qed auto

section \<open>Lemmas: the cache\<close>

definition cache_inv :: "(schemaCacheKey \<times> gmap \<times> instant) set \<Rightarrow> schemaCache \<Rightarrow> bool" where
  "cache_inv H c =
     (balanced sc_entries sc_bytes se_bytes c \<and> sc_bytes c \<le> schemaCacheMaxBytes \<and> length (sc_entries c) \<le> 64 \<and>
      (\<forall>key entry. mget (sc_entries c) key = Some entry \<longrightarrow>
         (\<exists>t. (key, se_document entry, t) \<in> H \<and> se_expires entry = t + 5 * minute)))"

lemma cache_inv_delete:
  assumes "cache_inv H c" "mget (sc_entries c) key = Some entry"
  shows "cache_inv H (sc_delete c key entry)"
proof -
  have b: "balanced sc_entries sc_bytes se_bytes c" using assms(1) by (simp add: cache_inv_def)
  have "0 \<le> se_bytes entry" using sc.balanced_member_le [OF b assms(2)] by simp
  then show ?thesis
    using assms sc.balanced_remove [OF b assms(2)] length_mdel_le [of "sc_entries c" key]
    by (auto simp: cache_inv_def sc.entries_remove sc.used_remove)
qed

lemma cache_inv_wf: "cache_inv H c \<Longrightarrow> mwf (sc_entries c)"
  by (simp add: cache_inv_def balanced_def)

lemma cache_inv_lookup: "cache_inv H c \<Longrightarrow> cache_inv H (snd (schema_lookup now key c))"
  unfolding schema_lookup_def Let_def snd_conv
  by (rule sc.sweep_all_invariant [where I = "cache_inv H"]) (simp_all add: cache_inv_delete cache_inv_wf)

lemma cache_inv_store:
  assumes "cache_inv H c"
  shows "cache_inv (insert (key, document, now) H) (schema_store now key document c)"
proof -
  let ?e = "\<lparr>se_document = document, se_expires = now + 5 * minute, se_bytes = document_bytes document\<rparr>"
  have weaken: "cache_inv (insert (key, document, now) H) c" using assms by (fastforce simp: cache_inv_def)
  show ?thesis
  proof (cases "mget (sc_entries c) key = None \<and> length (sc_entries c) < 64 \<and> document_bytes document \<le> schemaCacheMaxBytes - sc_bytes c")
    case True
    then have "balanced sc_entries sc_bytes se_bytes (sc_put c key ?e)"
      using assms by (intro sc.balanced_add) (simp_all add: cache_inv_def document_bytes_def)
    then show ?thesis using True weaken
      by (auto simp: schema_store_def cache_inv_def sc.entries_add sc.used_add length_mput Let_def)
  next
    case False
    then have "schema_store now key document c = c" by (auto simp: schema_store_def Let_def)
    then show ?thesis using weaken by simp
  qed
qed

lemma cache_run_inv: "cache_run H c \<Longrightarrow> cache_inv H c"
  by (induction rule: cache_run.induct)
    (auto simp: cache_inv_lookup cache_inv_store, simp add: cache_inv_def newSchemaCache_def balanced_def schemaCacheMaxBytes_def)

lemma nul_not_hex: "nul \<notin> set (hex_encode s)"
proof -
  have z: "(of_char nul :: nat) = 0" by (simp add: nul_def)
  have d: "nul \<noteq> hex_digit d" if "d < 16" for d
  proof
    assume "nul = hex_digit d"
    with z have "(of_char (hex_digit d) :: nat) = 0" by metis
    then show False using of_char_hex_digit [OF that] by (simp split: if_splits)
  qed
  have "(of_char c :: nat) div 16 < 16" for c :: char
    by (rule less_mult_imp_div_less) simp
  then show ?thesis using d by (auto simp: hex_encode_def hex2_def)
qed

lemma append_nul_inj: "a @ [nul] @ x = b @ [nul] @ y \<Longrightarrow> nul \<notin> set a \<Longrightarrow> nul \<notin> set b \<Longrightarrow> a = b \<and> x = y"
proof (induction a arbitrary: b)
  case Nil
  then show ?case by (cases b) auto
next
  case (Cons c a)
  then show ?case by (cases b) auto
qed

lemma schema_key_inj:
  assumes "inj sha" "schema_key sha p g v = schema_key sha q g' v'"
  shows "SubjectKey sha p = SubjectKey sha q \<and> pr_Token p = pr_Token q \<and> g = g' \<and> v = v'"
  using assms append_nul_inj [of "SubjectKey sha p" "pr_Token p" "SubjectKey sha q" "pr_Token q"]
  by (auto simp: schema_key_def inj_def SubjectKey_def nul_not_hex)

section \<open>Properties\<close>


text \<open>
  The schema cache. However the requests interleave, the cache holds at most 64 documents and 32 MiB, its byte counter is exact, and a hit is a document that was stored under the
  same key at most five minutes ago. Keys of different credentials differ, as long as SHA-256 does not collide: a hit never comes from
  the document of another user or another token.
\<close>

theorem schema_cache_contract:
  assumes "cache_run H c" and "inj sha"
  shows "sc_bytes c = msum se_bytes (sc_entries c) \<and> sc_bytes c \<le> 33554432 \<and> length (sc_entries c) \<le> 64 \<and>
    (\<forall>entry. fst (schema_lookup now (schema_key sha p g v) c) = Some entry \<longrightarrow>
       (\<exists>t. (schema_key sha p g v, se_document entry, t) \<in> H \<and> now \<le> t + 5 * minute)) \<and>
    (schema_key sha p g v = schema_key sha q g' v' \<longrightarrow>
       SubjectKey sha p = SubjectKey sha q \<and> pr_Token p = pr_Token q \<and> g = g' \<and> v = v')"
proof -
  have inv: "cache_inv H c" by (rule cache_run_inv [OF assms(1)])
  then have wf: "mwf (sc_entries c)" by (rule cache_inv_wf)
  have "\<exists>t. (key, se_document entry, t) \<in> H \<and> now \<le> t + 5 * minute" if "fst (schema_lookup now key c) = Some entry" for key entry
  proof -
    have "mget (filter (\<lambda>(k, e). \<not> se_expires e < now) (sc_entries c)) key = Some entry"
      using that sc.sweep_entries [OF wf, of "\<lambda>e. se_expires e < now"] by (simp add: schema_lookup_def Let_def)
    then have "mget (sc_entries c) key = Some entry" "\<not> se_expires entry < now"
      by (auto simp: mget_filter [OF wf] split: option.splits if_splits)
    then show ?thesis using inv by (fastforce simp: cache_inv_def)
  qed
  moreover have "sc_bytes c = msum se_bytes (sc_entries c)" "sc_bytes c \<le> 33554432" "length (sc_entries c) \<le> 64"
    using inv by (simp_all add: cache_inv_def balanced_def schemaCacheMaxBytes_def)
  ultimately show ?thesis using schema_key_inj [OF assms(2)] by blast
qed

section \<open>Witnesses\<close>

definition cyclic_schema :: gval where
  "cyclic_schema = GObj [(''$ref'', GStr ''#/components/schemas/A'')]"

lemma cyclic_expansion:
  "expandSchema [(''A'', cyclic_schema)] cyclic_schema 2 [] 10 =
   (GObj [(''$ref'', GStr ''#/components/schemas/A''), (''recursive'', GBool True)], 8)"
proof -
  have ref: "local_ref [(''$ref'', GStr ''#/components/schemas/A'')] = Some ''A''"
    by (simp add: local_ref_def gfield_def mget_def as_string_def schema_prefix_def has_prefix_def trim_prefix_def)
  have "expandSchema [(''A'', cyclic_schema)] cyclic_schema 2 [] 10 = expandSchema [(''A'', cyclic_schema)] cyclic_schema 2 [''A''] 9"
    by (simp add: expandSchema.simps [of _ _ _ "[]"] cyclic_schema_def ref mget_def)
  also have "\<dots> = (GObj [(''$ref'', GStr ''#/components/schemas/A''), (''recursive'', GBool True)], 8)"
    by (simp add: expandSchema.simps [of _ _ _ "[''A'']"] cyclic_schema_def ref mget_def gfield_def)
  finally show ?thesis .
qed


theorem schema_cache_contract_witness:
  "length (sc_entries (schema_store 100 (schema_key (\<lambda>t. t) alice ''apps'' ''v1'') [] newSchemaCache)) \<le> 64"
  using schema_cache_contract [OF cache_run.Store [OF cache_run.Start], of "\<lambda>t. t"] by (simp add: inj_def)

end
