(* ===== verification/Redaction.thy ===== *)
theory Redaction
  imports Policy "HOL-Library.Multiset"
begin

text \<open>
  Redaction of secrets and annotations, and the bound on the size of tool output (\<open>internal/server/redaction.go\<close>).

  The two regular expressions are matched as Go's RE2 matches them without a bound on the position: on the case-folded text (with
  \<open>(?i)\<close> the Kelvin sign matches k and the long s matches s), an alternative, then up to four runes that are not
  ASCII letters or digits, then a colon or an equals sign.
\<close>

definition redacted :: gval where
  "redacted = GStr ''<redacted>''"

section \<open>Sensitive annotations\<close>

definition is_alnum :: "char \<Rightarrow> bool" where
  "is_alnum c = (let n = (of_char c :: nat) in (48 \<le> n \<and> n \<le> 57) \<or> (65 \<le> n \<and> n \<le> 90) \<or> (97 \<le> n \<and> n \<le> 122))"

text \<open>\<open>[^[:alnum:]]{0,n}[:=]\<close> at the front of a text.\<close>

function assign_tail :: "nat \<Rightarrow> string \<Rightarrow> bool" where
  "assign_tail n [] = False"
| "assign_tail n (c # s) =
     (c = CHR '':'' \<or> c = CHR ''='' \<or>
      (0 < n \<and> \<not> is_alnum c \<and> assign_tail (n - 1) (drop (rune_width (c # s) - 1) s)))"
  by pat_completeness auto
termination
  by (relation "measure (\<lambda>(n, s). length s)") auto

definition assignment_words :: "string list" where
  "assignment_words =
     [''apikey'', ''api.key'', ''api_key'', ''api-key'', ''token'', ''password'', ''passwd'', ''secret'',
      ''accesskey'', ''access.key'', ''access_key'', ''access-key'', ''privatekey'', ''private.key'', ''private_key'', ''private-key'',
      ''clientsecret'', ''client.secret'', ''client_secret'', ''client-secret'', ''credential'']"

fun suffixes_of :: "string \<Rightarrow> string list" where
  "suffixes_of [] = [[]]"
| "suffixes_of (c # s) = (c # s) # suffixes_of s"

definition sensitiveAnnotationAssignment :: "string \<Rightarrow> bool" where
  "sensitiveAnnotationAssignment t =
     list_ex (\<lambda>u. list_ex (\<lambda>w. has_prefix u w \<and> assign_tail 4 (drop (length w) u)) assignment_words) (suffixes_of (fold_case t))"

text \<open>The rune before \<open>key\<close> is not a letter, a digit or an underscore; its last byte tells.\<close>

definition key_at :: "string \<Rightarrow> bool" where
  "key_at u = (has_prefix u ''key'' \<and> assign_tail 4 (drop 3 u))"

definition sensitiveBareKeyAssignment :: "string \<Rightarrow> bool" where
  "sensitiveBareKeyAssignment t =
     (let s = fold_case t
      in key_at s \<or> list_ex (\<lambda>u. case u of [] \<Rightarrow> False | c # v \<Rightarrow> \<not> is_alnum c \<and> c \<noteq> CHR ''_'' \<and> key_at v) (suffixes_of s))"

definition name_markers :: "string list" where
  "name_markers =
     [''api_key'', ''apikey'', ''token'', ''password'', ''passwd'', ''secret'', ''access_key'', ''private_key'', ''client_secret'', ''credential'']"

definition sensitiveAnnotationName :: "string \<Rightarrow> bool" where
  "sensitiveAnnotationName name =
     (let normalized = map (\<lambda>c. if c = CHR ''-'' \<or> c = CHR ''.'' \<or> c = CHR ''/'' then CHR ''_'' else c) (to_lower name)
      in list_ex (contains normalized) name_markers \<or>
         normalized = ''key'' \<or> has_suffix normalized ''_key'' \<or> contains normalized ''_key_'')"

definition sensitive_annotation :: "string \<Rightarrow> gval \<Rightarrow> bool" where
  "sensitive_annotation key raw =
     (sensitiveAnnotationName key \<or>
      (case as_string raw of Some text \<Rightarrow> sensitiveAnnotationAssignment text \<or> sensitiveBareKeyAssignment text | None \<Rightarrow> False))"

definition redactAnnotationMap :: "gval \<Rightarrow> gval" where
  "redactAnnotationMap value =
     (case as_map value of
        None \<Rightarrow> value
      | Some annotations \<Rightarrow> GObj (map (\<lambda>(key, raw). (key, if sensitive_annotation key raw then redacted else raw)) annotations))"

fun redactSensitiveAnnotations :: "gval \<Rightarrow> bool \<Rightarrow> gval" where
  "redactSensitiveAnnotations (GObj kvs) metadata =
     GObj (map (\<lambda>(key, child).
       (key, if metadata \<and> key = ''annotations'' then redactAnnotationMap child
             else redactSensitiveAnnotations child (key = ''metadata''))) kvs)"
| "redactSensitiveAnnotations (GArr xs) metadata = GArr (map (\<lambda>child. redactSensitiveAnnotations child False) xs)"
| "redactSensitiveAnnotations value metadata = value"

section \<open>Secrets\<close>

definition redact_values :: "gmap \<Rightarrow> gval" where
  "redact_values values_map = GObj (map (\<lambda>(key, v). (key, redacted)) values_map)"

definition redact_field :: "gmap \<Rightarrow> string \<Rightarrow> gmap" where
  "redact_field m field =
     (case as_map (gfield m field) of None \<Rightarrow> m | Some values_map \<Rightarrow> mput m field (redact_values values_map))"

definition redact_metadata :: "gmap \<Rightarrow> gmap" where
  "redact_metadata copy =
     (case as_map (gfield copy ''metadata'') of
        None \<Rightarrow> copy
      | Some metadata \<Rightarrow>
         (case as_map (gfield metadata ''annotations'') of
            None \<Rightarrow> copy
          | Some annotations \<Rightarrow>
             mput copy ''metadata'' (GObj (mput metadata ''annotations'' (redact_values annotations)))))"

definition redactSecret :: "gmap \<Rightarrow> gmap" where
  "redactSecret secret = redact_metadata (foldl redact_field secret [''data'', ''stringData'', ''binaryData''])"

definition redactSecretCollection :: "gval \<Rightarrow> gval" where
  "redactSecretCollection value =
     (case as_map value of
        None \<Rightarrow> value
      | Some object \<Rightarrow>
         (case as_list (gfield object ''items'') of
            Some items \<Rightarrow>
              GObj (mput object ''items'' (GArr (map (\<lambda>item. case as_map item of Some secret \<Rightarrow> GObj (redactSecret secret) | None \<Rightarrow> item) items)))
          | None \<Rightarrow> GObj (redactSecret object)))"

definition redactResult :: "gval \<Rightarrow> Action \<Rightarrow> SensitiveReadPolicy \<Rightarrow> (gerr, gval) res" where
  "redactResult value action policy =
     (let is_secret = (act_Group action = [] \<and> act_Resource action = ''secrets'');
          is_token = (act_Group action = [] \<and> act_Resource action = ''serviceaccounts'' \<and> act_Subresource action = ''token'')
      in if is_secret \<and> policy = SensitiveReadDeny
           then Inl (policyError ''sensitive_read_denied'' ''Secret reads are disabled by policy'')
         else if is_token \<and> policy \<noteq> SensitiveReadAllow
           then Inl (policyError ''sensitive_read_denied'' ''ServiceAccount token output requires sensitiveReads=Allow'')
         else Inr (redactSensitiveAnnotations
                (if is_secret \<and> policy = SensitiveReadRedact then redactSecretCollection value else value) False))"

section \<open>Bounded output\<close>

definition preview_bytes :: "int \<Rightarrow> nat \<Rightarrow> nat" where
  "preview_bytes limit n = nat (min (max 0 (quot (wrap64 (wrap64 (limit - 256) * 3)) 4)) (int n))"

definition boundedValue :: "gval \<Rightarrow> int \<Rightarrow> gval" where
  "boundedValue value limit =
     (let data = json_marshal value
      in if int (length data) \<le> limit then value
         else GObj [(''truncated'', GBool True), (''originalBytes'', GInt (int (length data))),
                (''previewEncoding'', GStr ''base64-json-prefix''),
                (''preview'', GStr (b64_encode StdAlphabet (take (preview_bytes limit (length data)) data)))])"

definition boundedOutput :: "gmap \<Rightarrow> int \<Rightarrow> gmap" where
  "boundedOutput value limit =
     (case as_map (boundedValue (GObj value) limit) of Some output \<Rightarrow> output
      | None \<Rightarrow> [(''value'', boundedValue (GObj value) limit)])"

section \<open>Lemmas: secrets\<close>

text \<open>What redaction does to the value of one field of a secret.\<close>

definition hide_data :: "gval \<Rightarrow> gval" where
  "hide_data v = (case as_map v of Some d \<Rightarrow> redact_values d | None \<Rightarrow> v)"

definition hide_metadata :: "gval \<Rightarrow> gval" where
  "hide_metadata v =
     (case as_map v of None \<Rightarrow> v
      | Some m \<Rightarrow> (case as_map (gfield m ''annotations'') of None \<Rightarrow> v
                  | Some a \<Rightarrow> GObj (mput m ''annotations'' (redact_values a))))"

definition hide :: "string \<Rightarrow> gval \<Rightarrow> gval" where
  "hide k v =
     (if k = ''data'' \<or> k = ''stringData'' \<or> k = ''binaryData'' then hide_data v
      else if k = ''metadata'' then hide_metadata v else v)"

lemma redact_field_keys: "map fst (redact_field m f) = map fst m"
  by (cases "mget m f") (auto simp: redact_field_def gfield_def fst_mput_present as_map_def split: option.splits gval.splits)

lemma redact_field_get: "mget (redact_field m f) k = (if k = f then map_option hide_data (mget m k) else mget m k)"
  by (auto simp: redact_field_def gfield_def hide_data_def as_map_def split: option.splits gval.splits)

lemma redact_metadata_keys: "map fst (redact_metadata m) = map fst m"
  by (cases "mget m ''metadata''")
    (auto simp: redact_metadata_def gfield_def [of m] fst_mput_present as_map_def split: option.splits gval.splits)

lemma redact_metadata_get:
  "mget (redact_metadata m) k = (if k = ''metadata'' then map_option hide_metadata (mget m k) else mget m k)"
  by (cases "mget m ''metadata''")
    (auto simp: redact_metadata_def hide_metadata_def gfield_def [of m] as_map_def split: option.splits gval.splits)

lemma redactSecret_keys: "map fst (redactSecret s) = map fst s"
  by (simp add: redactSecret_def redact_metadata_keys redact_field_keys)

lemma redact_three_get:
  "distinct [a, b, c] \<Longrightarrow>
   mget (foldl redact_field s [a, b, c]) k = (if k = a \<or> k = b \<or> k = c then map_option hide_data (mget s k) else mget s k)"
  by (auto simp: redact_field_get)

lemma redactSecret_get: "mget (redactSecret s) k = map_option (hide k) (mget s k)"
proof -
  have d: "distinct [''data'', ''stringData'', ''binaryData'']" by simp
  show ?thesis
  proof (cases "k = ''metadata''")
    case True
    have "mget (redactSecret s) ''metadata'' = map_option hide_metadata (mget s ''metadata'')"
      unfolding redactSecret_def redact_metadata_get redact_three_get [OF d] by simp
    moreover have "hide ''metadata'' = hide_metadata" by (rule ext) (simp add: hide_def)
    ultimately show ?thesis using True by simp
  next
    case False
    then have e: "hide k = (if k = ''data'' \<or> k = ''stringData'' \<or> k = ''binaryData'' then hide_data else (\<lambda>v. v))"
      by (intro ext) (simp only: hide_def if_False split: if_split, blast)
    show ?thesis
      unfolding redactSecret_def redact_metadata_get redact_three_get [OF d] e using False
      by (cases "k = ''data'' \<or> k = ''stringData'' \<or> k = ''binaryData''") (simp_all only: if_True if_False option.map_ident)
  qed
qed

text \<open>
  Two secrets that differ only in what redaction is meant to hide: the values of \<open>data\<close>, \<open>stringData\<close> and
  \<open>binaryData\<close>, and the values of annotations.
\<close>

definition alike_maps :: "gval \<Rightarrow> gval \<Rightarrow> bool" where
  "alike_maps v w = (\<exists>d e. v = GObj d \<and> w = GObj e \<and> map fst d = map fst e)"

definition alike_metadata :: "gval \<Rightarrow> gval \<Rightarrow> bool" where
  "alike_metadata v w =
     (\<exists>m a b. alike_maps a b \<and> v = GObj (mput m ''annotations'' a) \<and> w = GObj (mput m ''annotations'' b))"

definition alike_secrets :: "gmap \<Rightarrow> gmap \<Rightarrow> bool" where
  "alike_secrets s t =
     (mwf s \<and> map fst s = map fst t \<and>
      (\<forall>k. mget s k = mget t k \<or>
        (\<exists>v w. mget s k = Some v \<and> mget t k = Some w \<and>
           (k \<in> {''data'', ''stringData'', ''binaryData''} \<and> alike_maps v w \<or> k = ''metadata'' \<and> alike_metadata v w))))"

lemma redact_values_alike:
  assumes "map fst d = map fst e"
  shows "redact_values d = redact_values e"
proof -
  have v: "redact_values xs = GObj (map (\<lambda>k. (k, redacted)) (map fst xs))" for xs
    by (simp add: redact_values_def case_prod_beta comp_def)
  show ?thesis unfolding v assms ..
qed

lemma mput_mput: "mput (mput m k a) k b = mput m k b"
  by (induction m) (auto simp: mput_def)

lemma redactSecret_alike:
  assumes "alike_secrets s t"
  shows "redactSecret s = redactSecret t"
proof (rule alist_eqI)
  show "map fst (redactSecret s) = map fst (redactSecret t)"
    using assms by (simp add: redactSecret_keys alike_secrets_def)
  show "mwf (redactSecret s)" using assms unfolding alike_secrets_def mwf_def redactSecret_keys by blast
  fix k
  have d: "hide_data v = hide_data w" if "alike_maps v w" for v w
    using that by (auto simp: alike_maps_def hide_data_def intro: redact_values_alike)
  have m: "hide_metadata v = hide_metadata w" if "alike_metadata v w" for v w
    using that
    by (auto simp: alike_metadata_def alike_maps_def hide_metadata_def mput_mput intro: arg_cong [OF redact_values_alike])
  from assms consider "mget s k = mget t k"
    | v w where "mget s k = Some v" "mget t k = Some w" "k \<in> {''data'', ''stringData'', ''binaryData''}" "alike_maps v w"
    | v w where "mget s k = Some v" "mget t k = Some w" "k = ''metadata''" "alike_metadata v w"
    unfolding alike_secrets_def by blast
  then show "mget (redactSecret s) k = mget (redactSecret t) k"
  proof cases
    case (2 v w)
    then have "hide k = hide_data" by (intro ext) (auto simp: hide_def)
    with 2 show ?thesis by (simp only: redactSecret_get option.map d [OF 2(4)])
  next
    case (3 v w)
    then have "hide k = hide_metadata" by (intro ext) (simp add: hide_def)
    with 3 show ?thesis by (simp only: redactSecret_get option.map m [OF 3(4)])
  qed (simp only: redactSecret_get)
qed

section \<open>Lemmas: annotations\<close>

text \<open>A position that does not pass through an annotation map, and whether the map at its end is a \<open>metadata\<close> map.\<close>

fun outside_annotations :: "bool \<Rightarrow> pos list \<Rightarrow> bool" where
  "outside_annotations md [] = True"
| "outside_annotations md (Key k # ss) = (\<not> (md \<and> k = ''annotations'') \<and> outside_annotations (k = ''metadata'') ss)"
| "outside_annotations md (Index i # ss) = outside_annotations False ss"

fun in_metadata :: "bool \<Rightarrow> pos list \<Rightarrow> bool" where
  "in_metadata md [] = md"
| "in_metadata md (Key k # ss) = in_metadata (k = ''metadata'') ss"
| "in_metadata md (Index i # ss) = in_metadata False ss"

lemma redact_annotations_at:
  "outside_annotations md ss \<Longrightarrow>
   gval_at (redactSensitiveAnnotations v md) ss = map_option (\<lambda>u. redactSensitiveAnnotations u (in_metadata md ss)) (gval_at v ss)"
proof (induction v ss arbitrary: md rule: gval_at.induct)
  case (2 v k ss)
  then show ?case
    by (cases v) (auto simp: mget_map split: option.splits)
next
  case (3 v i ss)
  then show ?case by (cases v) auto
qed simp

lemma in_metadata_append: "in_metadata md (ss @ [Key ''metadata'']) = True"
  by (induction md ss rule: in_metadata.induct) auto

lemma outside_annotations_append:
  "outside_annotations md ss \<Longrightarrow> \<not> in_metadata md ss \<or> k \<noteq> ''annotations'' \<Longrightarrow> outside_annotations md (ss @ [Key k])"
  by (induction md ss rule: in_metadata.induct) auto

lemma redactAnnotationMap_get:
  "gval_at (redactAnnotationMap v) [Key k] = Some c \<Longrightarrow> c = redacted \<or> \<not> sensitive_annotation k c"
  by (cases v) (auto simp: redactAnnotationMap_def as_map_def mget_map split: option.splits if_splits)

section \<open>Lemmas: bounded output\<close>

lemma json_escape_b64: "list_all (\<lambda>n. n < 64) ns \<Longrightarrow> json_escape (map (b64_char StdAlphabet) ns) = map (b64_char StdAlphabet) ns"
proof (induction ns)
  case (Cons n ns)
  then have n: "n < 64" by simp
  let ?c = "b64_char StdAlphabet n"
  have "43 \<le> (of_char ?c :: nat)" "(of_char ?c :: nat) < 123" "(of_char ?c :: nat) \<noteq> 92"
    "(of_char ?c :: nat) \<noteq> 60" "(of_char ?c :: nat) \<noteq> 62"
    using n by (auto simp: of_char_b64_char)
  then show ?case using Cons by (simp add: json_escape_char_def Let_def)
qed simp

lemma length_json_b64: "length (json_string (b64_encode StdAlphabet s)) = (4 * length s + 2) div 3 + 2"
proof -
  have "list_all (\<lambda>n. n < 64) (b64_groups (map of_char s))"
    by (rule b64_groups_lt) (simp add: list_all_iff)
  then have "json_escape (b64_encode StdAlphabet s) = b64_encode StdAlphabet s"
    unfolding b64_encode_def by (rule json_escape_b64)
  then show ?thesis by (simp add: json_string_def length_b64_encode)
qed

lemma length_join: "ts \<noteq> [] \<Longrightarrow> length (join sep ts) = sum_list (map length ts) + (length ts - 1) * length sep"
  by (induction sep ts rule: join.induct) (auto simp: algebra_simps)

lemma sum_list_sort: "sum_list (map f (sort_key g xs)) = (sum_list (map f xs) :: nat)"
  by (metis mset_map mset_sort sum_mset_sum_list)

lemma length_json_object:
  "fs \<noteq> [] \<Longrightarrow> length (json_object (sort_fields fs)) =
     sum_list (map (\<lambda>(k, t). length (json_string k) + length t) fs) + 2 * length fs + 1"
proof -
  assume fs: "fs \<noteq> []"
  have "sort_fields fs \<noteq> []" using fs by (metis length_0_conv length_sort sort_fields_def)
  then have "length (json_object (sort_fields fs)) =
      2 + (sum_list (map (\<lambda>(k, t). length (json_string k) + 1 + length t) (sort_fields fs)) + (length (sort_fields fs) - 1))"
    by (simp add: json_object_def length_join comp_def split_def)
  also have "\<dots> = 2 + (sum_list (map (\<lambda>(k, t). length (json_string k) + 1 + length t) fs) + (length fs - 1))"
    by (simp add: sort_fields_def sum_list_sort)
  also have "sum_list (map (\<lambda>(k, t). length (json_string k) + 1 + length t) fs) =
      sum_list (map (\<lambda>(k, t). length (json_string k) + length t) fs) + length fs"
    by (induction fs) auto
  finally show ?thesis using fs by (cases fs) auto
qed

lemma json_string_plain:
  "list_all (\<lambda>c. is_alnum c \<or> c = CHR ''-'') s \<Longrightarrow> length (json_string s) = length s + 2"
proof -
  have "list_all (\<lambda>c. is_alnum c \<or> c = CHR ''-'') s \<Longrightarrow> json_escape s = s"
    by (induction s) (auto simp: is_alnum_def json_escape_char_def Let_def)
  then show "list_all (\<lambda>c. is_alnum c \<or> c = CHR ''-'') s \<Longrightarrow> ?thesis" by (simp add: json_string_def)
qed

lemma truncation_length:
  "length (json_marshal (GObj [(''truncated'', GBool True), (''originalBytes'', GInt (int n)),
     (''previewEncoding'', GStr ''base64-json-prefix''), (''preview'', GStr (b64_encode StdAlphabet p))])) =
   length (show_nat n) + (4 * length p + 2) div 3 + 87"
  by (simp add: length_json_object length_json_b64 json_string_plain is_alnum_def show_bool_def itoa_def)

lemma preview_bytes_le:
  assumes "512 \<le> limit" "limit \<le> 2 ^ 60"
  shows "4 * int (preview_bytes limit n) \<le> 3 * (limit - 256)"
proof -
  have "wrap64 (limit - 256) = limit - 256" using assms by (intro wrap64_id) (auto simp: min_int64_def max_int64_def)
  moreover have "wrap64 ((limit - 256) * 3) = (limit - 256) * 3"
    using assms by (intro wrap64_id) (auto simp: min_int64_def max_int64_def)
  ultimately have "int (preview_bytes limit n) \<le> (limit - 256) * 3 div 4"
    using assms by (simp add: preview_bytes_def quot_nonneg)
  then show ?thesis by linarith
qed

section \<open>Properties\<close>

text \<open>
  Property C8 (secret values do not reach the caller). With the policy Redact, reading a secret or a list of secrets gives a result that does not depend on the
  values of \<open>data\<close>, \<open>stringData\<close>, \<open>binaryData\<close> or of annotations: two secrets that differ only there give the same output.
\<close>

theorem redacted_secret_noninterference:
  assumes "act_Group action = []" and "act_Resource action = ''secrets''" and "alike_secrets s t"
    and "list_all2 (\<lambda>x y. x = y \<or> (\<exists>u v. x = GObj u \<and> y = GObj v \<and> alike_secrets u v)) xs ys"
  shows "(as_list (gfield s ''items'') = None \<and> as_list (gfield t ''items'') = None \<longrightarrow>
       redactResult (GObj s) action SensitiveReadRedact = redactResult (GObj t) action SensitiveReadRedact) \<and>
    redactResult (GObj (mput m ''items'' (GArr xs))) action SensitiveReadRedact =
      redactResult (GObj (mput m ''items'' (GArr ys))) action SensitiveReadRedact"
proof -
  let ?f = "\<lambda>item. case as_map item of Some secret \<Rightarrow> GObj (redactSecret secret) | None \<Rightarrow> item"
  have "map ?f xs = map ?f ys"
    using assms(4) by (induction rule: list_all2_induct) (auto dest: redactSecret_alike)
  then have "redactSecretCollection (GObj (mput m ''items'' (GArr xs))) = redactSecretCollection (GObj (mput m ''items'' (GArr ys)))"
    by (simp add: redactSecretCollection_def mput_mput)
  moreover have "redactSecretCollection (GObj s) = redactSecretCollection (GObj t)"
    if "as_list (gfield s ''items'') = None" "as_list (gfield t ''items'') = None"
    using that redactSecret_alike [OF assms(3)] by (simp add: redactSecretCollection_def)
  ultimately show ?thesis using assms(1,2) by (simp add: redactResult_def)
qed

text \<open>
  Property C37 (no sensitive annotation survives). In every result, whatever the resource and the policy, an annotation of an object, at any depth of the result, is either
  replaced by the redaction mark or neither its name nor its text is recognized as sensitive.
\<close>

theorem result_annotations_clean:
  assumes "redactResult value action policy = Inr out" and "outside_annotations False (ss @ [Key ''metadata''])"
    and "gval_at out (ss @ [Key ''metadata''] @ [Key ''annotations'', Key k]) = Some c"
  shows "c = redacted \<or> \<not> sensitive_annotation k c"
proof -
  obtain v where out: "out = redactSensitiveAnnotations v False"
    using assms(1) by (auto simp: redactResult_def Let_def split: if_splits)
  obtain u where u: "gval_at v (ss @ [Key ''metadata'']) = Some u"
      "gval_at (redactSensitiveAnnotations u True) [Key ''annotations'', Key k] = Some c"
    using assms(3) unfolding out append_assoc [symmetric] gval_at_append [of _ "ss @ [Key ''metadata'']"]
    by (auto simp: redact_annotations_at [OF assms(2)] in_metadata_append simp del: append_assoc gval_at.simps split: option.splits)
  then obtain kvs a where "u = GObj kvs" "mget kvs ''annotations'' = Some a" "gval_at (redactAnnotationMap a) [Key k] = Some c"
    by (cases u) (auto simp: mget_map split: option.splits)
  then show ?thesis using redactAnnotationMap_get by blast
qed

text \<open>
  Output is bounded. For every output limit that a valid configuration has, the JSON text of a bounded result is at most the limit: either it is the value
  itself, or a truncation record with a base64 prefix of it.
\<close>

theorem bounded_output_fits:
  assumes "1024 \<le> limit" "limit \<le> 52428800" and "length (json_marshal (GObj value)) < 10 ^ 19"
  shows "int (length (json_marshal (GObj (boundedOutput value limit)))) \<le> limit"
proof (cases "int (length (json_marshal (GObj value))) \<le> limit")
  case True
  then show ?thesis by (simp add: boundedOutput_def boundedValue_def Let_def del: json_marshal.simps)
next
  case False
  define data where "data = json_marshal (GObj value)"
  define p where "p = take (preview_bytes limit (length data)) data"
  have out: "GObj (boundedOutput value limit) =
      GObj [(''truncated'', GBool True), (''originalBytes'', GInt (int (length data))),
        (''previewEncoding'', GStr ''base64-json-prefix''), (''preview'', GStr (b64_encode StdAlphabet p))]"
    using False by (simp add: boundedOutput_def boundedValue_def Let_def data_def p_def del: json_marshal.simps)
  have "int (length p) \<le> int (preview_bytes limit (length data))" by (simp add: p_def)
  then have "4 * int (length p) \<le> 3 * (limit - 256)"
    using preview_bytes_le [of limit "length data"] assms(1,2) by simp
  moreover have "length (show_nat (length data)) \<le> 19"
    using assms(3) by (intro length_show_nat) (simp_all add: data_def del: json_marshal.simps)
  moreover have "int ((4 * length p + 2) div 3) = (4 * int (length p) + 2) div 3" by (simp add: zdiv_int)
  moreover have "x div 3 \<le> y" if "x \<le> 3 * y + 2" for x y :: int using that by linarith
  ultimately have "int ((4 * length p + 2) div 3) \<le> limit - 256" "int (length (show_nat (length data))) \<le> 19" by auto
  then show ?thesis unfolding out truncation_length by simp
qed

section \<open>Witnesses\<close>

definition secret_read :: Action where
  "secret_read = sample_action\<lparr>act_GVR := \<lparr>gvr_Group = [], gvr_Version = ''v1'', gvr_Resource = ''secrets''\<rparr>\<rparr>"

theorem redacted_secret_noninterference_witness:
  "redactResult (GObj [(''data'', GObj [(''p'', GStr ''aGk'')])]) secret_read SensitiveReadRedact =
   redactResult (GObj [(''data'', GObj [(''p'', GStr ''eW8'')])]) secret_read SensitiveReadRedact"
  using redacted_secret_noninterference [of secret_read "[(''data'', GObj [(''p'', GStr ''aGk'')])]"
      "[(''data'', GObj [(''p'', GStr ''eW8'')])]" "[]" "[]" "[]"]
  by (simp add: secret_read_def alike_secrets_def alike_maps_def mwf_def mget_def gfield_def as_list_def)

definition sample_annotated :: gval where
  "sample_annotated = GObj [(''metadata'', GObj [(''annotations'', GObj [(''token'', GStr ''x'')])])]"

lemma token_sensitive: "sensitive_annotation ''token'' c"
  by (simp add: sensitive_annotation_def sensitiveAnnotationName_def name_markers_def has_prefix_def ascii_simps del: to_lower.simps(2))

theorem result_annotations_clean_witness:
  "gval_at (redactSensitiveAnnotations sample_annotated False) [Key ''metadata'', Key ''annotations'', Key ''token''] = Some redacted"
proof -
  obtain c where c: "gval_at (redactSensitiveAnnotations sample_annotated False)
      ([] @ [Key ''metadata''] @ [Key ''annotations'', Key ''token'']) = Some c"
    by (simp add: sample_annotated_def redactAnnotationMap_def mget_def)
  moreover have "redactResult sample_annotated sample_action SensitiveReadRedact = Inr (redactSensitiveAnnotations sample_annotated False)"
    by (simp add: redactResult_def sample_action_def)
  ultimately show ?thesis using result_annotations_clean [OF _ _ c] token_sensitive by auto
qed

theorem bounded_output_fits_witness:
  "int (length (json_marshal (GObj (boundedOutput [(''a'', GBool True)] 1024)))) \<le> 1024"
proof (rule bounded_output_fits)
  show "length (json_marshal (GObj [(''a'', GBool True)])) < 10 ^ 19"
    by (simp add: sort_fields_def json_object_def json_string_def json_escape_char_def show_bool_def Let_def)
qed simp_all

end
