(* ===== verification/Read_Output.thy ===== *)
theory Read_Output
  imports Redaction
begin

text \<open>
  Shaping of read results (\<open>internal/server/read_output.go\<close>): cleaning of metadata, projection on field paths, summaries and tables.

  The conversions \<open>time.Parse\<close> (RFC 3339) and \<open>strconv.ParseFloat\<close> and the clock are parameters (\<open>readEnv\<close>); the texts that
  \<open>ParseFloat\<close> reads as an infinity or as NaN have no decimal and are left out. A summary is built from the decoded JSON of an
  unstructured object, in which no value implements \<open>fmt.Stringer\<close>.
\<close>

record readEnv =
  re_now :: instant
  re_parse_time :: "string \<Rightarrow> instant option"
  re_parse_float :: "string \<Rightarrow> int \<times> int"

record readOutputOptions =
  ro_mode :: string
  ro_omitManagedFields :: bool
  ro_omitAnnotations :: bool
  ro_fieldPaths :: "string list"

record ReadInput =
  ri_CapabilityID :: string
  ri_Namespace :: string
  ri_Name :: string
  ri_LabelSelector :: string
  ri_FieldSelector :: string
  ri_Cursor :: string
  ri_ResourceVersion :: string
  ri_Limit :: int
  ri_OutputMode :: string
  ri_OmitManagedFields :: "bool option"
  ri_OmitAnnotations :: "bool option"
  ri_FieldPaths :: "string list"
  ri_Follow :: bool
  ri_Container :: string
  ri_TailLines :: "int option"
  ri_SinceSeconds :: "int option"

section \<open>Options\<close>

definition maxReadFieldPaths :: nat where
  "maxReadFieldPaths = 32"

definition defaultTrue :: "bool option \<Rightarrow> bool" where
  "defaultTrue value = (case value of None \<Rightarrow> True | Some b \<Rightarrow> b)"

definition bad_path_part :: "string \<Rightarrow> bool" where
  "bad_path_part part = (part = [] \<or> part = ''*'' \<or> list_ex (\<lambda>c. c \<in> set ''[]/'') part)"

definition validateReadFieldPath :: "string \<Rightarrow> gerr option" where
  "validateReadFieldPath path =
     (if path = [] \<or> 256 < length path
        then Some (policyError ''invalid_input'' ''fieldPaths entries must contain between 1 and 256 characters'')
      else let parts = split_on CHR ''.'' path in
        if 32 < length parts then Some (policyError ''invalid_input'' (''field path '' @ go_quote path @ '' is too deep''))
        else first_error (\<lambda>part. if bad_path_part part
               then Some (policyError ''invalid_input'' (''field path '' @ go_quote path @ '' must use dot-separated object keys'')) else None) parts)"

text \<open>The loop over the requested paths: trim, validate, drop duplicates and keep the first.\<close>

fun collect_paths :: "string list \<Rightarrow> string list \<Rightarrow> (gerr, string list) res" where
  "collect_paths [] paths = Inr paths"
| "collect_paths (raw # raws) paths =
     (let path = trim_space raw in
      case validateReadFieldPath path of
        Some e \<Rightarrow> Inl e
      | None \<Rightarrow> collect_paths raws (if path \<in> set paths then paths else paths @ [path]))"

definition normalizeReadOutputOptions :: "Action \<Rightarrow> ReadInput \<Rightarrow> (gerr, readOutputOptions) res" where
  "normalizeReadOutputOptions action input =
     (let given = to_lower (trim_space (ri_OutputMode input));
          mode = (if given \<noteq> [] then given
                  else if act_Action action = ''list'' \<or> act_Action action = ''watch'' then ''summary'' else ''full'') in
      if mode \<noteq> ''summary'' \<and> mode \<noteq> ''table'' \<and> mode \<noteq> ''full''
        then Inl (policyError ''invalid_input'' ''outputMode must be summary, table, or full'')
      else if act_Action action = ''logs'' \<and> (ri_OutputMode input \<noteq> [] \<or> ri_FieldPaths input \<noteq> [] \<or>
                ri_OmitManagedFields input \<noteq> None \<or> ri_OmitAnnotations input \<noteq> None)
        then Inl (policyError ''invalid_input'' ''output shaping options are not supported for Pod logs'')
      else if mode = ''table'' \<and> ri_FieldPaths input \<noteq> []
        then Inl (policyError ''invalid_input'' ''fieldPaths cannot be combined with outputMode=table'')
      else if maxReadFieldPaths < length (ri_FieldPaths input)
        then Inl (policyError ''invalid_input'' (''fieldPaths accepts at most '' @ itoa (int maxReadFieldPaths) @ '' paths''))
      else bindR (collect_paths (ri_FieldPaths input) []) (\<lambda>paths.
        Inr \<lparr>ro_mode = mode, ro_omitManagedFields = defaultTrue (ri_OmitManagedFields input),
             ro_omitAnnotations = defaultTrue (ri_OmitAnnotations input), ro_fieldPaths = paths\<rparr>))"

section \<open>Cleaning\<close>

definition dropped_key :: "readOutputOptions \<Rightarrow> bool \<Rightarrow> string \<Rightarrow> bool" where
  "dropped_key options metadata key =
     (metadata \<and> ((key = ''managedFields'' \<and> ro_omitManagedFields options) \<or> (key = ''annotations'' \<and> ro_omitAnnotations options)))"

fun cleanKubernetesValue :: "gval \<Rightarrow> readOutputOptions \<Rightarrow> bool \<Rightarrow> gval" where
  "cleanKubernetesValue (GObj kvs) options metadata =
     GObj (map (\<lambda>(key, child). (key, cleanKubernetesValue child options (key = ''metadata'')))
            (filter (\<lambda>(key, child). \<not> dropped_key options metadata key) kvs))"
| "cleanKubernetesValue (GArr xs) options metadata = GArr (map (\<lambda>child. cleanKubernetesValue child options False) xs)"
| "cleanKubernetesValue v options metadata = v"

section \<open>Scalars\<close>

definition scalarString :: "gval \<Rightarrow> string" where
  "scalarString value = (case value of GStr s \<Rightarrow> s | GNil \<Rightarrow> [] | v \<Rightarrow> sprint v)"

definition numberValue :: "readEnv \<Rightarrow> gval \<Rightarrow> gval" where
  "numberValue E value =
     (case value of
        GFloat c e \<Rightarrow> GFloat c e
      | GInt n \<Rightarrow> float_value n
      | GInt64 n \<Rightarrow> float_value n
      | v \<Rightarrow> (case re_parse_float E (sprint v) of (c, e) \<Rightarrow> GFloat c e))"

text \<open>\<open>int64(f)\<close>: truncation; out of range the result is the one of amd64.\<close>

definition float_to_int64 :: "gval \<Rightarrow> int" where
  "float_to_int64 v =
     (case v of
        GFloat c e \<Rightarrow>
          (let n = (if 0 \<le> e then c * 10 ^ nat e else quot c (10 ^ nat (- e)))
           in if min_int64 \<le> n \<and> n \<le> max_int64 then n else min_int64)
      | _ \<Rightarrow> 0)"

definition boolValue :: "gval \<Rightarrow> bool" where
  "boolValue value = bool_or_false value"

definition copyString :: "gmap \<Rightarrow> string \<Rightarrow> gmap \<Rightarrow> string \<Rightarrow> gmap" where
  "copyString output outputKey input inputKey =
     (let value = scalarString (gfield input inputKey) in if value \<noteq> [] then mput output outputKey (GStr value) else output)"

definition copyNumber :: "readEnv \<Rightarrow> gmap \<Rightarrow> string \<Rightarrow> gmap \<Rightarrow> string \<Rightarrow> gmap" where
  "copyNumber E output outputKey input inputKey =
     (case mget input inputKey of Some value \<Rightarrow> mput output outputKey (numberValue E value) | None \<Rightarrow> output)"

definition omitEmptySummaryValues :: "gmap \<Rightarrow> gmap" where
  "omitEmptySummaryValues input = filter (\<lambda>(key, value). value \<noteq> GStr [] \<and> value \<noteq> GNil) input"

definition objectAge :: "readEnv \<Rightarrow> gmap \<Rightarrow> string" where
  "objectAge E metadata =
     (let created = scalarString (gfield metadata ''creationTimestamp'') in
      if created = [] then []
      else (case re_parse_time E created of
              None \<Rightarrow> created
            | Some timestamp \<Rightarrow>
               (let duration = max 0 (time_sub (re_now E) timestamp) in
                if 365 * 24 * hour \<le> duration then itoa (duration div (365 * 24 * hour)) @ ''y''
                else if 24 * hour \<le> duration then itoa (duration div (24 * hour)) @ ''d''
                else if hour \<le> duration then itoa (duration div hour) @ ''h''
                else if minute \<le> duration then itoa (duration div minute) @ ''m''
                else itoa (duration div second) @ ''s'')))"

section \<open>Summaries\<close>

definition containerStateReason :: "gmap \<Rightarrow> string" where
  "containerStateReason container =
     (let state = map_or_nil (gfield container ''state'');
          reason = (\<lambda>field. scalarString (gfield (map_or_nil (gfield state field)) ''reason''))
      in if reason ''waiting'' \<noteq> [] then reason ''waiting'' else reason ''terminated'')"

record podState =
  ps_ready :: int
  ps_total :: int
  ps_restarts :: int
  ps_reason :: string

definition pod_container :: "readEnv \<Rightarrow> string \<Rightarrow> gval \<Rightarrow> podState \<Rightarrow> podState" where
  "pod_container E field raw s =
     (let container = map_or_nil raw in
      s\<lparr>ps_ready := (if field = ''containerStatuses'' \<and> boolValue (gfield container ''ready'') then ps_ready s + 1 else ps_ready s),
        ps_restarts := wrap64 (ps_restarts s + float_to_int64 (numberValue E (gfield container ''restartCount''))),
        ps_reason := (if ps_reason s = [] then containerStateReason container else ps_reason s)\<rparr>)"

definition pod_field :: "readEnv \<Rightarrow> gmap \<Rightarrow> podState \<Rightarrow> string \<Rightarrow> podState" where
  "pod_field E status s field =
     (let items = list_or_nil (gfield status field)
      in fold (pod_container E field) items (if field = ''containerStatuses'' then s\<lparr>ps_total := int (length items)\<rparr> else s))"

definition podContainerState :: "readEnv \<Rightarrow> gmap \<Rightarrow> podState" where
  "podContainerState E status =
     foldl (pod_field E status) \<lparr>ps_ready = 0, ps_total = 0, ps_restarts = 0, ps_reason = []\<rparr>
       [''initContainerStatuses'', ''containerStatuses'']"

definition addPodSummary :: "readEnv \<Rightarrow> gmap \<Rightarrow> gmap \<Rightarrow> gmap \<Rightarrow> gmap" where
  "addPodSummary E output spec status =
     (let o1 = copyString output ''phase'' status ''phase'';
          o2 = copyString o1 ''node'' spec ''nodeName'';
          st = podContainerState E status;
          o3 = mput o2 ''ready'' (GStr (itoa (ps_ready st) @ ''/'' @ itoa (ps_total st)));
          o4 = mput o3 ''restartCount'' (GInt64 (ps_restarts st));
          given = scalarString (gfield status ''reason'');
          reason = (if given = [] then ps_reason st else given)
      in if reason \<noteq> [] then mput o4 ''reason'' (GStr reason) else o4)"

definition addWorkloadSummary :: "readEnv \<Rightarrow> gmap \<Rightarrow> gmap \<Rightarrow> gmap \<Rightarrow> gmap" where
  "addWorkloadSummary E output spec status =
     (let o1 = copyNumber E output ''desired'' spec ''replicas'';
          o2 = copyNumber E o1 ''ready'' status ''readyReplicas'';
          o3 = copyNumber E o2 ''available'' status ''availableReplicas''
      in copyNumber E o3 ''updated'' status ''updatedReplicas'')"

definition add_daemonset_summary :: "readEnv \<Rightarrow> gmap \<Rightarrow> gmap \<Rightarrow> gmap" where
  "add_daemonset_summary E output status =
     (let o1 = copyNumber E output ''desired'' status ''desiredNumberScheduled'';
          o2 = copyNumber E o1 ''ready'' status ''numberReady'';
          o3 = copyNumber E o2 ''available'' status ''numberAvailable''
      in copyNumber E o3 ''updated'' status ''updatedNumberScheduled'')"

text \<open>The cut set of \<open>strings.Trim\<close> is the slash; \<open>regarding == nil\<close> holds when the field is not a map.\<close>

definition addEventSummary :: "readEnv \<Rightarrow> gmap \<Rightarrow> gmap \<Rightarrow> gmap" where
  "addEventSummary E output object =
     (let o1 = copyString output ''type'' object ''type'';
          o2 = copyString o1 ''reason'' object ''reason'';
          o3 = copyString o2 ''message'' object ''message'';
          o4 = copyNumber E o3 ''count'' object ''count'';
          seen = filter (\<lambda>t. t \<noteq> []) (map (\<lambda>field. scalarString (gfield object field)) [''eventTime'', ''lastTimestamp'', ''firstTimestamp'']);
          o5 = (case seen of value # _ \<Rightarrow> mput o4 ''lastSeen'' (GStr value) | [] \<Rightarrow> o4);
          regarding = (case as_map (gfield object ''regarding'') of Some m \<Rightarrow> m | None \<Rightarrow> map_or_nil (gfield object ''involvedObject''));
          name = scalarString (gfield regarding ''name'')
      in if name \<noteq> []
         then mput o5 ''object'' (GStr (trim_set {CHR ''/''} (join ''/'' [scalarString (gfield regarding ''kind''), name]))) else o5)"

definition summarizeMetricContainers :: "gval list \<Rightarrow> gval list" where
  "summarizeMetricContainers items =
     map (\<lambda>raw. let container = map_or_nil raw; entry = [(''name'', gfield container ''name'')] in
       (case as_map (gfield container ''usage'') of Some usage \<Rightarrow> GObj (mput entry ''usage'' (GObj usage)) | None \<Rightarrow> GObj entry)) items"

definition add_kind_summary :: "readEnv \<Rightarrow> string \<Rightarrow> gmap \<Rightarrow> gmap \<Rightarrow> gmap" where
  "add_kind_summary E kind object output =
     (let spec = map_or_nil (gfield object ''spec''); status = map_or_nil (gfield object ''status''); k = to_lower kind in
      if k = ''pod'' then addPodSummary E output spec status
      else if k \<in> set [''deployment'', ''replicaset'', ''statefulset''] then addWorkloadSummary E output spec status
      else if k = ''daemonset'' then add_daemonset_summary E output status
      else if k = ''event'' then addEventSummary E output object
      else if k = ''service'' then copyString (copyString output ''type'' spec ''type'') ''clusterIP'' spec ''clusterIP''
      else if k \<in> set [''podmetrics'', ''nodemetrics''] then
        (let o1 = copyString (copyString output ''timestamp'' object ''timestamp'') ''window'' object ''window''
         in case as_list (gfield object ''containers'') of
              Some containers \<Rightarrow> mput o1 ''containers'' (GArr (summarizeMetricContainers containers))
            | None \<Rightarrow> o1)
      else addWorkloadSummary E (copyString (copyString output ''phase'' status ''phase'') ''reason'' status ''reason'') spec status)"

definition summarizeKubernetesObject :: "readEnv \<Rightarrow> gmap \<Rightarrow> string \<Rightarrow> gmap" where
  "summarizeKubernetesObject E object fallbackKind =
     (let metadata = map_or_nil (gfield object ''metadata'');
          given = scalarString (gfield object ''kind'');
          kind = (if given = [] then fallbackKind else given);
          o1 = [(''name'', GStr (scalarString (gfield metadata ''name''))),
                (''namespace'', GStr (scalarString (gfield metadata ''namespace''))), (''kind'', GStr kind)];
          o2 = copyString o1 ''resourceVersion'' metadata ''resourceVersion'';
          o3 = copyString o2 ''apiVersion'' object ''apiVersion'';
          age = objectAge E metadata;
          o4 = (if age \<noteq> [] then mput o3 ''age'' (GStr age) else o3)
      in omitEmptySummaryValues (add_kind_summary E kind object o4))"

section \<open>Envelopes and tables\<close>

definition compactListMetadata :: "gmap \<Rightarrow> gmap" where
  "compactListMetadata object =
     (let metadata = map_or_nil (gfield object ''metadata'') in
      fold (\<lambda>field output. case mget metadata field of
              Some value \<Rightarrow> if scalarString value \<noteq> [] then mput output field value else output
            | None \<Rightarrow> output) [''continue'', ''remainingItemCount'', ''resourceVersion''] [])"

definition listEnvelope :: "gmap \<Rightarrow> gmap" where
  "listEnvelope object =
     (let output = fold (\<lambda>field m. case mget object field of Some value \<Rightarrow> mput m field value | None \<Rightarrow> m) [''apiVersion'', ''kind''] [];
          metadata = compactListMetadata object
      in if metadata \<noteq> [] then mput output ''metadata'' (GObj metadata) else output)"

text \<open>The maps of a list of items; entries that are not maps are skipped.\<close>

definition item_maps :: "gval list \<Rightarrow> gmap list" where
  "item_maps items = List.map_filter as_map items"

definition summarizeKubernetesResponse :: "readEnv \<Rightarrow> gmap \<Rightarrow> Action \<Rightarrow> gmap" where
  "summarizeKubernetesResponse E object action =
     (case as_list (gfield object ''items'') of
        None \<Rightarrow> summarizeKubernetesObject E object (act_Kind action)
      | Some items \<Rightarrow>
         mput (listEnvelope object) ''items''
           (GArr (map (\<lambda>item. GObj (summarizeKubernetesObject E item (act_Kind action))) (item_maps items))))"

definition summaryTableColumns :: "string \<Rightarrow> string list" where
  "summaryTableColumns kind =
     (let k = to_lower kind in
      if k = ''pod'' then [''name'', ''namespace'', ''phase'', ''ready'', ''restartCount'', ''reason'', ''node'', ''age'']
      else if k \<in> set [''deployment'', ''replicaset'', ''statefulset'', ''daemonset'']
        then [''name'', ''namespace'', ''desired'', ''ready'', ''available'', ''updated'', ''age'']
      else if k = ''event'' then [''type'', ''reason'', ''object'', ''message'', ''count'', ''lastSeen'']
      else if k = ''service'' then [''name'', ''namespace'', ''type'', ''clusterIP'', ''age'']
      else [''name'', ''namespace'', ''kind'', ''phase'', ''reason'', ''age''])"

definition tableKubernetesResponse :: "readEnv \<Rightarrow> gmap \<Rightarrow> Action \<Rightarrow> gmap" where
  "tableKubernetesResponse E object action =
     (let list_items = as_list (gfield object ''items'');
          items = (case list_items of Some xs \<Rightarrow> xs | None \<Rightarrow> [GObj object]);
          kind = (if act_Kind action = [] \<and> items \<noteq> []
                  then (case as_map (hd items) of Some first \<Rightarrow> scalarString (gfield first ''kind'') | None \<Rightarrow> [])
                  else act_Kind action);
          columns = summaryTableColumns kind;
          rows = map (\<lambda>item. GArr (map (gfield (summarizeKubernetesObject E item kind)) columns)) (item_maps items);
          output = [(''kind'', GStr kind), (''columns'', GStrs columns), (''rows'', GArr rows)];
          metadata = compactListMetadata object
      in if list_items \<noteq> None \<and> metadata \<noteq> [] then mput output ''metadata'' (GObj metadata) else output)"

section \<open>Projection\<close>

fun valueAtPath :: "gval \<Rightarrow> string list \<Rightarrow> gval option" where
  "valueAtPath value [] = Some value"
| "valueAtPath value (part # parts) =
     (case as_map value of
        None \<Rightarrow> None
      | Some object \<Rightarrow> (case mget object part of None \<Rightarrow> None | Some next_value \<Rightarrow> valueAtPath next_value parts))"

text \<open>
  The maps that the loop of \<open>setValueAtPath\<close> descends into may be maps of the projected object itself, put there by a shorter path. What it
  writes into them is what they already hold (\<open>setValueAtPath_same\<close> below), so that values instead of references are enough. The list
  of parts is not empty.
\<close>

fun setValueAtPath :: "gmap \<Rightarrow> string list \<Rightarrow> gval \<Rightarrow> gmap" where
  "setValueAtPath object [] value = object"
| "setValueAtPath object [part] value = mput object part value"
| "setValueAtPath object (part # part' # parts) value =
     mput object part (GObj (setValueAtPath (map_or_nil (gfield object part)) (part' # parts) value))"

definition project_path :: "gmap \<Rightarrow> string \<Rightarrow> gmap \<times> bool \<Rightarrow> gmap \<times> bool" where
  "project_path object path = (\<lambda>(output, foundAny).
     case valueAtPath (GObj object) (split_on CHR ''.'' path) of
       None \<Rightarrow> (output, foundAny)
     | Some value \<Rightarrow> (setValueAtPath output (split_on CHR ''.'' path) value, True))"

definition projectObject :: "gmap \<Rightarrow> string list \<Rightarrow> gmap \<times> bool" where
  "projectObject object paths = fold (project_path object) paths ([], False)"

definition projectKubernetesResponse :: "gmap \<Rightarrow> string list \<Rightarrow> (gerr, gmap) res" where
  "projectKubernetesResponse object paths =
     (case as_list (gfield object ''items'') of
        None \<Rightarrow>
          (case projectObject object paths of (projected, found) \<Rightarrow>
             if found then Inr projected
             else Inl (policyError ''field_path_not_found'' ''none of the requested fieldPaths exist in the object''))
      | Some items \<Rightarrow>
          (let results = map (\<lambda>item. projectObject item paths) (item_maps items) in
           if items \<noteq> [] \<and> \<not> list_ex snd results
           then Inl (policyError ''field_path_not_found'' ''none of the requested fieldPaths exist in the list items'')
           else Inr (mput (listEnvelope object) ''items'' (GArr (map (\<lambda>r. GObj (fst r)) results)))))"

definition shapeReadOutput :: "readEnv \<Rightarrow> gval \<Rightarrow> Action \<Rightarrow> readOutputOptions \<Rightarrow> (gerr, gmap) res" where
  "shapeReadOutput E value action options =
     (case as_map (cleanKubernetesValue value options False) of
        None \<Rightarrow> Inl (policyError ''invalid_output'' ''Kubernetes response is not an object'')
      | Some object \<Rightarrow>
         if ro_fieldPaths options \<noteq> [] then projectKubernetesResponse object (ro_fieldPaths options)
         else if ro_mode options = ''full'' then Inr object
         else if ro_mode options = ''table'' then Inr (tableKubernetesResponse E object action)
         else Inr (summarizeKubernetesResponse E object action))"

section \<open>Facts about projection\<close>

lemma valueAtPath_Cons:
  "valueAtPath v (part # parts) = Some w \<longleftrightarrow> (\<exists>m u. v = GObj m \<and> mget m part = Some u \<and> valueAtPath u parts = Some w)"
  by (cases v) (auto simp: as_map_def split: option.splits)

lemma valueAtPath_GObj [simp]:
  "valueAtPath (GObj m) (part # parts) = (case mget m part of None \<Rightarrow> None | Some u \<Rightarrow> valueAtPath u parts)"
  by (simp add: as_map_def)

lemma valueAtPath_append:
  "valueAtPath v (ps @ qs) = (case valueAtPath v ps of None \<Rightarrow> None | Some u \<Rightarrow> valueAtPath u qs)"
  by (induction ps arbitrary: v) (auto split: option.splits)

declare valueAtPath.simps(2) [simp del]

lemma setValueAtPath_same: "valueAtPath (GObj m) parts = Some v \<Longrightarrow> setValueAtPath m parts v = m"
proof (induction m parts v rule: setValueAtPath.induct)
  case (3 m p p' ps v)
  then obtain u where u: "mget m p = Some u" "valueAtPath u (p' # ps) = Some v" by (auto split: option.splits)
  then obtain n where n: "u = GObj n" by (auto simp: valueAtPath_Cons)
  with 3 u show ?case by (simp add: gfield_def map_or_nil_def mput_same)
qed (auto simp: mput_same split: option.splits)

lemma setValueAtPath_at: "parts \<noteq> [] \<Longrightarrow> valueAtPath (GObj (setValueAtPath m parts v)) parts = Some v"
  by (induction m parts v rule: setValueAtPath.induct) auto

lemma setValueAtPath_keeps:
  assumes "valueAtPath src parts = Some w" "valueAtPath (GObj m) q = Some v" "valueAtPath src q = Some v" "q \<noteq> []"
  shows "valueAtPath (GObj (setValueAtPath m parts w)) q = Some v"
  using assms
proof (induction m parts w arbitrary: src q rule: setValueAtPath.induct)
  case (2 m p w)
  then show ?case by (cases q) (auto simp: valueAtPath_Cons as_map_def)
next
  case (3 m p p' ps w)
  obtain r rs where q: "q = r # rs" using "3.prems"(4) by (cases q) auto
  obtain so u where src: "src = GObj so" "mget so p = Some u" "valueAtPath u (p' # ps) = Some w"
    using "3.prems"(1) by (auto simp: valueAtPath_Cons)
  show ?case
  proof (cases "r = p")
    case False
    then show ?thesis using "3.prems"(2) q by (auto simp: as_map_def)
  next
    case r: True
    obtain x where x: "mget m p = Some x" "valueAtPath x rs = Some v" using "3.prems"(2) q r by (auto split: option.splits)
    have u: "valueAtPath u rs = Some v" using "3.prems"(3) q r src by (auto simp: as_map_def)
    show ?thesis
    proof (cases "rs = []")
      case True
      then have eq: "x = u" using x u by simp
      moreover obtain n where n: "u = GObj n" using src(3) by (auto simp: valueAtPath_Cons)
      ultimately have "setValueAtPath (map_or_nil (gfield m p)) (p' # ps) w = n"
        using x src(3) by (simp add: gfield_def map_or_nil_def setValueAtPath_same)
      then show ?thesis using True q r n eq x by (simp add: as_map_def)
    next
      case False
      then obtain n where "x = GObj n" using x(2) by (cases rs) (auto simp: valueAtPath_Cons)
      then have "valueAtPath (GObj (setValueAtPath (map_or_nil (gfield m p)) (p' # ps) w)) rs = Some v"
        using "3.IH" [OF src(3) _ u False] x by (simp add: gfield_def map_or_nil_def)
      then show ?thesis using q r by (simp add: as_map_def)
    qed
  qed
qed simp

text \<open>Everything in the projection that is not a map comes from the object.\<close>

lemma setValueAtPath_leaf:
  assumes "valueAtPath src parts = Some w" "parts \<noteq> []" "valueAtPath (GObj (setValueAtPath m parts w)) q = Some v" "as_map v = None"
  shows "valueAtPath (GObj m) q = Some v \<or> (valueAtPath src q = Some v \<and> (\<exists>rest. q = parts @ rest))"
  using assms
proof (induction m parts w arbitrary: src q rule: setValueAtPath.induct)
  case (2 m p w)
  then show ?case by (cases q) (auto simp: valueAtPath_Cons as_map_def split: if_splits)
next
  case (3 m p p' ps w)
  obtain r rs where q: "q = r # rs" using "3.prems"(3,4) by (cases q) (auto simp: as_map_def)
  obtain so u where src: "src = GObj so" "mget so p = Some u" "valueAtPath u (p' # ps) = Some w"
    using "3.prems"(1) by (auto simp: valueAtPath_Cons)
  show ?case
  proof (cases "r = p")
    case False
    then show ?thesis using "3.prems"(3) q by (auto simp: as_map_def)
  next
    case True
    then have "valueAtPath (GObj (setValueAtPath (map_or_nil (gfield m p)) (p' # ps) w)) rs = Some v"
      using "3.prems"(3) q by (simp add: as_map_def)
    from "3.IH" [OF src(3) _ this "3.prems"(4)]
    consider "valueAtPath (GObj (map_or_nil (gfield m p))) rs = Some v" | rest where "valueAtPath u rs = Some v" "rs = (p' # ps) @ rest"
      by auto
    then show ?thesis
    proof cases
      case 1
      then obtain t ts where rs: "rs = t # ts" using "3.prems"(4) by (cases rs) (auto simp: as_map_def)
      with 1 obtain n where "gfield m p = GObj n" by (cases "gfield m p") (auto simp: map_or_nil_def as_map_def)
      then have "mget m p = Some (GObj n)" by (auto simp: gfield_def split: option.splits)
      then show ?thesis using 1 q True rs by (auto simp: as_map_def map_or_nil_def gfield_def)
    next
      case 2
      then show ?thesis using q True src by (auto simp: as_map_def)
    qed
  qed
qed simp

lemma projectObject_inv:
  defines "ps \<equiv> split_on CHR ''.''"
  assumes "projectObject object paths = (out, found)"
  shows "(found \<longleftrightarrow> (\<exists>path \<in> set paths. valueAtPath (GObj object) (ps path) \<noteq> None)) \<and>
    (\<forall>path \<in> set paths. \<forall>v. valueAtPath (GObj object) (ps path) = Some v \<longrightarrow> valueAtPath (GObj out) (ps path) = Some v) \<and>
    (\<forall>q v. valueAtPath (GObj out) q = Some v \<and> as_map v = None \<longrightarrow>
       valueAtPath (GObj object) q = Some v \<and> (\<exists>path \<in> set paths. \<exists>rest. q = ps path @ rest))"
  using assms(2)
proof (induction paths arbitrary: out found rule: rev_induct)
  case Nil
  then show ?case 
  proof -
    have "v = GObj []" if "valueAtPath (GObj []) q = Some v" for q v using that by (cases q) auto
    then have "as_map v \<noteq> None" if "valueAtPath (GObj []) q = Some v" for q v using that by (force simp: as_map_def)
    with Nil show ?thesis by (auto simp: projectObject_def)
  qed
next
  case (snoc path paths)
  obtain o1 f1 where o1: "projectObject object paths = (o1, f1)" by (cases "projectObject object paths")
  note IH = snoc.IH [OF this]
  have step: "project_path object path (o1, f1) = (out, found)"
    using snoc.prems o1 by (simp add: projectObject_def)
  have ne: "ps p \<noteq> []" for p by (simp add: ps_def)
  have F: "f1 \<longleftrightarrow> (\<exists>p \<in> set paths. valueAtPath (GObj object) (ps p) \<noteq> None)" using IH by blast
  have K: "valueAtPath (GObj o1) (ps p) = Some v" if "p \<in> set paths" "valueAtPath (GObj object) (ps p) = Some v" for p v
    using IH that by blast
  have L: "valueAtPath (GObj object) q = Some v \<and> (\<exists>p \<in> set paths. \<exists>rest. q = ps p @ rest)"
    if "valueAtPath (GObj o1) q = Some v" "as_map v = None" for q v using IH that by blast
  have found: "found \<longleftrightarrow> (\<exists>p \<in> set (paths @ [path]). valueAtPath (GObj object) (ps p) \<noteq> None)"
    using F step by (auto simp: project_path_def ps_def split: option.splits)
  have kept: "valueAtPath (GObj out) (ps p) = Some v"
    if p: "p \<in> set (paths @ [path])" "valueAtPath (GObj object) (ps p) = Some v" for p v
  proof (cases "valueAtPath (GObj object) (ps path)")
    case None
    then have "out = o1" "p \<in> set paths" using p step by (auto simp: project_path_def ps_def)
    then show ?thesis using K p(2) by blast
  next
    case (Some w)
    then have eq: "out = setValueAtPath o1 (ps path) w" using step by (auto simp: project_path_def ps_def)
    show ?thesis
    proof (cases "p = path")
      case True
      then show ?thesis using setValueAtPath_at [OF ne, of o1 path w] eq Some p(2) by simp
    next
      case False
      then have "valueAtPath (GObj o1) (ps p) = Some v" using K p by simp
      from setValueAtPath_keeps [OF Some this p(2) ne] show ?thesis unfolding eq .
    qed
  qed
  have leaf: "valueAtPath (GObj object) q = Some v \<and> (\<exists>p \<in> set (paths @ [path]). \<exists>rest. q = ps p @ rest)"
    if q: "valueAtPath (GObj out) q = Some v" "as_map v = None" for q v
  proof (cases "valueAtPath (GObj object) (ps path)")
    case None
    then have "out = o1" using step by (simp add: project_path_def ps_def)
    then show ?thesis using L q by auto
  next
    case (Some w)
    then have eq: "out = setValueAtPath o1 (ps path) w" using step by (auto simp: project_path_def ps_def)
    from setValueAtPath_leaf [OF Some ne q(1) [unfolded eq] q(2)] L [OF _ q(2)] show ?thesis by auto
  qed
  show ?case using found kept leaf by blast
qed

section \<open>Facts about cleaning\<close>

text \<open>The positions that cleaning drops: an omitted key right under a key named \<open>metadata\<close>.\<close>

fun dropped_pos :: "readOutputOptions \<Rightarrow> bool \<Rightarrow> pos list \<Rightarrow> bool" where
  "dropped_pos options metadata [] = False"
| "dropped_pos options metadata (Key k # ss) = (dropped_key options metadata k \<or> dropped_pos options (k = ''metadata'') ss)"
| "dropped_pos options metadata (Index i # ss) = dropped_pos options False ss"

lemma mget_map_filter_keys:
  "mget (map (\<lambda>(k, v). (k, f k v)) (filter (\<lambda>(k, v). P k) m)) k = (if P k then map_option (f k) (mget m k) else None)"
  by (induction m) (auto simp: mget_def)

lemma clean_at:
  "gval_at (cleanKubernetesValue v options metadata) ss =
   (if dropped_pos options metadata ss then None
    else map_option (\<lambda>u. cleanKubernetesValue u options (ss \<noteq> [] \<and> last ss = Key ''metadata'' \<or> ss = [] \<and> metadata)) (gval_at v ss))"
proof (induction ss arbitrary: v metadata)
  case (Cons s ss)
  show ?case
  proof (cases s)
    case (Key k)
    have "mget (map (\<lambda>(key, child). (key, cleanKubernetesValue child options (key = ''metadata'')))
          (filter (\<lambda>(key, child). \<not> dropped_key options metadata key) kvs)) k =
        (if dropped_key options metadata k then None
         else map_option (\<lambda>child. cleanKubernetesValue child options (k = ''metadata'')) (mget kvs k))" for kvs
      by (simp add: mget_map_filter_keys)
    then show ?thesis using Cons.IH Key by (cases v) (auto split: option.splits)
  next
    case (Index i)
    then show ?thesis using Cons.IH by (cases v) auto
  qed
qed simp

text \<open>
  Projection is exact. Projecting an object on field paths gives, at every requested path that exists, the whole value of the object, in whatever order overlapping
  paths are given; it holds nothing else: every value of the projection that is not a map is the value of the object at the same path, below a requested path. The
  flag tells whether any path exists.
\<close>

theorem projection_exact:
  assumes "projectObject object paths = (out, found)"
  shows "(found \<longleftrightarrow> (\<exists>path \<in> set paths. valueAtPath (GObj object) (split_on CHR ''.'' path) \<noteq> None)) \<and>
    (\<forall>path \<in> set paths. \<forall>v. valueAtPath (GObj object) (split_on CHR ''.'' path) = Some v \<longrightarrow>
       valueAtPath (GObj out) (split_on CHR ''.'' path) = Some v) \<and>
    (\<forall>q v. valueAtPath (GObj out) q = Some v \<and> as_map v = None \<longrightarrow>
       valueAtPath (GObj object) q = Some v \<and> (\<exists>path \<in> set paths. \<exists>rest. q = split_on CHR ''.'' path @ rest))"
  by (rule projectObject_inv [OF assms])

theorem projection_exact_witness:
  "valueAtPath (GObj (fst (projectObject [(''spec'', GObj [(''a'', GBool True), (''b'', GStr ''x'')])] [''spec.b'', ''spec'']))) [''spec'', ''b''] = Some (GStr ''x'')"
proof -
  let ?object = "[(''spec'', GObj [(''a'', GBool True), (''b'', GStr ''x'')])]"
  obtain out found where o: "projectObject ?object [''spec.b'', ''spec''] = (out, found)" by (cases "projectObject ?object [''spec.b'', ''spec'']")
  have "split_on CHR ''.'' ''spec.b'' = [''spec'', ''b'']" by simp
  then show ?thesis using projection_exact [OF o] o by (simp add: mget_def)
qed

text \<open>
  Cleaning removes exactly what is to be omitted. With the default options no managed fields and no annotations are left in any metadata, at any depth and inside lists; every other
  scalar of the response is kept where it was.
\<close>

theorem cleaning_exact:
  assumes "cleanKubernetesValue v options False = out"
  shows "(dropped_pos options False ss \<longrightarrow> gval_at out ss = None) \<and>
    (\<not> dropped_pos options False ss \<and> gval_at v ss = Some u \<and> as_map u = None \<and> as_list u = None \<longrightarrow> gval_at out ss = Some u)"
proof -
  have "cleanKubernetesValue u options b = u" if "as_map u = None" "as_list u = None" for b
    using that by (cases u) (auto simp: as_map_def as_list_def)
  then show ?thesis using clean_at [of v options False ss] assms by auto
qed

theorem cleaning_exact_witness:
  "gval_at (cleanKubernetesValue (GObj [(''items'', GArr [GObj [(''metadata'', GObj [(''managedFields'', GArr [])])]])])
      \<lparr>ro_mode = ''full'', ro_omitManagedFields = True, ro_omitAnnotations = True, ro_fieldPaths = []\<rparr> False)
     [Key ''items'', Index 0, Key ''metadata'', Key ''managedFields''] = None"
  by (rule cleaning_exact [OF refl, THEN conjunct1, THEN mp]) (simp add: dropped_key_def)

end
