(* ===== verification/Safe_Write.thy ===== *)
theory Safe_Write
  imports Policy
begin

text \<open>
  The payload rules of SafeWrite mode (\<open>internal/server/safe_write.go\<close>): what a manifest or a patch may contain, and which
  security controls of a live object a change must keep.

  The order in which Go's \<open>range\<close> visits a map decides which error is reported when there are several; here it is the
  order of the association list. \<open>numeric\<close> returns a float64, which is kept as its decimal \<open>(c, e)\<close> for
  \<open>c \<cdot> 10\<^sup>e\<close>.
\<close>

section \<open>Numbers and small helpers\<close>

type_synonym decimal = "int \<times> int"

definition numeric :: "gval \<Rightarrow> decimal option" where
  "numeric v =
     (case v of GFloat c e \<Rightarrow> Some (c, e) | GInt n \<Rightarrow> Some (float64_of_int n, 0) | GInt64 n \<Rightarrow> Some (float64_of_int n, 0)
      | _ \<Rightarrow> None)"

definition num_eq :: "decimal \<Rightarrow> decimal \<Rightarrow> bool" where
  "num_eq a b = (case (a, b) of ((c, e), (d, f)) \<Rightarrow> c * 10 ^ nat (e - min e f) = d * 10 ^ nat (f - min e f))"

definition num_pos :: "decimal \<Rightarrow> bool" where
  "num_pos a = (0 < fst a)"

definition containsNumeric :: "gval \<Rightarrow> decimal \<Rightarrow> bool" where
  "containsNumeric value wanted =
     (case as_list value of None \<Rightarrow> False
      | Some items \<Rightarrow> list_ex (\<lambda>item. case numeric item of Some n \<Rightarrow> num_eq n wanted | None \<Rightarrow> False) items)"

definition isBool :: "gval \<Rightarrow> bool \<Rightarrow> bool" where
  "isBool value wanted = (case value of GBool b \<Rightarrow> b = wanted | _ \<Rightarrow> False)"

definition nonEmptyValue :: "gval \<Rightarrow> bool" where
  "nonEmptyValue value =
     (case value of GNil \<Rightarrow> False | GStr s \<Rightarrow> s \<noteq> [] | GArr xs \<Rightarrow> 0 < length xs | GObj kvs \<Rightarrow> 0 < length kvs | _ \<Rightarrow> True)"

definition protectiveProfile :: "gval \<Rightarrow> bool" where
  "protectiveProfile value =
     (case as_map value of None \<Rightarrow> False
      | Some profile \<Rightarrow>
         (let profileType = string_or_empty (gfield profile ''type'')
          in profileType \<noteq> [] \<and> \<not> equal_fold profileType ''unconfined''))"

text \<open>\<open>stringSet\<close> builds a map from string to true; here the list of its keys.\<close>

definition stringSet :: "gval \<Rightarrow> string list" where
  "stringSet value =
     (case value of GArr items \<Rightarrow> List.map_filter as_string items | GStrs items \<Rightarrow> items | _ \<Rightarrow> [])"

definition preservesDroppedCapabilities :: "gval \<Rightarrow> gval \<Rightarrow> bool" where
  "preservesDroppedCapabilities before after =
     (case as_map before of None \<Rightarrow> True
      | Some beforeMap \<Rightarrow>
         (let required = stringSet (gfield beforeMap ''drop'')
          in if length required = 0 then True
             else (case as_map after of None \<Rightarrow> False
                   | Some afterMap \<Rightarrow> list_all (\<lambda>c. c \<in> set (stringSet (gfield afterMap ''drop''))) required)))"

definition matchingListValue :: "gval \<Rightarrow> gval list \<Rightarrow> nat \<Rightarrow> gval option" where
  "matchingListValue previous nexts index =
     (let name = (case as_map previous of Some m \<Rightarrow> string_or_empty (gfield m ''name'') | None \<Rightarrow> []);
          found = (if name \<noteq> [] then find (\<lambda>c. gfield (map_or_nil c) ''name'' = GStr name) nexts else None)
      in case found of Some c \<Rightarrow> Some c
         | None \<Rightarrow> if length nexts \<le> index then None else Some (nexts ! index))"

section \<open>Fields of a payload\<close>

definition child_path :: "string \<Rightarrow> string \<Rightarrow> string" where
  "child_path path key = trim_prefix (path @ ''.'' @ key) ''.''"

definition index_path :: "string \<Rightarrow> nat \<Rightarrow> string" where
  "index_path path index = path @ ''['' @ itoa (int index) @ '']''"

definition in_spec :: "string \<Rightarrow> bool" where
  "in_spec path = (path = ''spec'' \<or> has_prefix path ''spec.'' \<or> contains path ''.spec.'')"

definition enable_keys :: "string list" where
  "enable_keys =
     [''hostNetwork'', ''hostPID'', ''hostIPC'', ''privileged'', ''allowPrivilegeEscalation'', ''automountServiceAccountToken'',
      ''shareProcessNamespace'', ''hostProcess'']"

definition presence_keys :: "string list" where
  "presence_keys =
     [''hostPath'', ''ephemeralContainers'', ''serviceAccountToken'', ''secret'', ''secretRef'', ''secretKeyRef'', ''sysctls'',
      ''seLinuxOptions'']"

definition text_keys :: "string list" where
  "text_keys =
     [''nodeName'', ''runtimeClassName'', ''priorityClassName'', ''procMount'', ''gmsaCredentialSpec'', ''gmsaCredentialSpecName'']"

text \<open>The end of the message of the case of the \<open>switch\<close> that refuses the field, if one does.\<close>

definition blocked_suffix :: string where
  "blocked_suffix = '' is blocked in SafeWrite mode''"

definition payload_switch :: "string \<Rightarrow> string \<Rightarrow> gval \<Rightarrow> string option" where
  "payload_switch path key child =
     (let inSpec = in_spec path in
      if key \<in> set enable_keys then (if inSpec \<and> bool_or_false child then Some blocked_suffix else None)
      else if key = ''readOnlyRootFilesystem'' then
        (if inSpec \<and> isBool child False then Some '' may not disable the read-only root filesystem'' else None)
      else if key \<in> set presence_keys then (if inSpec \<and> child \<noteq> GNil then Some blocked_suffix else None)
      else if key = ''serviceAccountName'' then
        (let name = string_or_empty child
         in if inSpec \<and> name \<noteq> [] \<and> name \<noteq> ''default'' then Some '' may not select a non-default ServiceAccount'' else None)
      else if key = ''hostPort'' then
        (case numeric child of Some port \<Rightarrow> if inSpec \<and> num_pos port then Some blocked_suffix else None | None \<Rightarrow> None)
      else if key = ''runAsUser'' \<or> key = ''runAsGroup'' then
        (case numeric child of Some user \<Rightarrow> if inSpec \<and> num_eq user (0, 0) then Some '' may not select root'' else None | None \<Rightarrow> None)
      else if key = ''fsGroup'' then
        (case numeric child of Some gid \<Rightarrow> if inSpec \<and> num_eq gid (0, 0) then Some '' may not select the root group'' else None
         | None \<Rightarrow> None)
      else if key = ''supplementalGroups'' then
        (if inSpec \<and> containsNumeric child (0, 0) then Some '' may not include the root group'' else None)
      else if key = ''runAsNonRoot'' then
        (if inSpec \<and> isBool child False then Some '' may not disable non-root enforcement'' else None)
      else if key \<in> set text_keys then (if inSpec \<and> string_or_empty child \<noteq> [] then Some blocked_suffix else None)
      else if key = ''runAsUserName'' then
        (let name = string_or_empty child
         in if inSpec \<and> name \<noteq> [] \<and> \<not> equal_fold name ''ContainerUser'' then Some '' may only select ContainerUser'' else None)
      else if key = ''add'' then (if has_suffix path ''capabilities'' then Some blocked_suffix else None)
      else if key = ''type'' then
        (if (has_suffix path ''seccompProfile'' \<or> has_suffix path ''appArmorProfile'') \<and> equal_fold (string_or_empty child) ''Unconfined''
         then Some blocked_suffix else None)
      else None)"

definition profile_key :: "string \<Rightarrow> bool" where
  "profile_key key = (let lower = to_lower key in contains lower ''apparmor'' \<or> contains lower ''seccomp'')"

definition validatePayloadField :: "string \<Rightarrow> string \<Rightarrow> gval \<Rightarrow> gerr option" where
  "validatePayloadField path key child =
     (case payload_switch path key child of
        Some suffix \<Rightarrow> Some (policyError ''unsafe_payload'' (child_path path key @ suffix))
      | None \<Rightarrow>
         if profile_key key \<and> equal_fold (sprint child) ''unconfined''
         then Some (policyError ''unsafe_payload'' (child_path path key @ blocked_suffix)) else None)"

fun walkPayload :: "gval \<Rightarrow> string \<Rightarrow> gerr option" where
  "walkPayload (GObj kvs) path =
     first_error (\<lambda>(key, child). andthen (validatePayloadField path key child) (walkPayload child (child_path path key))) kvs"
| "walkPayload (GArr xs) path = first_error (\<lambda>(index, child). walkPayload child (index_path path index)) (enumerate 0 xs)"
| "walkPayload _ path = None"

definition validateSafePayload :: "gval \<Rightarrow> gerr option" where
  "validateSafePayload value = walkPayload value []"

section \<open>JSON patches\<close>

fun decode_segment :: "string \<Rightarrow> string option" where
  "decode_segment [] = Some []"
| "decode_segment (c # cs) =
     (if c \<noteq> CHR ''~'' then map_option (\<lambda>t. c # t) (decode_segment cs)
      else (case cs of [] \<Rightarrow> None
            | d # ds \<Rightarrow> if d = CHR ''0'' then map_option (\<lambda>t. CHR ''~'' # t) (decode_segment ds)
                       else if d = CHR ''1'' then map_option (\<lambda>t. CHR ''/'' # t) (decode_segment ds)
                       else None))"

definition decodeJSONPointer :: "string \<Rightarrow> (gerr, string list) res" where
  "decodeJSONPointer path =
     (if \<not> has_prefix path ''/'' then Inl (policyError ''invalid_input'' ''JSON patch path must be an absolute JSON pointer'')
      else mapR (\<lambda>raw. case decode_segment raw of
                     None \<Rightarrow> Inl (policyError ''invalid_input'' ''JSON patch path contains an invalid escape'')
                   | Some s \<Rightarrow> Inr s) (split_on CHR ''/'' (trim_prefix path ''/'')))"

definition blocked_segments :: "string list" where
  "blocked_segments =
     [''hostNetwork'', ''hostPID'', ''hostIPC'', ''hostPath'', ''hostPort'', ''privileged'', ''allowPrivilegeEscalation'',
      ''capabilities'', ''ephemeralContainers'', ''serviceAccountName'', ''serviceAccountToken'', ''automountServiceAccountToken'',
      ''shareProcessNamespace'', ''nodeName'', ''runtimeClassName'', ''sysctls'', ''procMount'', ''hostProcess'', ''seLinuxOptions'',
      ''secret'', ''secretRef'', ''secretKeyRef'', ''securityContext'', ''runAsUser'', ''runAsGroup'', ''runAsNonRoot'',
      ''readOnlyRootFilesystem'', ''seccompProfile'', ''appArmorProfile'', ''priorityClassName'', ''fsGroup'', ''supplementalGroups'',
      ''runAsUserName'', ''gmsaCredentialSpec'', ''gmsaCredentialSpecName'']"

definition unsafePatchSegments :: "string list \<Rightarrow> bool" where
  "unsafePatchSegments segments = list_ex (\<lambda>s. s \<in> set blocked_segments \<or> profile_key s) segments"

definition json_patch_entry :: "gval \<Rightarrow> gerr option" where
  "json_patch_entry raw =
     (case as_map raw of
        None \<Rightarrow> Some (policyError ''invalid_input'' ''JSON patch entries must be objects'')
      | Some operation \<Rightarrow>
         (let oper = string_or_empty (gfield operation ''op''); path = string_or_empty (gfield operation ''path'')
          in if oper \<notin> set [''add'', ''remove'', ''replace'', ''test''] \<or> path = []
             then Some (policyError ''unsafe_payload''
                    ''SafeWrite JSON patch only permits add, remove, replace, and test with an explicit path'')
             else (case decodeJSONPointer path of
                     Inl e \<Rightarrow> Some e
                   | Inr segments \<Rightarrow>
                      if unsafePatchSegments segments
                      then Some (policyError ''unsafe_payload'' (''JSON patch path '' @ go_quote path @ '' is blocked in SafeWrite mode''))
                      else (case mget operation ''value'' of None \<Rightarrow> None
                            | Some patchValue \<Rightarrow> walkPayload patchValue (join ''.'' segments)))))"

definition validateSafeJSONPatch :: "gval \<Rightarrow> gerr option" where
  "validateSafeJSONPatch value =
     (case as_list value of
        None \<Rightarrow> Some (policyError ''invalid_input'' ''JSON patch must be an array'')
      | Some operations \<Rightarrow> first_error json_patch_entry operations)"

section \<open>Services\<close>

definition validateSafeServicePort :: "gval \<Rightarrow> gerr option" where
  "validateSafeServicePort value =
     (case as_map value of None \<Rightarrow> None
      | Some port \<Rightarrow>
         (case numeric (gfield port ''nodePort'') of
            Some nodePort \<Rightarrow> if num_pos nodePort then Some (policyError ''unsafe_payload'' ''Service nodePort is blocked in SafeWrite mode'') else None
          | None \<Rightarrow> None))"

definition validateSafeServicePorts :: "gval \<Rightarrow> gerr option" where
  "validateSafeServicePorts value =
     (case as_list value of None \<Rightarrow> None | Some ports \<Rightarrow> first_error validateSafeServicePort ports)"

definition service_text_fields :: "string list" where
  "service_text_fields = [''externalName'', ''externalIPs'', ''loadBalancerIP'', ''loadBalancerClass'']"

definition validateSafeServiceSpec :: "gmap \<Rightarrow> gerr option" where
  "validateSafeServiceSpec spec =
     (let serviceType = string_or_empty (gfield spec ''type'') in
      if serviceType \<noteq> [] \<and> serviceType \<noteq> ''ClusterIP''
        then Some (policyError ''unsafe_payload'' ''SafeWrite only permits ClusterIP Services'')
      else andthen (first_error (\<lambda>field.
             case mget spec field of
               Some value \<Rightarrow> if nonEmptyValue value
                 then Some (policyError ''unsafe_payload'' (''Service spec.'' @ field @ '' is blocked in SafeWrite mode'')) else None
             | None \<Rightarrow> None) service_text_fields)
        (andthen (validateSafeServicePorts (gfield spec ''ports''))
          (case numeric (gfield spec ''healthCheckNodePort'') of
             Some n \<Rightarrow> if num_pos n then Some (policyError ''unsafe_payload'' ''Service healthCheckNodePort is blocked in SafeWrite mode'') else None
           | None \<Rightarrow> None)))"

definition exposure_fields :: "string list" where
  "exposure_fields = [''type'', ''externalName'', ''externalIPs'', ''loadBalancerIP'', ''loadBalancerClass'', ''healthCheckNodePort'']"

definition validateSafeServicePatchValue :: "string list \<Rightarrow> gval \<Rightarrow> gerr option" where
  "validateSafeServicePatchValue segments value =
     (case segments of
        [] \<Rightarrow> None
      | s0 # rest \<Rightarrow>
         if s0 \<noteq> ''spec'' then None
         else (case rest of
                 [] \<Rightarrow> (case as_map value of Some spec \<Rightarrow> validateSafeServiceSpec spec | None \<Rightarrow> None)
               | s1 # segs \<Rightarrow>
                  if s1 \<in> set exposure_fields then Some (Plain (''spec.'' @ s1 @ '' may change Service exposure''))
                  else if s1 = ''ports'' then
                    (if ''nodePort'' \<in> set segs then Some (Plain ''Service nodePort may not be changed'')
                     else if length segments = 2 then validateSafeServicePorts value
                     else if length segments = 3 then validateSafeServicePort value
                     else None)
                  else None))"

definition service_patch_entry :: "gval \<Rightarrow> gerr option" where
  "service_patch_entry raw =
     (let operation = map_or_nil raw; path = string_or_empty (gfield operation ''path'')
      in case decodeJSONPointer path of
           Inl e \<Rightarrow> Some e
         | Inr segments \<Rightarrow>
            (case validateSafeServicePatchValue segments (gfield operation ''value'') of
               Some e \<Rightarrow> Some (policyError ''unsafe_payload''
                 (''Service patch path '' @ go_quote path @ '' is blocked in SafeWrite mode: '' @ error_text e))
             | None \<Rightarrow> None))"

definition validateSafeServiceChange :: "gmap option \<Rightarrow> gval \<Rightarrow> string \<Rightarrow> gerr option" where
  "validateSafeServiceChange object patch patchType =
     andthen
       (case as_map (gfield (case object of Some m \<Rightarrow> m | None \<Rightarrow> []) ''spec'') of
          Some spec \<Rightarrow> validateSafeServiceSpec spec | None \<Rightarrow> None)
       (if patchType = ''json'' then
          (case as_list patch of Some operations \<Rightarrow> first_error service_patch_entry operations | None \<Rightarrow> None)
        else (case as_map patch of None \<Rightarrow> None
              | Some patchMap \<Rightarrow>
                 (case as_map (gfield patchMap ''spec'') of Some spec \<Rightarrow> validateSafeServiceSpec spec | None \<Rightarrow> None)))"

definition validateSafeOperation :: "Action \<Rightarrow> gmap option \<Rightarrow> gval \<Rightarrow> string \<Rightarrow> gerr option" where
  "validateSafeOperation action object patch patchType =
     andthen (case object of None \<Rightarrow> None | Some m \<Rightarrow> validateSafePayload (GObj m))
    (andthen (if patch = GNil then None
              else andthen (validateSafePayload patch)
                     (if patchType = ''json'' then validateSafeJSONPatch patch else None))
             (if act_Group action = [] \<and> act_Resource action = ''services''
              then validateSafeServiceChange object patch patchType else None))"

section \<open>Security transitions\<close>

text \<open>The \<open>switch\<close> of \<open>validateSecurityControlTransition\<close>; \<open>after\<close> is \<open>None\<close> when the key does not exist.\<close>

definition weakened_control :: "string \<Rightarrow> gval \<Rightarrow> gval option \<Rightarrow> bool" where
  "weakened_control key before after =
     (let a = (case after of Some v \<Rightarrow> v | None \<Rightarrow> GNil) in
      if key = ''allowPrivilegeEscalation'' \<or> key = ''automountServiceAccountToken''
        then isBool before False \<and> (after = None \<or> \<not> isBool a False)
      else if key = ''runAsNonRoot'' \<or> key = ''readOnlyRootFilesystem''
        then isBool before True \<and> (after = None \<or> \<not> isBool a True)
      else if key = ''runAsUser'' \<or> key = ''runAsGroup'' \<or> key = ''fsGroup'' then
        (case numeric before of
           Some value \<Rightarrow> \<not> num_eq value (0, 0) \<and>
             (after = None \<or> (case numeric a of None \<Rightarrow> True | Some n \<Rightarrow> num_eq n (0, 0)))
         | None \<Rightarrow> False)
      else if key = ''runAsUserName'' then
        (case as_string before of
           Some value \<Rightarrow> equal_fold value ''ContainerUser'' \<and>
             (after = None \<or> (case as_string a of None \<Rightarrow> True | Some n \<Rightarrow> \<not> equal_fold n ''ContainerUser''))
         | None \<Rightarrow> False)
      else if key = ''serviceAccountName'' \<or> key = ''runtimeClassName'' then
        (case as_string before of
           Some value \<Rightarrow> value \<noteq> [] \<and> (after = None \<or> (case as_string a of None \<Rightarrow> True | Some n \<Rightarrow> n \<noteq> value))
         | None \<Rightarrow> False)
      else if key = ''capabilities'' then \<not> preservesDroppedCapabilities before a
      else if key = ''seccompProfile'' \<or> key = ''appArmorProfile''
        then protectiveProfile before \<and> (after = None \<or> \<not> deep_equal before a)
      else if key = ''seLinuxOptions'' then before \<noteq> GNil \<and> (after = None \<or> \<not> deep_equal before a)
      else if profile_key key then
        (case as_string before of
           Some value \<Rightarrow> value \<noteq> [] \<and> \<not> equal_fold value ''unconfined'' \<and> (after = None \<or> \<not> deep_equal before a)
         | None \<Rightarrow> False)
      else False)"

definition validateSecurityControlTransition :: "string \<Rightarrow> gval \<Rightarrow> gval option \<Rightarrow> string \<Rightarrow> bool \<Rightarrow> gerr option" where
  "validateSecurityControlTransition key before after path inSpec =
     (if \<not> inSpec then None
      else if \<not> weakened_control key before after then None
      else Some (policyError ''unsafe_payload''
             (path @ '' may not weaken an existing workload security control in SafeWrite mode'')))"

definition value_or_nil :: "gval option \<Rightarrow> gval" where
  "value_or_nil v = (case v of Some w \<Rightarrow> w | None \<Rightarrow> GNil)"

fun walkSecurityTransition :: "gval \<Rightarrow> gval \<Rightarrow> string \<Rightarrow> gerr option" where
  "walkSecurityTransition (GObj current) after path =
     first_error (\<lambda>(key, previousValue).
       andthen (validateSecurityControlTransition key previousValue (mget (map_or_nil after) key) (child_path path key) (in_spec path))
         (walkSecurityTransition previousValue (value_or_nil (mget (map_or_nil after) key)) (child_path path key))) current"
| "walkSecurityTransition (GArr current) after path =
     first_error (\<lambda>(index, previousValue).
       case matchingListValue previousValue (list_or_nil after) index of
         None \<Rightarrow> None
       | Some nextValue \<Rightarrow> walkSecurityTransition previousValue nextValue (index_path path index)) (enumerate 0 current)"
| "walkSecurityTransition _ after path = None"

definition validateSafeTransition :: "gval \<Rightarrow> gval \<Rightarrow> gerr option" where
  "validateSafeTransition before after =
     andthen (validateSafePayload after)
       (if before = GNil then None else walkSecurityTransition before after [])"

section \<open>Positions in a value\<close>

text \<open>\<open>render\<close> is the path text that the walk has built when it arrives at a position.\<close>

fun step_path :: "string \<Rightarrow> pos \<Rightarrow> string" where
  "step_path path (Key k) = child_path path k"
| "step_path path (Index i) = index_path path i"

definition render :: "string \<Rightarrow> pos list \<Rightarrow> string" where
  "render path ss = foldl step_path path ss"

text \<open>The value after the change that the transition check compares with a position of the value before the change.\<close>

fun after_at :: "gval \<Rightarrow> gval \<Rightarrow> pos list \<Rightarrow> (gval \<times> gval) option" where
  "after_at b a [] = Some (b, a)"
| "after_at b a (Key k # ss) =
     (case b of GObj kvs \<Rightarrow> (case mget kvs k of Some u \<Rightarrow> after_at u (value_or_nil (mget (map_or_nil a) k)) ss | None \<Rightarrow> None)
      | _ \<Rightarrow> None)"
| "after_at b a (Index i # ss) =
     (case b of GArr xs \<Rightarrow>
        if i < length xs then
          (case matchingListValue (xs ! i) (list_or_nil a) i of Some w \<Rightarrow> after_at (xs ! i) w ss | None \<Rightarrow> None)
        else None
      | _ \<Rightarrow> None)"

lemma render_simps [simp]:
  "render path [] = path"
  "render path (s # ss) = render (step_path path s) ss"
  "render path (ss @ ts) = render (render path ss) ts"
  by (simp_all add: render_def)

lemma after_at_append:
  "after_at b a (ss @ ts) = (case after_at b a ss of Some (u, w) \<Rightarrow> after_at u w ts | None \<Rightarrow> None)"
  by (induction b a ss rule: after_at.induct) (auto split: gval.splits option.splits)

lemma walkPayload_step:
  assumes "walkPayload v path = None" "gval_at v [s] = Some u"
  shows "walkPayload u (step_path path s) = None"
proof (cases s)
  case (Key k)
  with assms(2) obtain kvs where "v = GObj kvs" "mget kvs k = Some u" by (auto split: gval.splits option.splits)
  with assms(1) Key show ?thesis by (force simp: first_error_None_iff dest: mget_in_set)
next
  case (Index i)
  with assms(2) obtain xs where "v = GArr xs" "i < length xs" "xs ! i = u" by (auto split: gval.splits if_splits)
  with assms(1) Index show ?thesis using nth_enumerate_mem [of i xs] by (force simp: first_error_None_iff)
qed

lemma walkPayload_at:
  "walkPayload v path = None \<Longrightarrow> gval_at v ss = Some u \<Longrightarrow> walkPayload u (render path ss) = None"
proof (induction ss arbitrary: v path)
  case (Cons s ss)
  obtain w where w: "gval_at v [s] = Some w" "gval_at w ss = Some u"
    using Cons.prems(2) gval_at_append [of v "[s]" ss] by (auto split: option.splits)
  from Cons.IH [OF walkPayload_step [OF Cons.prems(1) w(1)] w(2)] show ?case by simp
qed simp

lemma walkPayload_field:
  assumes "walkPayload v path = None" "gval_at v (ss @ [Key k]) = Some c"
  shows "validatePayloadField (render path ss) k c = None"
proof -
  obtain w where w: "gval_at v ss = Some w" "gval_at w [Key k] = Some c"
    using assms(2) by (auto simp: gval_at_append simp del: gval_at.simps split: option.splits)
  from w(2) obtain kvs where kvs: "w = GObj kvs" "mget kvs k = Some c"
    by (auto split: gval.splits option.splits)
  have "walkPayload w (render path ss) = None" using walkPayload_at [OF assms(1) w(1)] .
  then show ?thesis using kvs mget_in_set [OF kvs(2)] by (fastforce simp: first_error_None_iff)
qed

lemma walkPayload_error:
  "gwf v \<Longrightarrow> walkPayload v path = Some e \<Longrightarrow>
     \<exists>ss k c. gval_at v (ss @ [Key k]) = Some c \<and> validatePayloadField (render path ss) k c = Some e"
proof (induction v path rule: walkPayload.induct)
  case (1 kvs path)
  from first_error_Some [OF 1(3) [simplified]] obtain k c where kc: "(k, c) \<in> set kvs"
      "andthen (validatePayloadField path k c) (walkPayload c (child_path path k)) = Some e" by auto
  have g: "mget kvs k = Some c" "gwf c" using 1(2) kc(1) by (auto intro: in_set_mget)
  show ?case
  proof (cases "validatePayloadField path k c")
    case None
    with kc obtain ss j d where "gval_at c (ss @ [Key j]) = Some d"
        "validatePayloadField (render (child_path path k) ss) j d = Some e"
      using 1(1) [OF kc(1) refl g(2)] by auto
    with g(1) show ?thesis by (intro exI [of _ "Key k # ss"] exI [of _ j] exI [of _ d]) simp
  next
    case (Some e')
    with kc(2) g(1) show ?thesis by (intro exI [of _ "[]"] exI [of _ k] exI [of _ c]) simp
  qed
next
  case (2 xs path)
  from first_error_Some [OF 2(3) [simplified]] obtain i c where ic: "(i, c) \<in> set (enumerate 0 xs)"
      "walkPayload c (index_path path i) = Some e" by auto
  have i: "i < length xs" "xs ! i = c" using ic(1) by (auto simp: in_set_enumerate_eq)
  have "gwf c" using 2(2) i by (metis gwf.simps(1) nth_mem)
  then obtain ss j d where "gval_at c (ss @ [Key j]) = Some d" "validatePayloadField (render (index_path path i) ss) j d = Some e"
    using 2(1) [OF ic(1) refl _ ic(2)] by auto
  with i show ?case by (intro exI [of _ "Index i # ss"] exI [of _ j] exI [of _ d]) simp
qed simp_all

lemma has_prefix_trans: "has_prefix s p \<Longrightarrow> has_prefix (s @ t) p"
  by (auto simp: has_prefix_iff)

lemma step_path_extends:
  assumes "has_prefix path (c # cs)" "c \<noteq> CHR ''.''"
  shows "\<exists>t. step_path path s = path @ t"
proof (cases s)
  case (Key k)
  from assms obtain t where "path = c # t" by (auto simp: has_prefix_iff)
  with assms(2) Key show ?thesis by (simp add: child_path_def trim_prefix_def has_prefix_def)
qed (simp add: index_path_def)

lemma render_extends: "has_prefix path (c # cs) \<Longrightarrow> c \<noteq> CHR ''.'' \<Longrightarrow> has_prefix (render path ss) (c # cs)"
proof (induction ss arbitrary: path)
  case (Cons s ss)
  have "has_prefix (step_path path s) (c # cs)"
    using step_path_extends [OF Cons.prems, of s] Cons.prems(1) by (auto intro: has_prefix_trans)
  then show ?case using Cons.IH Cons.prems(2) by simp
qed simp

text \<open>Every position under \<open>spec\<close> of a manifest is recognized as such.\<close>

lemma in_spec_render: "ss = [] \<or> (\<exists>k ts. ss = Key k # ts) \<Longrightarrow> in_spec (render [] (Key ''spec'' # ss))"
proof -
  assume a: "ss = [] \<or> (\<exists>k ts. ss = Key k # ts)"
  have s: "child_path [] ''spec'' = ''spec''" by (simp add: child_path_def trim_prefix_def has_prefix_def)
  from a show ?thesis
  proof
    assume "\<exists>k ts. ss = Key k # ts"
    then obtain k ts where ss: "ss = Key k # ts" by blast
    have p: "child_path ''spec'' k = ''spec.'' @ k" by (simp add: child_path_def trim_prefix_def has_prefix_def)
    have "has_prefix (render (''spec.'' @ k) ts) ''spec.''"
      by (rule render_extends) (simp_all add: has_prefix_def)
    then show ?thesis by (simp add: ss s p in_spec_def)
  qed (simp add: s in_spec_def)
qed

lemma payload_switch_None:
  assumes "payload_switch path k c = None" "in_spec path"
  shows "k \<in> set enable_keys \<Longrightarrow> c \<noteq> GBool True"
    "k \<in> set presence_keys \<Longrightarrow> c = GNil"
    "k = ''runAsNonRoot'' \<Longrightarrow> c \<noteq> GBool False" "k = ''readOnlyRootFilesystem'' \<Longrightarrow> c \<noteq> GBool False"
    "k \<in> set [''runAsUser'', ''runAsGroup'', ''fsGroup''] \<Longrightarrow> numeric c = Some n \<Longrightarrow> \<not> num_eq n (0, 0)"
    "k = ''hostPort'' \<Longrightarrow> numeric c = Some n \<Longrightarrow> \<not> num_pos n"
    "k = ''serviceAccountName'' \<Longrightarrow> c = GStr s \<Longrightarrow> s = [] \<or> s = ''default''"
    "k \<in> set text_keys \<Longrightarrow> c = GStr s \<Longrightarrow> s = []"
proof -
  note d = payload_switch_def enable_keys_def presence_keys_def text_keys_def Let_def isBool_def
  show "c \<noteq> GBool True" if "k \<in> set enable_keys" using assms that by (auto simp: d split: if_splits)
  show "c = GNil" if "k \<in> set presence_keys" using assms that unfolding d by (auto split: if_splits)
  show "c \<noteq> GBool False" if "k = ''runAsNonRoot''" using assms that by (auto simp: d)
  show "c \<noteq> GBool False" if "k = ''readOnlyRootFilesystem''" using assms that by (auto simp: d)
  show "\<not> num_eq n (0, 0)" if "k \<in> set [''runAsUser'', ''runAsGroup'', ''fsGroup'']" "numeric c = Some n"
    using assms that by (auto simp: d split: if_splits)
  show "\<not> num_pos n" if "k = ''hostPort''" "numeric c = Some n" using assms that by (auto simp: d split: if_splits)
  show "s = [] \<or> s = ''default''" if "k = ''serviceAccountName''" "c = GStr s" using assms that by (auto simp: d split: if_splits)
  show "s = []" if "k \<in> set text_keys" "c = GStr s" using assms that by (auto simp: d split: if_splits)
qed

lemma payload_switch_capabilities: "payload_switch (child_path path ''capabilities'') ''add'' c \<noteq> None"
proof -
  have "has_suffix (child_path path ''capabilities'') ''capabilities''"
    by (cases path) (auto simp: child_path_def trim_prefix_def has_prefix_def has_suffix_iff)
  then show ?thesis
    by (simp add: payload_switch_def enable_keys_def presence_keys_def text_keys_def Let_def)
qed

lemma validatePayloadField_None: "validatePayloadField path k c = None \<Longrightarrow> payload_switch path k c = None"
  by (auto simp: validatePayloadField_def split: option.splits)

lemma walkSecurityTransition_at:
  "walkSecurityTransition b a path = None \<Longrightarrow> after_at b a ss = Some (b', a') \<Longrightarrow>
     walkSecurityTransition b' a' (render path ss) = None"
proof (induction b a ss arbitrary: path rule: after_at.induct)
  case (2 b a k ss)
  then obtain kvs u where b: "b = GObj kvs" "mget kvs k = Some u" "after_at u (value_or_nil (mget (map_or_nil a) k)) ss = Some (b', a')"
    by (auto split: gval.splits option.splits)
  then have "walkSecurityTransition u (value_or_nil (mget (map_or_nil a) k)) (child_path path k) = None"
    using 2(2) mget_in_set [OF b(2)] by (force simp: first_error_None_iff)
  then show ?case using 2(1) [OF b(1,2)] b(3) by simp
next
  case (3 b a i ss)
  then obtain xs w where b: "b = GArr xs" "i < length xs" "matchingListValue (xs ! i) (list_or_nil a) i = Some w"
      "after_at (xs ! i) w ss = Some (b', a')"
    by (auto split: gval.splits option.splits if_splits)
  then have "walkSecurityTransition (xs ! i) w (index_path path i) = None"
    using 3(2) nth_enumerate_mem [OF b(2)] by (force simp: first_error_None_iff)
  then show ?case using 3(1) [OF b(1-3)] b(4) by simp
qed simp

lemma transition_control:
  assumes "validateSafeTransition b a = None" "after_at b a (Key ''spec'' # ss) = Some (GObj m, a')"
    and "ss = [] \<or> (\<exists>k ts. ss = Key k # ts)" "mget m k = Some v"
  shows "\<not> weakened_control k v (mget (map_or_nil a') k)"
proof -
  have "b \<noteq> GNil" using assms(2) by auto
  then have "walkSecurityTransition b a [] = None" using assms(1) by (simp add: validateSafeTransition_def)
  from walkSecurityTransition_at [OF this assms(2)]
  have "validateSecurityControlTransition k v (mget (map_or_nil a') k)
      (child_path (render [] (Key ''spec'' # ss)) k) (in_spec (render [] (Key ''spec'' # ss))) = None"
    using mget_in_set [OF assms(4)] by (force simp: first_error_None_iff)
  moreover have "in_spec (render [] (Key ''spec'' # ss))" using assms(3) by (rule in_spec_render)
  ultimately show ?thesis by (simp add: validateSecurityControlTransition_def split: if_splits)
qed

lemma isBool_iff: "isBool v b \<longleftrightarrow> v = GBool b"
  by (cases v) (auto simp: isBool_def)

lemma not_weakened:
  "\<not> weakened_control ''runAsNonRoot'' (GBool True) w \<Longrightarrow> w = Some (GBool True)"
  "\<not> weakened_control ''readOnlyRootFilesystem'' (GBool True) w \<Longrightarrow> w = Some (GBool True)"
  "\<not> weakened_control ''allowPrivilegeEscalation'' (GBool False) w \<Longrightarrow> w = Some (GBool False)"
  "\<not> weakened_control ''automountServiceAccountToken'' (GBool False) w \<Longrightarrow> w = Some (GBool False)"
  "\<not> weakened_control ''serviceAccountName'' (GStr s) w \<Longrightarrow> s \<noteq> [] \<Longrightarrow> w = Some (GStr s)"
  "\<not> weakened_control ''capabilities'' (GObj m) w \<Longrightarrow> c \<in> set (stringSet (gfield m ''drop'')) \<Longrightarrow>
     \<exists>m'. w = Some (GObj m') \<and> c \<in> set (stringSet (gfield m' ''drop''))"
  by (auto simp: weakened_control_def Let_def isBool_iff preservesDroppedCapabilities_def as_Some_iff list_all_iff
      split: option.splits if_splits)

section \<open>Lemmas: JSON pointers\<close>

text \<open>The pointer for a list of reference tokens (RFC 6901).\<close>

fun escape_segment :: "string \<Rightarrow> string" where
  "escape_segment [] = []"
| "escape_segment (c # cs) =
     (if c = CHR ''~'' then ''~0'' else if c = CHR ''/'' then ''~1'' else [c]) @ escape_segment cs"

definition encode_pointer :: "string list \<Rightarrow> string" where
  "encode_pointer segments = ''/'' @ join ''/'' (map escape_segment segments)"

lemma decode_escape: "decode_segment (escape_segment s) = Some s"
  by (induction s) auto

lemma escape_no_slash: "CHR ''/'' \<notin> set (escape_segment s)"
  by (induction s) auto

lemma mapR_map_Inr: "(\<And>x. x \<in> set xs \<Longrightarrow> f (g x) = Inr x) \<Longrightarrow> mapR f (map g xs) = Inr xs"
  by (induction xs) auto

lemma decode_encode_pointer:
  assumes "segments \<noteq> []"
  shows "decodeJSONPointer (encode_pointer segments) = Inr segments"
proof -
  have "split_on CHR ''/'' (join ''/'' (map escape_segment segments)) = map escape_segment segments"
    using assms escape_no_slash by (intro split_join) auto
  moreover have "trim_prefix (''/'' @ t) ''/'' = t" for t by (rule trim_prefix_append)
  ultimately show ?thesis
    by (simp add: decodeJSONPointer_def encode_pointer_def has_prefix_def decode_escape mapR_map_Inr)
qed

section \<open>Properties\<close>

text \<open>
  Property C35 (the payload walk is complete). A payload is accepted exactly when the field rule accepts every field at every position of it,
  however deeply nested in maps and lists; the rule sees the rendered path of the position.
\<close>

theorem payload_accepted_iff:
  assumes "gwf v"
  shows "validateSafePayload v = None \<longleftrightarrow>
    (\<forall>ss k c. gval_at v (ss @ [Key k]) = Some c \<longrightarrow> validatePayloadField (render [] ss) k c = None)"
  unfolding validateSafePayload_def
  using walkPayload_field [of v "[]"] walkPayload_error [OF assms, of "[]"]
  by (metis not_None_eq option.distinct(1))



text \<open>
  Escaping does not hide a field. JSON pointers are decoded as RFC 6901 says, and a JSON patch with an entry whose pointer names a
  blocked field in any of its segments is refused, however the pointer is escaped.
\<close>

theorem pointer_roundtrip_blocked:
  assumes "segments \<noteq> []"
  shows "decodeJSONPointer (encode_pointer segments) = Inr segments \<and>
    (GObj entry \<in> set entries \<and> mget entry ''path'' = Some (GStr (encode_pointer segments)) \<and>
     (\<exists>s \<in> set segments. s \<in> {''securityContext'', ''hostNetwork'', ''hostPath'', ''serviceAccountName'', ''secretKeyRef''}) \<longrightarrow>
     validateSafeOperation action object (GArr entries) ''json'' \<noteq> None)"
proof -
  have "validateSafeOperation action object (GArr entries) ''json'' \<noteq> None"
    if a: "GObj entry \<in> set entries" "mget entry ''path'' = Some (GStr (encode_pointer segments))"
      "s \<in> set segments" "s \<in> {''securityContext'', ''hostNetwork'', ''hostPath'', ''serviceAccountName'', ''secretKeyRef''}" for s
  proof -
    have "s \<in> set blocked_segments" using a(4) by (auto simp: blocked_segments_def)
    then have "unsafePatchSegments segments" using a(3) by (auto simp: unsafePatchSegments_def list_ex_iff)
    moreover have "string_or_empty (gfield entry ''path'') = encode_pointer segments" "encode_pointer segments \<noteq> []"
      using a(2) by (simp_all add: gfield_def encode_pointer_def)
    ultimately have "json_patch_entry (GObj entry) \<noteq> None"
      unfolding json_patch_entry_def as_simps option.case Let_def by (simp only: decode_encode_pointer [OF assms]) simp
    then have "validateSafeJSONPatch (GArr entries) \<noteq> None"
      using a(1) by (auto simp: validateSafeJSONPatch_def first_error_None_iff)
    then show ?thesis by (auto simp: validateSafeOperation_def)
  qed
  then show ?thesis by (intro conjI impI decode_encode_pointer [OF assms]) (elim conjE bexE)
qed

text \<open>
  Services stay internal. A service manifest that SafeWrite accepts is of type ClusterIP (or leaves the type to its default), has no external
  name, external addresses or load balancer fields, and no port of it asks for a node port.
\<close>

theorem accepted_service_internal:
  assumes "validateSafeOperation action (Some m) patch patchType = None"
    and "act_Group action = []" "act_Resource action = ''services''" and "mget m ''spec'' = Some (GObj spec)"
  shows "string_or_empty (gfield spec ''type'') \<in> {[], ''ClusterIP''} \<and>
    (\<forall>field \<in> {''externalName'', ''externalIPs'', ''loadBalancerIP'', ''loadBalancerClass''}. \<forall>v. mget spec field = Some v \<longrightarrow> \<not> nonEmptyValue v) \<and>
    (\<forall>ports port n. mget spec ''ports'' = Some (GArr ports) \<and> GObj port \<in> set ports \<and> numeric (gfield port ''nodePort'') = Some n \<longrightarrow> \<not> num_pos n)"
proof -
  have "validateSafeServiceSpec spec = None"
    using assms by (simp add: validateSafeOperation_def validateSafeServiceChange_def gfield_def)
  then have s: "string_or_empty (gfield spec ''type'') \<in> {[], ''ClusterIP''}"
    "\<forall>field \<in> set service_text_fields. \<forall>v. mget spec field = Some v \<longrightarrow> \<not> nonEmptyValue v"
    "validateSafeServicePorts (gfield spec ''ports'') = None"
    by (auto simp: validateSafeServiceSpec_def Let_def first_error_None_iff split: if_splits)
  from s(3) have "\<not> num_pos n"
    if "mget spec ''ports'' = Some (GArr ports)" "GObj port \<in> set ports" "numeric (gfield port ''nodePort'') = Some n" for ports port n
    using that by (force simp: validateSafeServicePorts_def validateSafeServicePort_def gfield_def [of spec] first_error_None_iff)
  with s(1,2) show ?thesis by (auto simp: service_text_fields_def)
qed

lemma pod_template_payload:
  "validateSafePayload (GObj [(''kind'', GStr ''PodTemplate''), (''template'', GObj [(''spec'', GObj [(''hostNetwork'', GBool True)])])]) = None"
proof -
  have N: "lower_char CHR ''N'' = CHR ''n''" by code_simp
  show ?thesis
    by (simp add: validateSafePayload_def validatePayloadField_def payload_switch_def child_path_def trim_prefix_def has_prefix_def
        in_spec_def enable_keys_def presence_keys_def text_keys_def profile_key_def Let_def ascii_simps N del: to_lower.simps(2))
qed


section \<open>Witnesses\<close>

definition sample_manifest :: gmap where
  "sample_manifest =
     [(''spec'', GObj [(''template'', GObj [(''spec'', GObj [(''containers'', GArr [GObj [(''name'', GStr ''web''),
        (''context'', GObj [(''runAsNonRoot'', GBool True), (''runAsUser'', GInt64 7)])]])])])])]"

lemma lower_letters:
  "lower_char CHR ''A'' = CHR ''a''" "lower_char CHR ''N'' = CHR ''n''" "lower_char CHR ''R'' = CHR ''r''"
  "lower_char CHR ''U'' = CHR ''u''"
  by code_simp+

lemmas payload_eval =
  validateSafePayload_def validatePayloadField_def payload_switch_def child_path_def index_path_def trim_prefix_def has_prefix_def
  in_spec_def enable_keys_def presence_keys_def text_keys_def profile_key_def Let_def ascii_simps lower_letters isBool_def
  numeric_def num_eq_def float64_of_int_def round53_def itoa_def show_nat.simps

lemma sample_manifest_safe: "validateSafePayload (GObj sample_manifest) = None"
  by (simp add: sample_manifest_def payload_eval del: to_lower.simps(2))

lemma sample_operation_safe: "validateSafeOperation sample_action (Some sample_manifest) GNil [] = None"
  by (simp add: validateSafeOperation_def sample_manifest_safe sample_action_def)

theorem payload_accepted_iff_witness:
  "validatePayloadField (render [] [Key ''spec'']) ''template'' (the (mget (map_or_nil (gfield sample_manifest ''spec'')) ''template'')) = None"
  using iffD1 [OF payload_accepted_iff sample_manifest_safe, rule_format, of "[Key ''spec'']" "''template''"]
  by (simp add: sample_manifest_def mwf_def mget_def gfield_def)


definition sample_live :: gval where
  "sample_live = GObj [(''spec'', GObj [(''runAsNonRoot'', GBool True)])]"


theorem pointer_roundtrip_blocked_witness:
  "decodeJSONPointer (encode_pointer [''spec'', ''a/b~c'']) = Inr [''spec'', ''a/b~c'']"
  using pointer_roundtrip_blocked [of "[''spec'', ''a/b~c'']"] by simp

theorem accepted_service_internal_witness:
  "string_or_empty (gfield [(''type'', GStr ''ClusterIP'')] ''type'') \<in> {[], ''ClusterIP''}"
proof -
  let ?a = "sample_action\<lparr>act_GVR := \<lparr>gvr_Group = [], gvr_Version = ''v1'', gvr_Resource = ''services''\<rparr>\<rparr>"
  have "validateSafeOperation ?a (Some [(''spec'', GObj [(''type'', GStr ''ClusterIP'')])]) GNil [] = None"
    by (simp add: validateSafeOperation_def validateSafeServiceChange_def validateSafeServiceSpec_def validateSafeServicePorts_def
        service_text_fields_def as_map_def as_list_def gfield_def mget_def has_suffix_def payload_eval del: to_lower.simps(2))
  from accepted_service_internal [OF this] show ?thesis by (simp add: mget_def)
qed

end
