(* ===== verification/Admission.thy ===== *)
theory Admission
  imports Policy Ledger
begin

text \<open>
  Who may enter, and for how long: the identity rate limiter (\<open>internal/server/ratelimit.go\<close>), the admission of requests
  and streams (\<open>internal/server/admission.go\<close>) and the server's time limits (\<open>internal/server/timeouts.go\<close>).

  The token bucket of \<open>golang.org/x/time/rate\<close> is a parameter: \<open>newLimiter rpm burst\<close> is
  \<open>rate.NewLimiter(rate.Limit(float64(rpm) / 60), burst)\<close> and \<open>allowN now l\<close> is \<open>l.AllowN(now, 1)\<close> with the
  limiter it leaves. The channel \<open>streams\<close> is the number of elements in it and its capacity.
  Every operation holds its mutex, so it is one step.
\<close>

section \<open>The identity rate limiter\<close>

definition identityLimiterCapacity :: int where
  "identityLimiterCapacity = 10000"

abbreviation identityLimiterIdleTTL :: duration where
  "identityLimiterIdleTTL \<equiv> 15 * minute"

record 'l identityLimitEntry =
  limiter :: 'l
  lastSeen :: instant

record 'l identityRateLimiter =
  rl_entries :: "(string \<times> 'l identityLimitEntry) list"
  requestsPerMinute :: int
  burst :: int
  lastSweep :: instant

record 'l tokenBucket =
  newLimiter :: "int \<Rightarrow> int \<Rightarrow> 'l"
  allowN :: "instant \<Rightarrow> 'l \<Rightarrow> bool \<times> 'l"

definition newIdentityRateLimiter :: "int \<Rightarrow> int \<Rightarrow> 'l identityRateLimiter" where
  "newIdentityRateLimiter rpm b = \<lparr>rl_entries = [], requestsPerMinute = rpm, burst = b, lastSweep = 0\<rparr>"

definition rl_put :: "'l identityRateLimiter \<Rightarrow> string \<Rightarrow> 'l identityLimitEntry \<Rightarrow> 'l identityRateLimiter" where
  "rl_put l subject e = l\<lparr>rl_entries := mput (rl_entries l) subject e\<rparr>"

definition rl_delete :: "'l identityRateLimiter \<Rightarrow> string \<Rightarrow> 'l identityLimitEntry \<Rightarrow> 'l identityRateLimiter" where
  "rl_delete l subject e = l\<lparr>rl_entries := mdel (rl_entries l) subject\<rparr>"

definition idle :: "instant \<Rightarrow> 'l identityLimitEntry \<Rightarrow> bool" where
  "idle now e = (identityLimiterIdleTTL \<le> time_sub now (lastSeen e))"

definition rl_prune :: "instant \<Rightarrow> 'l identityRateLimiter \<Rightarrow> 'l identityRateLimiter" where
  "rl_prune now l = sweep rl_delete (idle now) (rl_entries l) l"

text \<open>The sweep at the start of \<open>Allow\<close>, once a minute at most.\<close>

definition rl_sweep :: "instant \<Rightarrow> 'l identityRateLimiter \<Rightarrow> 'l identityRateLimiter" where
  "rl_sweep now l =
     (if is_zero_time (lastSweep l) \<or> minute \<le> time_sub now (lastSweep l)
      then (rl_prune now l)\<lparr>lastSweep := now\<rparr> else l)"

definition Allow ::
  "'l tokenBucket \<Rightarrow> string \<Rightarrow> instant \<Rightarrow> 'l identityRateLimiter \<Rightarrow> (bool \<times> string) \<times> 'l identityRateLimiter" where
  "Allow tb subject now l =
     (if subject = [] then ((False, ''invalid_identity''), l)
      else let l1 = rl_sweep now l;
               found = mget (rl_entries l1) subject
           in if found = None \<and> identityLimiterCapacity \<le> int (length (rl_entries l1))
              then ((False, ''identity_capacity''), l1)
              else let entry = (case found of Some e \<Rightarrow> e
                       | None \<Rightarrow> \<lparr>limiter = newLimiter tb (requestsPerMinute l1) (burst l1), lastSeen = 0\<rparr>)
                   in case allowN tb now (limiter entry) of (ok, lim) \<Rightarrow>
                        if ok then ((True, []), rl_put l1 subject \<lparr>limiter = lim, lastSeen = now\<rparr>)
                        else ((False, ''identity_rate''), rl_put l1 subject (entry\<lparr>limiter := lim\<rparr>)))"

text \<open>
  \<open>max(1, ceil(60 / max(1, rpm)))\<close>: the quotient of two small integers is either exact or far enough from an integer
  for the double to round to the same side.
\<close>

definition RetryAfterSeconds :: "'l identityRateLimiter \<Rightarrow> int" where
  "RetryAfterSeconds l = (let r = max 1 (requestsPerMinute l) in max 1 ((60 + r - 1) div r))"

section \<open>Admission of requests and streams\<close>

record requestAdmission =
  identities :: "(string \<times> int) list"
  perIdentity :: int
  streams :: int
  streams_cap :: int

definition newRequestAdmission :: "int \<Rightarrow> requestAdmission" where
  "newRequestAdmission concurrent =
     \<lparr>identities = [], perIdentity = max 1 (quot (concurrent + 1) 2), streams = 0, streams_cap = max 0 (concurrent - 1)\<rparr>"

definition identity_count :: "requestAdmission \<Rightarrow> string \<Rightarrow> int" where
  "identity_count a identity = (case mget (identities a) identity of Some n \<Rightarrow> n | None \<Rightarrow> 0)"

definition acquireIdentity :: "string \<Rightarrow> requestAdmission \<Rightarrow> bool \<times> requestAdmission" where
  "acquireIdentity identity a =
     (if perIdentity a \<le> identity_count a identity then (False, a)
      else (True, a\<lparr>identities := mput (identities a) identity (identity_count a identity + 1)\<rparr>))"

definition releaseIdentity :: "string \<Rightarrow> requestAdmission \<Rightarrow> requestAdmission" where
  "releaseIdentity identity a =
     (let n = identity_count a identity - 1
      in if n = 0 then a\<lparr>identities := mdel (identities a) identity\<rparr>
         else a\<lparr>identities := mput (identities a) identity n\<rparr>)"

text \<open>\<open>acquireStream\<close> and the function it returns to give the slot back. An \<open>App\<close> without admission is \<open>None\<close>.\<close>

definition acquireStream :: "(requestAdmission option, gerr, unit) io" where
  "acquireStream = (\<lambda>adm.
     case adm of
       None \<Rightarrow> (Inr (), None)
     | Some a \<Rightarrow>
        if streams_cap a = 0
          then (Inl (policyError ''stream_disabled''
                 ''streaming requires maxConcurrent of at least two to reserve capacity for short requests''), Some a)
        else if streams a < streams_cap a then (Inr (), Some (a\<lparr>streams := streams a + 1\<rparr>))
        else (Inl (policyError ''stream_capacity'' ''stream concurrency limit reached; capacity is reserved for short requests''), Some a))"

definition releaseStream :: "requestAdmission \<Rightarrow> requestAdmission" where
  "releaseStream a = a\<lparr>streams := streams a - 1\<rparr>"

section \<open>Time limits\<close>

text \<open>The deadline a context gets, if any: \<open>timeoutContext\<close> sets none for a timeout that is not positive.\<close>

definition timeoutContext :: "instant \<Rightarrow> instant option \<Rightarrow> duration \<Rightarrow> instant option" where
  "timeoutContext now parent timeout =
     (if timeout \<le> 0 then parent
      else Some (case parent of None \<Rightarrow> now + timeout | Some d \<Rightarrow> min d (now + timeout)))"

definition requestContext :: "Config \<Rightarrow> instant \<Rightarrow> instant option \<Rightarrow> instant option" where
  "requestContext cfg now parent = timeoutContext now parent (RequestTimeout (cfg_Limits cfg))"

fun saturating_sum_from :: "duration \<Rightarrow> duration list \<Rightarrow> duration" where
  "saturating_sum_from acc [] = acc"
| "saturating_sum_from acc (value # values) =
     (if wrap64 (max_int64 - acc) < value then max_int64 else saturating_sum_from (wrap64 (acc + value)) values)"

definition saturatingDurationSum :: "duration list \<Rightarrow> duration" where
  "saturatingDurationSum values = saturating_sum_from 0 values"

definition serverWriteTimeout :: "Config \<Rightarrow> duration" where
  "serverWriteTimeout cfg =
     (let l = cfg_Limits cfg;
          operationTimeout = max (RequestTimeout l) (max (StreamTimeout l) (ExecTimeout l))
      in saturatingDurationSum [RequestTimeout l, RequestTimeout l, operationTimeout, 10 * second])"

section \<open>State machines\<close>

datatype admissionEvent = AcquireIdentity string | ReleaseIdentity string | AcquireStream | ReleaseStream

text \<open>
  The admission together with the holders that the callers know of: a slot is only given back by a request that holds it, as
  the deferred releases in the code do.
\<close>

inductive admission_run :: "int \<Rightarrow> requestAdmission \<Rightarrow> (string \<Rightarrow> nat) \<Rightarrow> nat \<Rightarrow> bool" for concurrent where
  start: "admission_run concurrent (newRequestAdmission concurrent) (\<lambda>_. 0) 0"
| acquire: "admission_run concurrent a held strs \<Longrightarrow> acquireIdentity identity a = (True, a') \<Longrightarrow>
    admission_run concurrent a' (held(identity := Suc (held identity))) strs"
| refuse: "admission_run concurrent a held strs \<Longrightarrow> acquireIdentity identity a = (False, a') \<Longrightarrow>
    admission_run concurrent a' held strs"
| release: "admission_run concurrent a held strs \<Longrightarrow> 0 < held identity \<Longrightarrow>
    admission_run concurrent (releaseIdentity identity a) (held(identity := held identity - 1)) strs"
| stream: "admission_run concurrent a held strs \<Longrightarrow> acquireStream (Some a) = (Inr (), Some a') \<Longrightarrow>
    admission_run concurrent a' held (Suc strs)"
| stream_end: "admission_run concurrent a held (Suc strs) \<Longrightarrow> admission_run concurrent (releaseStream a) held strs"

text \<open>The limiter after a sequence of requests, and the answers it gave.\<close>

fun allow_run :: "'l tokenBucket \<Rightarrow> (string \<times> instant) list \<Rightarrow> 'l identityRateLimiter \<Rightarrow> (bool \<times> string) list \<times> 'l identityRateLimiter" where
  "allow_run tb [] l = ([], l)"
| "allow_run tb ((subject, now) # es) l =
     (case Allow tb subject now l of (r, l1) \<Rightarrow> (case allow_run tb es l1 of (rs, l2) \<Rightarrow> (r # rs, l2)))"

section \<open>Interpretation of the ledger contract\<close>

text \<open>The rate limiter counts its entries only: every entry weighs nothing in bytes.\<close>

interpretation rl: byte_ledger rl_entries "\<lambda>l. 0" "\<lambda>e. 0" rl_put rl_delete
  by unfold_locales (simp_all add: rl_put_def rl_delete_def)

section \<open>Lemmas: rate limiter\<close>

lemma rl_frame [simp]:
  "requestsPerMinute (rl_put l k e) = requestsPerMinute l" "burst (rl_put l k e) = burst l"
  "requestsPerMinute (rl_delete l k e) = requestsPerMinute l" "burst (rl_delete l k e) = burst l"
  by (simp_all add: rl_put_def rl_delete_def)

lemma rl_prune_entries:
  "mwf (rl_entries l) \<Longrightarrow> rl_entries (rl_prune now l) = filter (\<lambda>(k, e). \<not> idle now e) (rl_entries l)"
  unfolding rl_prune_def by (rule rl.sweep_entries)

lemma rl_prune_params:
  "mwf (rl_entries l) \<Longrightarrow> requestsPerMinute (rl_prune now l) = requestsPerMinute l \<and> burst (rl_prune now l) = burst l"
  unfolding rl_prune_def
  by (rule rl.sweep_all_invariant [where I = "\<lambda>m. mwf (rl_entries m) \<and> requestsPerMinute m = requestsPerMinute l \<and> burst m = burst l", THEN conjunct2])
    (simp_all add: rl.entries_remove)

definition rl_inv :: "int \<Rightarrow> int \<Rightarrow> 'l identityRateLimiter \<Rightarrow> bool" where
  "rl_inv rpm b l =
     (mwf (rl_entries l) \<and> int (length (rl_entries l)) \<le> identityLimiterCapacity \<and>
      requestsPerMinute l = rpm \<and> burst l = b)"

lemma rl_sweep_inv [inv_intros]: "rl_inv rpm b l \<Longrightarrow> rl_inv rpm b (rl_sweep now l)"
proof -
  assume i: "rl_inv rpm b l"
  then have wf: "mwf (rl_entries l)" by (simp add: rl_inv_def)
  have "int (length (filter (\<lambda>(k, e). \<not> idle now e) (rl_entries l))) \<le> int (length (rl_entries l))" by simp
  then have "int (length (filter (\<lambda>(k, e). \<not> idle now e) (rl_entries l))) \<le> identityLimiterCapacity"
    using i unfolding rl_inv_def by linarith
  then show ?thesis
    using i wf by (simp add: rl_sweep_def rl_inv_def rl_prune_entries rl_prune_params mwf_filter)
qed

lemma Allow_state:
  assumes "Allow tb subject now l = (r, l')"
  shows "l' = l \<or> l' = rl_sweep now l \<or>
    (\<exists>e. l' = rl_put (rl_sweep now l) subject e \<and>
       (mget (rl_entries (rl_sweep now l)) subject = None \<longrightarrow> int (length (rl_entries (rl_sweep now l))) < identityLimiterCapacity))"
  using assms unfolding Allow_def Let_def by (auto split: if_splits prod.splits option.splits)

lemma rl_put_inv:
  assumes "rl_inv rpm b l" "mget (rl_entries l) subject = None \<longrightarrow> int (length (rl_entries l)) < identityLimiterCapacity"
  shows "rl_inv rpm b (rl_put l subject e)"
  using assms by (auto simp: rl_inv_def rl.entries_add length_mput)

lemma Allow_inv [inv_intros]: "Allow tb subject now l = (r, l') \<Longrightarrow> rl_inv rpm b l \<Longrightarrow> rl_inv rpm b l'"
  using Allow_state [of tb subject now l r l'] rl_sweep_inv [of rpm b l now] rl_put_inv [of rpm b "rl_sweep now l" subject] by auto

lemma allow_run_inv: "allow_run tb es l = (rs, l') \<Longrightarrow> rl_inv rpm b l \<Longrightarrow> rl_inv rpm b l'"
proof (induction es arbitrary: l rs)
  case (Cons e es)
  then show ?case by (cases e) (auto split: prod.splits dest: Allow_inv)
qed simp

lemma mget_rl_sweep:
  assumes "mwf (rl_entries l)"
  shows "mget (rl_entries (rl_sweep now l)) k =
    (if (is_zero_time (lastSweep l) \<or> minute \<le> time_sub now (lastSweep l)) \<and> (\<exists>e. mget (rl_entries l) k = Some e \<and> idle now e)
     then None else mget (rl_entries l) k)"
proof -
  show ?thesis
    using assms mget_filter [OF assms, of "\<lambda>e. \<not> idle now e" k]
    by (auto simp: rl_sweep_def rl_prune_entries split: option.splits)
qed

section \<open>Lemmas: admission\<close>

definition admission_inv :: "int \<Rightarrow> requestAdmission \<Rightarrow> (string \<Rightarrow> nat) \<Rightarrow> nat \<Rightarrow> bool" where
  "admission_inv concurrent a held strs =
     (mwf (identities a) \<and> perIdentity a = max 1 (quot (concurrent + 1) 2) \<and> streams_cap a = max 0 (concurrent - 1) \<and>
      (\<forall>k. identity_count a k = int (held k)) \<and> (\<forall>k. int (held k) \<le> perIdentity a) \<and>
      (\<forall>k. mget (identities a) k \<noteq> Some 0) \<and> streams a = int strs \<and> streams a \<le> streams_cap a)"

lemma admission_run_inv: "admission_run concurrent a held strs \<Longrightarrow> admission_inv concurrent a held strs"
proof (induction rule: admission_run.induct)
  case start
  then show ?case by (simp add: admission_inv_def newRequestAdmission_def identity_count_def)
next
  case (acquire a held strs identity a')
  have a': "a' = a\<lparr>identities := mput (identities a) identity (identity_count a identity + 1)\<rparr>"
    "identity_count a identity < perIdentity a"
    using acquire.hyps(2) by (auto simp: acquireIdentity_def split: if_splits)
  have c: "identity_count a' k = (if k = identity then identity_count a identity + 1 else identity_count a k)" for k
    by (simp add: a'(1) identity_count_def)
  have h: "int ((held(identity := Suc (held identity))) k) \<le> perIdentity a" for k
  proof -
    have "identity_count a identity = int (held identity)" "int (held k) \<le> perIdentity a"
      using acquire.IH unfolding admission_inv_def by blast+
    with a'(2) show ?thesis by simp
  qed
  have f: "mwf (identities a')" "perIdentity a' = perIdentity a" "streams_cap a' = streams_cap a" "streams a' = streams a"
    "mget (identities a') k \<noteq> Some 0" for k
    using acquire.IH by (auto simp: a'(1) admission_inv_def)
  from acquire.IH c h f show ?case
    unfolding admission_inv_def by simp
next
  case (refuse a held strs identity a')
  then show ?case by (simp add: acquireIdentity_def split: if_splits)
next
  case (release a held strs identity)
  have c: "identity_count (releaseIdentity identity a) k =
      (if k = identity then identity_count a identity - 1 else identity_count a k)" for k
    by (simp add: releaseIdentity_def identity_count_def Let_def)
  have z: "mget (identities (releaseIdentity identity a)) k \<noteq> Some 0" for k
    using release.IH by (simp add: releaseIdentity_def admission_inv_def Let_def)
  have h: "int ((held(identity := held identity - 1)) k) \<le> perIdentity a" for k
  proof -
    have "int (held k) \<le> perIdentity a" using release.IH unfolding admission_inv_def by blast
    then show ?thesis by (auto simp: of_nat_diff)
  qed
  have f: "mwf (identities (releaseIdentity identity a))" "perIdentity (releaseIdentity identity a) = perIdentity a"
    "streams_cap (releaseIdentity identity a) = streams_cap a" "streams (releaseIdentity identity a) = streams a"
    using release.IH by (auto simp: releaseIdentity_def admission_inv_def Let_def)
  have n: "identity_count (releaseIdentity identity a) k = int ((held(identity := held identity - 1)) k)" for k
    using release.IH release.hyps(2) unfolding c admission_inv_def by (simp add: of_nat_diff)
  show ?case
    using release.IH z h n f(1) unfolding admission_inv_def f(2-4) by blast
next
  case (stream a held strs a')
  then show ?case
    by (auto simp: admission_inv_def acquireStream_def identity_count_def split: if_splits)
next
  case (stream_end a held strs)
  then show ?case by (auto simp: admission_inv_def releaseStream_def identity_count_def)
qed

section \<open>Lemmas: time limits\<close>

lemma saturating_sum_from_eq:
  assumes "0 \<le> acc" "acc \<le> max_int64" and "\<forall>v \<in> set ds. 0 \<le> v \<and> v \<le> max_int64"
  shows "saturating_sum_from acc ds = min max_int64 (acc + sum_list ds)"
  using assms
proof (induction ds arbitrary: acc)
  case (Cons v vs)
  have nn: "0 \<le> sum_list vs" using Cons.prems(3) by (intro sum_list_nonneg) auto
  have w: "wrap64 (max_int64 - acc) = max_int64 - acc"
    using Cons.prems by (intro wrap64_id) (auto simp: min_int64_def max_int64_def)
  show ?case
  proof (cases "max_int64 - acc < v")
    case True
    then show ?thesis using nn w by simp
  next
    case False
    then have "wrap64 (acc + v) = acc + v"
      using Cons.prems by (intro wrap64_id) (auto simp: min_int64_def)
    then show ?thesis using False w Cons.IH [of "acc + v"] Cons.prems by (simp add: algebra_simps)
  qed
qed simp

section \<open>Properties\<close>

text \<open>
  Admission limits. In every history in which slots are only given back by their holders, an identity holds at most half of the
  concurrency (rounded up, at least one), the number of open streams stays below the concurrency, so that a slot is left for
  short requests, and the table holds exactly the identities with requests in flight.
\<close>

theorem admission_limits:
  assumes "admission_run concurrent a held strs" and "1 \<le> concurrent"
  shows "int (held identity) \<le> (concurrent + 1) div 2 \<and> int strs \<le> concurrent - 1 \<and>
    (mget (identities a) identity = (if held identity = 0 then None else Some (int (held identity))))"
proof -
  have inv: "admission_inv concurrent a held strs" using assms(1) by (rule admission_run_inv)
  have "int (held identity) \<le> perIdentity a" "perIdentity a = max 1 (quot (concurrent + 1) 2)"
    "identity_count a identity = int (held identity)" "mget (identities a) identity \<noteq> Some 0"
    "int strs \<le> max 0 (concurrent - 1)"
    using inv unfolding admission_inv_def by auto
  then show ?thesis
    using assms(2) by (auto simp: quot_nonneg identity_count_def split: option.splits)
qed

text \<open>
  Bounded limiter table. However many identities send requests, the rate limiter never keeps more than 10000 of them.
\<close>

theorem limiter_bounded:
  "int (length (rl_entries (snd (allow_run tb es (newIdentityRateLimiter rpm b))))) \<le> 10000"
proof -
  have "rl_inv rpm b (newIdentityRateLimiter rpm b)"
    by (simp add: rl_inv_def newIdentityRateLimiter_def identityLimiterCapacity_def)
  from allow_run_inv [OF surjective_pairing this, of tb es] show ?thesis
    by (simp add: rl_inv_def identityLimiterCapacity_def)
qed

text \<open>
  Identities do not share tokens. A request of one identity leaves the entry of every other identity as it was, or drops it
  when that identity has been idle for a quarter of an hour.
\<close>

theorem limiter_isolated:
  assumes "mwf (rl_entries l)" and "other \<noteq> subject"
  shows "mget (rl_entries (snd (Allow tb subject now l))) other = mget (rl_entries l) other \<or>
    (mget (rl_entries (snd (Allow tb subject now l))) other = None \<and>
     (\<exists>e. mget (rl_entries l) other = Some e \<and> 15 * minute \<le> time_sub now (lastSeen e)))"
proof -
  obtain r l' where r: "Allow tb subject now l = (r, l')" by (cases "Allow tb subject now l")
  show ?thesis
    using Allow_state [OF r] assms
    by (auto simp: r rl.entries_add mget_rl_sweep idle_def split: if_splits)
qed

text \<open>
  An idle identity starts afresh. A request of an identity whose last accepted request is a quarter of an hour old, at a time when
  a sweep is due, is decided by a new token bucket with a full burst, whatever the state of the old bucket was. With a burst larger than fifteen times
  the rate per minute, which \<open>Validate\<close> accepts, the identity obtains tokens faster than the configured rate.
\<close>

theorem idle_identity_gets_new_bucket:
  assumes "mwf (rl_entries l)" and "mget (rl_entries l) subject = Some e" and "subject \<noteq> []"
    and "15 * minute \<le> time_sub now (lastSeen e)" and "minute \<le> time_sub now (lastSweep l)"
    and "int (length (rl_entries (rl_sweep now l))) < identityLimiterCapacity"
  shows "fst (fst (Allow tb subject now l)) = fst (allowN tb now (newLimiter tb (requestsPerMinute l) (burst l)))"
proof -
  have n: "mget (rl_entries (rl_sweep now l)) subject = None"
    using assms by (simp add: mget_rl_sweep idle_def)
  have "requestsPerMinute (rl_sweep now l) = requestsPerMinute l" "burst (rl_sweep now l) = burst l"
    using rl_prune_params [OF assms(1)] by (simp_all add: rl_sweep_def)
  with n assms(3,6) show ?thesis
    by (simp add: Allow_def Let_def split: prod.splits)
qed

text \<open>
  The write timeout of the server covers a request. For a configuration that \<open>Validate\<close> accepts, the write timeout is twice the request
  timeout plus the longest operation timeout plus ten seconds, or the largest duration if that does not fit; it never wraps around,
  so it is longer than the work it has to cover.
\<close>

theorem write_timeout_covers:
  assumes "Validate cfg = None"
    and "RequestTimeout (cfg_Limits cfg) \<le> max_int64" "StreamTimeout (cfg_Limits cfg) \<le> max_int64"
    and "ExecTimeout (cfg_Limits cfg) \<le> max_int64"
  shows "serverWriteTimeout cfg =
    min max_int64 (2 * RequestTimeout (cfg_Limits cfg) +
      max (RequestTimeout (cfg_Limits cfg)) (max (StreamTimeout (cfg_Limits cfg)) (ExecTimeout (cfg_Limits cfg))) + 10 * second)"
proof -
  let ?r = "RequestTimeout (cfg_Limits cfg)"
  let ?m = "max ?r (max (StreamTimeout (cfg_Limits cfg)) (ExecTimeout (cfg_Limits cfg)))"
  have "saturating_sum_from 0 [?r, ?r, ?m, 10 * second] = min max_int64 (0 + sum_list [?r, ?r, ?m, 10 * second])"
    using Validate_None(8,9,10) [OF assms(1)] assms(2-4)
    by (intro saturating_sum_from_eq) (auto simp: max_int64_def)
  then show ?thesis
    by (simp add: serverWriteTimeout_def Let_def saturatingDurationSum_def algebra_simps del: saturating_sum_from.simps)
qed

section \<open>Witnesses\<close>

text \<open>A token bucket that counts its tokens and never refills.\<close>

definition sample_bucket :: "int tokenBucket" where
  "sample_bucket = \<lparr>newLimiter = (\<lambda>rpm b. b), allowN = (\<lambda>now n. if 0 < n then (True, n - 1) else (False, n))\<rparr>"

definition sample_limiter :: "int identityRateLimiter" where
  "sample_limiter =
     \<lparr>rl_entries = [(''alice'', \<lparr>limiter = 0, lastSeen = 1000\<rparr>)], requestsPerMinute = 1, burst = 1000, lastSweep = 2000\<rparr>"

lemma sample_admission_run:
  "admission_run 4 \<lparr>identities = [(''alice'', 1)], perIdentity = 2, streams = 0, streams_cap = 3\<rparr> ((\<lambda>_. 0)(''alice'' := Suc 0)) 0"
  by (rule admission_run.acquire [OF admission_run.start, where identity = "''alice''"])
    (simp add: acquireIdentity_def newRequestAdmission_def identity_count_def quot_def mput_def)

theorem admission_limits_witness:
  "int (((\<lambda>_. 0)(''alice'' := Suc 0)) ''alice'') \<le> (4 + 1) div 2 \<and> int 0 \<le> 4 - (1::int)"
  using admission_limits [OF sample_admission_run, of "''alice''"] by simp

theorem limiter_isolated_witness:
  "mget (rl_entries (snd (Allow sample_bucket ''bob'' 3000 sample_limiter))) ''alice'' =
     Some \<lparr>limiter = 0, lastSeen = 1000\<rparr>"
  using limiter_isolated [of sample_limiter "''alice''" "''bob''" sample_bucket 3000]
  by (simp add: sample_limiter_def mwf_def mget_def time_sub_def sat64_def max_int64_def min_int64_def)

text \<open>At one request per minute and a burst of 1000, an exhausted bucket is full again after a quarter of an hour.\<close>

theorem idle_identity_gets_new_bucket_witness:
  "fst (fst (Allow sample_bucket ''alice'' (1000 + 15 * minute) sample_limiter)) = True"
proof -
  have "rl_entries (rl_sweep (1000 + 15 * minute) sample_limiter) = []"
    by (simp add: rl_sweep_def rl_prune_def sweep_def sample_limiter_def time_sub_def sat64_def max_int64_def min_int64_def
        idle_def rl_delete_def mdel_def)
  then show ?thesis
    using idle_identity_gets_new_bucket [of sample_limiter "''alice''" "\<lparr>limiter = 0, lastSeen = 1000\<rparr>" "1000 + 15 * minute" sample_bucket]
    by (simp add: sample_limiter_def sample_bucket_def mwf_def mget_def time_sub_def sat64_def max_int64_def min_int64_def
        identityLimiterCapacity_def)
qed

theorem write_timeout_covers_witness:
  "serverWriteTimeout sample_config = 130 * second"
  using write_timeout_covers [OF sample_config_valid]
  by (simp add: sample_fields max_int64_def)

end
