(* ===== verification/Remote.thy ===== *)
theory Remote
  imports Plan_Store Admission
begin

text \<open>
  Remote commands (\<open>internal/server/remote.go\<close>): the time limit, the choice of the container, the bounded output buffers and
  \<open>executeRemote\<close>. The SPDY executor of the Kubernetes client is a parameter: it receives the request that the code built
  and delivers, in the order of arrival, the chunks it wrote to the two buffers and the error it ended with, if any.
\<close>

record Pod =
  pod_Labels :: "(string \<times> string) list"
  pod_Annotations :: "(string \<times> string) list"
  pod_UID :: string
  pod_ResourceVersion :: string
  pod_Containers :: "string list"

definition remoteTimeout :: "Config \<Rightarrow> int \<Rightarrow> duration" where
  "remoteTimeout cfg seconds =
     (let maximum = ExecTimeout (cfg_Limits cfg) in
      if seconds \<le> 0 then maximum
      else let wanted = wrap64 (seconds * second)
           in if maximum < wanted then maximum else wanted)"

definition default_container_annotation :: string where
  "default_container_annotation = ''kubectl.kubernetes.io/default-container''"

definition resolveContainer :: "Pod \<Rightarrow> string \<Rightarrow> (gerr, string) res" where
  "resolveContainer pod requested =
     (if requested \<in> set (pod_Containers pod) then Inr requested
      else if requested \<noteq> [] then Inl (policyError ''invalid_input'' (''container '' @ go_quote requested @ '' does not exist''))
      else let name = (case mget (pod_Annotations pod) default_container_annotation of Some n \<Rightarrow> n | None \<Rightarrow> [])
           in if name \<noteq> [] \<and> name \<in> set (pod_Containers pod) then Inr name
              else (case pod_Containers pod of c # cs \<Rightarrow> Inr c
                    | [] \<Rightarrow> Inl (policyError ''invalid_input'' ''Pod has no containers'')))"

section \<open>Progress buffers\<close>

record progressBuffer =
  pb_buffer :: string
  pb_limit :: int
  pb_truncated :: bool
  pb_notified :: "string list"

definition newProgressBuffer :: "int \<Rightarrow> progressBuffer" where
  "newProgressBuffer limit = \<lparr>pb_buffer = [], pb_limit = limit, pb_truncated = False, pb_notified = []\<rparr>"

text \<open>\<open>Write\<close>; it always reports the whole chunk as written. \<open>pb_notified\<close> collects the progress notifications.\<close>

definition pb_Write :: "string \<Rightarrow> progressBuffer \<Rightarrow> progressBuffer" where
  "pb_Write data b =
     (let remaining = pb_limit b - int (length (pb_buffer b)) in
      if remaining \<le> 0 then b\<lparr>pb_truncated := True\<rparr>
      else let data' = (if remaining < int (length data) then take (nat remaining) data else data)
           in b\<lparr>pb_buffer := pb_buffer b @ data',
                pb_truncated := (pb_truncated b \<or> remaining < int (length data)),
                pb_notified := (if 0 < length data' then pb_notified b @ [data'] else pb_notified b)\<rparr>)"

section \<open>executeRemote\<close>

record remoteRequest =
  rr_Verb :: string
  rr_Namespace :: string
  rr_Name :: string
  rr_Container :: string
  rr_Command :: "string list"
  rr_Stdin :: "string option"
  rr_Timeout :: duration

record remoteStream =
  rs_Stdout :: "string list"
  rs_Stderr :: "string list"
  rs_Error :: "(gerr \<times> int option) option"

text \<open>The request, the buffers after the stream, and the result map with the error, as the function returns both.\<close>

definition remote_request :: "Config \<Rightarrow> Operation \<Rightarrow> remoteRequest" where
  "remote_request cfg operation =
     (let verb = (if act_Action (op_Action operation) = ''attach'' then ''attach'' else ''exec'')
      in \<lparr>rr_Verb = verb, rr_Namespace = op_Namespace operation, rr_Name = op_Name operation, rr_Container = op_Container operation,
          rr_Command = (if verb = ''exec'' then op_Command operation else []),
          rr_Stdin = (if op_Stdin operation \<noteq> [] then Some (op_Stdin operation) else None),
          rr_Timeout = remoteTimeout cfg (op_TimeoutSeconds operation)\<rparr>)"

definition remote_result :: "Config \<Rightarrow> string \<Rightarrow> remoteStream \<Rightarrow> gmap \<times> gerr option" where
  "remote_result cfg verb stream =
     (let limit = quot (MaxOutputBytes (cfg_Limits cfg)) 2;
          stdout = fold pb_Write (rs_Stdout stream) (newProgressBuffer limit);
          stderr = fold pb_Write (rs_Stderr stream) (newProgressBuffer limit);
          result = [(''stdout'', GStr (pb_buffer stdout)), (''stderr'', GStr (pb_buffer stderr)),
                    (''truncated'', GBool (pb_truncated stdout \<or> pb_truncated stderr))]
      in case rs_Error stream of
           None \<Rightarrow> (result, None)
         | Some (err, status) \<Rightarrow>
            (result @ [(''error'', GStr (error_text err))]
               @ (case status of Some n \<Rightarrow> [(''exitCode'', GInt n)] | None \<Rightarrow> []),
             Some (Wrapped (''remote '' @ verb @ '' failed'') err)))"

definition executeRemote ::
  "Config \<Rightarrow> (remoteRequest \<Rightarrow> 'w \<Rightarrow> (gerr, remoteStream) res \<times> 'w) \<Rightarrow> Operation \<Rightarrow> 'w \<Rightarrow> (gmap option \<times> gerr option) \<times> 'w" where
  "executeRemote cfg run operation w =
     (let request = remote_request cfg operation
      in case run request w of
           (Inl err, w') \<Rightarrow> ((None, Some (Wrapped ''create remote executor'' err)), w')
         | (Inr stream, w') \<Rightarrow>
            (case remote_result cfg (rr_Verb request) stream of (result, err) \<Rightarrow> ((Some result, err), w')))"

section \<open>Lemmas\<close>

text \<open>What a buffer holds after any chunks: the prefix of everything that was written, cut at the limit.\<close>

lemma pb_Write_frame [simp]: "pb_limit (pb_Write d b) = pb_limit b"
  by (simp add: pb_Write_def Let_def)

lemma pb_writes:
  assumes "0 \<le> limit" "b = fold pb_Write chunks (newProgressBuffer limit)"
  shows "pb_limit b = limit \<and> pb_buffer b = take (nat limit) (concat chunks) \<and> concat (pb_notified b) = pb_buffer b \<and>
    (pb_truncated b \<longrightarrow> limit \<le> int (length (concat chunks))) \<and>
    (limit < int (length (concat chunks)) \<longrightarrow> pb_truncated b)"
  using assms(2)
proof (induction chunks arbitrary: b rule: rev_induct)
  case Nil
  then show ?case using assms(1) by (simp add: newProgressBuffer_def)
next
  case (snoc d chunks)
  define b0 where "b0 = fold pb_Write chunks (newProgressBuffer limit)"
  have b: "b = pb_Write d b0" using snoc.prems by (simp add: b0_def)
  have IH: "pb_limit b0 = limit" "pb_buffer b0 = take (nat limit) (concat chunks)" "concat (pb_notified b0) = pb_buffer b0"
    "pb_truncated b0 \<longrightarrow> limit \<le> int (length (concat chunks))" "limit < int (length (concat chunks)) \<longrightarrow> pb_truncated b0"
    using snoc.IH [OF b0_def] by blast+
  show ?case
  proof (cases "limit \<le> int (length (concat chunks))")
    case True
    then have "nat limit \<le> length (concat chunks)" by simp
    then have "length (pb_buffer b0) = nat limit" "take (nat limit) (concat (chunks @ [d])) = pb_buffer b0"
      using IH(2) by simp_all
    then show ?thesis using IH assms(1) True by (simp add: b pb_Write_def Let_def)
  next
    case False
    then have buf: "pb_buffer b0 = concat chunks" "\<not> pb_truncated b0" using IH(2,4) by auto
    define r where "r = limit - int (length (concat chunks))"
    have r: "0 < r" using False by (simp add: r_def)
    have "take (nat limit) (concat chunks @ d) = concat chunks @ take (nat r) d"
      using False by (simp add: r_def nat_diff_distrib' take_append)
    then show ?thesis
      using IH(1,3) buf r by (auto simp: b pb_Write_def Let_def r_def)
  qed
qed

section \<open>Properties\<close>

text \<open>
  Remote output is bounded. Whatever chunks arrive, each of the two output texts of a remote command is the prefix of what was written, cut at half of the output
  limit; the notifications carry exactly the kept text; and the result says truncated whenever something was cut.
\<close>

theorem remote_output_bounded:
  assumes "0 \<le> MaxOutputBytes (cfg_Limits cfg)" and "remote_result cfg verb stream = (result, err)"
  shows "mget result ''stdout'' = Some (GStr (take (nat (MaxOutputBytes (cfg_Limits cfg) div 2)) (concat (rs_Stdout stream)))) \<and>
    mget result ''stderr'' = Some (GStr (take (nat (MaxOutputBytes (cfg_Limits cfg) div 2)) (concat (rs_Stderr stream)))) \<and>
    (mget result ''truncated'' = Some (GBool False) \<longrightarrow>
       int (length (concat (rs_Stdout stream))) \<le> MaxOutputBytes (cfg_Limits cfg) div 2 \<and>
       int (length (concat (rs_Stderr stream))) \<le> MaxOutputBytes (cfg_Limits cfg) div 2) \<and>
    (err = None \<longleftrightarrow> rs_Error stream = None)"
proof -
  let ?l = "MaxOutputBytes (cfg_Limits cfg) div 2"
  have l: "quot (MaxOutputBytes (cfg_Limits cfg)) 2 = ?l" "0 \<le> ?l" using assms(1) by (simp_all add: quot_nonneg)
  define a b where "a = fold pb_Write (rs_Stdout stream) (newProgressBuffer ?l)"
    and "b = fold pb_Write (rs_Stderr stream) (newProgressBuffer ?l)"
  note so = pb_writes [OF l(2) a_def(1)] and se = pb_writes [OF l(2) b_def]
  define base where "base = [(''stdout'', GStr (pb_buffer a)), (''stderr'', GStr (pb_buffer b)),
      (''truncated'', GBool (pb_truncated a \<or> pb_truncated b))]"
  have "\<exists>t. result = base @ t" and err: "err = None \<longleftrightarrow> rs_Error stream = None"
    using assms(2) unfolding remote_result_def Let_def l(1) a_def [symmetric] b_def [symmetric] base_def [symmetric]
    by (cases "rs_Error stream"; force)+
  then obtain t where t: "result = base @ t" by blast
  have m: "mget result ''stdout'' = Some (GStr (pb_buffer a))" "mget result ''stderr'' = Some (GStr (pb_buffer b))"
    "mget result ''truncated'' = Some (GBool (pb_truncated a \<or> pb_truncated b))"
    unfolding t base_def by (simp_all add: mget_def)
  have "int (length (concat (rs_Stdout stream))) \<le> ?l" if "\<not> pb_truncated a" using so that by linarith
  moreover have "int (length (concat (rs_Stderr stream))) \<le> ?l" if "\<not> pb_truncated b" using se that by linarith
  ultimately show ?thesis unfolding m using so se err by simp
qed

text \<open>
  Property C38 (the time limit of remote commands). For up to 292 years of requested seconds the time limit of a remote command is the requested one, capped by \<open>execTimeout\<close>. Beyond,
  the product wraps around: with 9223372037 seconds the limit is a negative duration, so the stream expires at once and the one-time plan is lost.
\<close>

theorem remote_timeout_capped:
  assumes "0 < ExecTimeout (cfg_Limits cfg)"
  shows "(seconds \<le> 9223372036 \<longrightarrow>
       remoteTimeout cfg seconds = (if seconds \<le> 0 then ExecTimeout (cfg_Limits cfg) else min (seconds * second) (ExecTimeout (cfg_Limits cfg)))) \<and>
    remoteTimeout cfg 9223372037 < 0"
proof -
  have "wrap64 (seconds * second) = seconds * second" if "0 < seconds" "seconds \<le> 9223372036"
    using that by (intro wrap64_id) (auto simp: min_int64_def max_int64_def)
  then show ?thesis using assms by (auto simp: remoteTimeout_def Let_def min_def wrap64_def)
qed

text \<open>
  The container is one of the pod's. The container chosen for a remote command is a container of the pod: the requested one if a name was given, otherwise the
  annotated default if it exists, otherwise the first; it fails exactly when the requested one is missing or there is none.
\<close>

theorem resolved_container_exists:
  assumes "[] \<notin> set (pod_Containers pod)"
  shows "case resolveContainer pod requested of
      Inr c \<Rightarrow> c \<in> set (pod_Containers pod) \<and> (requested \<noteq> [] \<longrightarrow> c = requested)
    | Inl e \<Rightarrow> (requested \<noteq> [] \<and> requested \<notin> set (pod_Containers pod)) \<or> pod_Containers pod = []"
  using assms by (auto simp: resolveContainer_def Let_def split: list.splits if_splits)

section \<open>Witnesses\<close>

theorem remote_output_bounded_witness:
  "mget (fst (remote_result sample_config ''exec'' \<lparr>rs_Stdout = [''ab'', ''cd''], rs_Stderr = [], rs_Error = None\<rparr>)) ''stdout'' =
   Some (GStr ''abcd'')"
  using remote_output_bounded [OF _ surjective_pairing, of sample_config "''exec''" "\<lparr>rs_Stdout = [''ab'', ''cd''], rs_Stderr = [], rs_Error = None\<rparr>"]
  by (simp add: sample_fields)

theorem remote_timeout_capped_witness:
  "remoteTimeout sample_config 10 = 10 * second \<and> remoteTimeout sample_config 9223372037 < 0"
  using remote_timeout_capped [of sample_config 10] by (simp add: sample_fields)

theorem resolved_container_exists_witness:
  "case resolveContainer \<lparr>pod_Labels = [], pod_Annotations = [], pod_UID = ''u'', pod_ResourceVersion = ''1'', pod_Containers = [''web'', ''log'']\<rparr> ''log'' of
      Inr c \<Rightarrow> c = ''log'' | Inl e \<Rightarrow> False"
  using resolved_container_exists [of "\<lparr>pod_Labels = [], pod_Annotations = [], pod_UID = ''u'', pod_ResourceVersion = ''1'', pod_Containers = [''web'', ''log'']\<rparr>" "''log''"]
  by (auto split: sum.splits)

end
