(* ===== verification/Operations.thy ===== *)
theory Operations
  imports Safe_Write Redaction Capability Remote
begin

text \<open>
  Planning and committing writes (\<open>internal/server/operations.go\<close>).

  The Kubernetes API is a parameter over an arbitrary state of the outside world: \<open>k_do\<close> performs one request of the dynamic client,
  \<open>k_pod\<close> reads a pod with the typed client, \<open>k_remote\<close> opens a remote stream and \<open>k_authz\<close> asks for access reviews. The accessors
  of unstructured objects belong to the client library too (\<open>unstructuredOps\<close>). Time limits only show as errors of these calls.
  A request body is kept as a value; the bytes on the wire are its \<open>json_marshal\<close>.
\<close>

record target =
  tgt_GVR :: GroupVersionResource
  tgt_Namespace :: "string option"

datatype patchKind = ApplyPatch | MergePatch | JSONPatch

record deleteOptions =
  del_GracePeriod :: "int option"
  del_UID :: string
  del_ResourceVersion :: string

text \<open>A request of the dynamic client; the flag says whether it is a dry run.\<close>

datatype kubeRequest =
    Get target string
  | CreateReq target gmap bool string
  | PatchReq target string patchKind gval bool string bool "string list"
  | UpdateReq target gmap bool string
  | DeleteReq target string deleteOptions bool

record 'w kube =
  k_authz :: "'w authzApi"
  k_do :: "kubeRequest \<Rightarrow> ('w, gerr, gmap) io"
  k_pod :: "string \<Rightarrow> string \<Rightarrow> ('w, gerr, Pod) io"
  k_remote :: "remoteRequest \<Rightarrow> ('w, gerr, remoteStream) io"

record unstructuredOps =
  NestedName :: "gmap \<Rightarrow> string"
  GetName :: "gmap \<Rightarrow> string"
  GetUID :: "gmap \<Rightarrow> string"
  GetResourceVersion :: "gmap \<Rightarrow> string"
  GetAPIVersion :: "gmap \<Rightarrow> string"
  GetKind :: "gmap \<Rightarrow> string"
  GetLabels :: "gmap \<Rightarrow> (string \<times> string) list"
  SetGroupVersionKind :: "string \<Rightarrow> string \<Rightarrow> string \<Rightarrow> gmap \<Rightarrow> gmap"
  SetName :: "string \<Rightarrow> gmap \<Rightarrow> gmap"
  SetNamespace :: "string \<Rightarrow> gmap \<Rightarrow> gmap"
  SetResourceVersion :: "string \<Rightarrow> gmap \<Rightarrow> gmap"

definition dynamicResource :: "Action \<Rightarrow> string \<Rightarrow> target" where
  "dynamicResource action namespace =
     \<lparr>tgt_GVR = act_GVR action, tgt_Namespace = (if act_Namespaced action then Some namespace else None)\<rparr>"

definition field_manager :: string where
  "field_manager = ''supek8smcp''"

section \<open>Helpers\<close>

text \<open>
  A copy through \<open>json.Marshal\<close> and \<open>json.Unmarshal\<close>: invalid UTF-8 becomes U+FFFD, integers become floats, string slices become
  slices of any. Objects that come from a tool call hold no integers, so the precision of large integers does not matter here.
\<close>

fun valid_utf8 :: "string \<Rightarrow> string" where
  "valid_utf8 [] = []"
| "valid_utf8 (c # s) =
     (if rune_width (c # s) = 0 then bytes [239, 191, 189] @ valid_utf8 s
      else take (rune_width (c # s)) (c # s) @ valid_utf8 (drop (rune_width (c # s) - 1) s))"

fun json_copy :: "gval \<Rightarrow> gval" where
  "json_copy (GInt n) = float_value n"
| "json_copy (GInt64 n) = float_value n"
| "json_copy (GStr s) = GStr (valid_utf8 s)"
| "json_copy (GUID s) = GStr (valid_utf8 s)"
| "json_copy (GStrs ss) = (if ss = [] then GNil else GArr (map (\<lambda>s. GStr (valid_utf8 s)) ss))"
| "json_copy (GArr xs) = GArr (map json_copy xs)"
| "json_copy (GObj kvs) = GObj (fold (\<lambda>(k, v) m. mput m k v) (map (\<lambda>(k, v). (valid_utf8 k, json_copy v)) kvs) [])"
| "json_copy v = v"

definition operationObject :: "unstructuredOps \<Rightarrow> Operation \<Rightarrow> (gerr, gmap) res" where
  "operationObject U operation =
     (case op_Object operation of
        None \<Rightarrow> Inl (policyError ''invalid_input'' ''object is required'')
      | Some m \<Rightarrow>
         (let copy = map_or_nil (json_copy (GObj m));
              a = op_Action operation;
              o1 = SetGroupVersionKind U (act_Group a) (act_Version a) (act_Kind a) copy;
              o2 = (if op_Name operation \<noteq> [] then SetName U (op_Name operation) o1 else o1);
              o3 = (if act_Namespaced a then SetNamespace U (op_Namespace operation) o2 else o2)
          in Inr o3))"

definition addPatchResourceVersion :: "gval \<Rightarrow> patchKind \<Rightarrow> string \<Rightarrow> (gerr, gval) res" where
  "addPatchResourceVersion body patchType resourceVersion =
     (if patchType = JSONPatch then
        (case as_list (json_copy body) of
           None \<Rightarrow> Inl (policyError ''invalid_input'' ''JSON patch must be an array'')
         | Some operations \<Rightarrow>
            Inr (GArr (GObj [(''op'', GStr ''test''), (''path'', GStr ''/metadata/resourceVersion''), (''value'', GStr resourceVersion)]
                       # operations)))
      else (case as_map body of
              None \<Rightarrow> Inl (policyError ''invalid_input'' ''merge patch must be an object'')
            | Some object \<Rightarrow>
               Inr (GObj (mput object ''metadata''
                      (GObj (mput (map_or_nil (gfield object ''metadata'')) ''resourceVersion'' (GStr resourceVersion)))))))"

text \<open>\<open>stamp\<close> is the current time as RFC 3339 text. A restart writes its patch back into the operation.\<close>

definition restart_patch :: "string \<Rightarrow> gval" where
  "restart_patch stamp =
     GObj [(''spec'', GObj [(''template'', GObj [(''metadata'', GObj [(''annotations'',
       GObj [(''mcp.supek8smcp.io/restartedAt'', GStr stamp)])])])])]"

definition patch_body :: "string \<Rightarrow> Operation \<Rightarrow> (gerr, patchKind \<times> gval \<times> string list \<times> Operation) res" where
  "patch_body stamp operation =
     (let action = act_Action (op_Action operation) in
      if action = ''scale'' then
        (case op_Replicas operation of
           None \<Rightarrow> Inl (policyError ''invalid_input'' ''replicas is required for scale'')
         | Some n \<Rightarrow> Inr (MergePatch, GObj [(''spec'', GObj [(''replicas'', GInt64 n)])], [''scale''], operation))
      else if action = ''restart'' then
        (if op_Patch operation = GNil
         then Inr (MergePatch, restart_patch stamp, [], operation\<lparr>op_Patch := restart_patch stamp\<rparr>)
         else Inr (MergePatch, op_Patch operation, [], operation))
      else if action = ''patch'' then
        (if op_Patch operation = GNil then Inl (policyError ''invalid_input'' ''patch is required'')
         else if op_PatchType operation \<noteq> [] \<and> op_PatchType operation \<noteq> ''merge'' \<and> op_PatchType operation \<noteq> ''json''
           then Inl (policyError ''invalid_input'' ''patchType must be merge or json'')
         else Inr (if op_PatchType operation = ''json'' then JSONPatch else MergePatch, op_Patch operation, [], operation))
      else Inr (MergePatch, op_Patch operation, [], operation))"

definition preparePatch :: "string \<Rightarrow> Operation \<Rightarrow> (gerr, patchKind \<times> gval \<times> string list \<times> Operation) res" where
  "preparePatch stamp operation =
     bindR (patch_body stamp operation) (\<lambda>(patchType, body, subs, op').
       if op_ResourceVersion op' \<noteq> []
       then bindR (addPatchResourceVersion body patchType (op_ResourceVersion op')) (\<lambda>body'. Inr (patchType, body', subs, op'))
       else Inr (patchType, body, subs, op'))"

definition operationSummary :: "Operation \<Rightarrow> gmap" where
  "operationSummary x =
     [(''action'', GStr (act_Action (op_Action x))), (''verb'', GStr (act_Verb (op_Action x))),
      (''group'', GStr (act_Group (op_Action x))), (''version'', GStr (act_Version (op_Action x))),
      (''resource'', GStr (ResourceName (op_Action x))), (''namespace'', GStr (op_Namespace x)), (''name'', GStr (op_Name x)),
      (''targetUID'', GStr (op_TargetUID x)), (''resourceVersion'', GStr (op_ResourceVersion x))]"

definition rejectOperatorManaged :: "(string \<times> string) list \<Rightarrow> gerr option" where
  "rejectOperatorManaged labels =
     (if mget labels ''app.kubernetes.io/managed-by'' = Some ''supek8smcp-operator''
      then Some (policyError ''managed_resource_denied'' ''operator-managed resources may not be mutated through Kubernetes MCP'')
      else None)"

section \<open>Previews\<close>

text \<open>The cases of \<open>previewOperation\<close>: the preview, the previous object (nil if there is none), warnings and the updated operation.\<close>

type_synonym previewed = "gval \<times> gval \<times> string list \<times> Operation"

definition preview_create :: "unstructuredOps \<Rightarrow> 'w kube \<Rightarrow> Operation \<Rightarrow> ('w, gerr, previewed) io" where
  "preview_create U K operation =
     (let resource = dynamicResource (op_Action operation) (op_Namespace operation) in
      bindE (liftR (operationObject U operation)) (\<lambda>object.
      if GetName U object = [] then raise (policyError ''invalid_input'' ''object.metadata.name is required'')
      else let op1 = (if op_Name operation = [] then operation\<lparr>op_Name := GetName U object\<rparr> else operation) in
      bindE (tryE (k_do K (Get resource (op_Name op1)))) (\<lambda>found.
      case found of
        Inr _ \<Rightarrow> raise (policyError ''conflict'' ''resource already exists'')
      | Inl err \<Rightarrow>
         if \<not> is_not_found err then raise err
         else bindE (k_do K (CreateReq resource object True [])) (\<lambda>created.
           ret (GObj created, GNil, [], op1\<lparr>op_ExpectedAbsent := True\<rparr>)))))"

definition record_target :: "unstructuredOps \<Rightarrow> gmap \<Rightarrow> Operation \<Rightarrow> Operation" where
  "record_target U current operation =
     operation\<lparr>op_TargetUID := GetUID U current, op_ResourceVersion := GetResourceVersion U current\<rparr>"

definition preview_apply :: "unstructuredOps \<Rightarrow> 'w kube \<Rightarrow> Operation \<Rightarrow> ('w, gerr, previewed) io" where
  "preview_apply U K operation =
     (let resource = dynamicResource (op_Action operation) (op_Namespace operation) in
      bindE (liftR (operationObject U operation)) (\<lambda>object.
      if GetName U object = [] then raise (policyError ''invalid_input'' ''object.metadata.name is required'')
      else let op1 = operation\<lparr>op_Name := GetName U object\<rparr> in
      bindE (tryE (k_do K (Get resource (op_Name op1)))) (\<lambda>found.
      case found of
        Inl err \<Rightarrow>
          if is_not_found err
          then raise (policyError ''invalid_input'' ''apply target does not exist; use a create capability so creation remains atomic'')
          else raise err
      | Inr current \<Rightarrow>
         bindE (guardE (rejectOperatorManaged (GetLabels U current))) (\<lambda>_.
         let op2 = record_target U current op1;
             object' = SetResourceVersion U (op_ResourceVersion op2) object;
             op3 = op2\<lparr>op_Object := Some object'\<rparr>
         in bindE (k_do K (PatchReq resource (op_Name op3) ApplyPatch (GObj object') True field_manager (op_Force op3) [])) (\<lambda>applied.
            ret (GObj applied, GObj current, [], op3))))))"

definition preview_patch :: "unstructuredOps \<Rightarrow> 'w kube \<Rightarrow> string \<Rightarrow> Operation \<Rightarrow> ('w, gerr, previewed) io" where
  "preview_patch U K stamp operation =
     (let resource = dynamicResource (op_Action operation) (op_Namespace operation) in
      bindE (k_do K (Get resource (op_Name operation))) (\<lambda>current.
      bindE (guardE (rejectOperatorManaged (GetLabels U current))) (\<lambda>_.
      bindE (liftR (preparePatch stamp (record_target U current operation))) (\<lambda>(patchType, body, subs, op2).
      bindE (k_do K (PatchReq resource (op_Name op2) patchType body True field_manager False subs)) (\<lambda>patched.
      ret (GObj patched, if act_Action (op_Action operation) = ''scale'' then GNil else GObj current, [], op2))))))"

definition preview_update :: "unstructuredOps \<Rightarrow> 'w kube \<Rightarrow> Operation \<Rightarrow> ('w, gerr, previewed) io" where
  "preview_update U K operation =
     (let resource = dynamicResource (op_Action operation) (op_Namespace operation) in
      bindE (k_do K (Get resource (op_Name operation))) (\<lambda>current.
      bindE (guardE (rejectOperatorManaged (GetLabels U current))) (\<lambda>_.
      let op1 = record_target U current operation in
      bindE (liftR (operationObject U op1)) (\<lambda>object.
      let object' = SetResourceVersion U (GetResourceVersion U current) object;
          op2 = op1\<lparr>op_Object := Some object'\<rparr>
      in bindE (k_do K (UpdateReq resource object' True field_manager)) (\<lambda>updated.
         ret (GObj updated, GObj current, [], op2))))))"

definition delete_options :: "Operation \<Rightarrow> deleteOptions" where
  "delete_options operation =
     \<lparr>del_GracePeriod = op_GracePeriod operation, del_UID = op_TargetUID operation, del_ResourceVersion = op_ResourceVersion operation\<rparr>"

definition preview_delete :: "unstructuredOps \<Rightarrow> 'w kube \<Rightarrow> Operation \<Rightarrow> ('w, gerr, previewed) io" where
  "preview_delete U K operation =
     (let resource = dynamicResource (op_Action operation) (op_Namespace operation) in
      bindE (k_do K (Get resource (op_Name operation))) (\<lambda>current.
      bindE (guardE (rejectOperatorManaged (GetLabels U current))) (\<lambda>_.
      let op1 = record_target U current operation in
      bindE (k_do K (DeleteReq resource (op_Name op1) (delete_options op1) True)) (\<lambda>_.
      ret (GObj [(''apiVersion'', GStr (GetAPIVersion U current)), (''kind'', GStr (GetKind U current)),
             (''metadata'', GObj [(''name'', GStr (GetName U current)), (''uid'', GUID (GetUID U current)),
                (''resourceVersion'', GStr (GetResourceVersion U current))])],
           GNil, [], op1)))))"

definition remote_warning :: string where
  "remote_warning =
     ''remote execution cannot be server-side dry-run; commit will open the stream after rechecking the Pod UID and RBAC''"

definition preview_remote :: "'w kube \<Rightarrow> Operation \<Rightarrow> ('w, gerr, previewed) io" where
  "preview_remote K operation =
     bindE (k_pod K (op_Namespace operation) (op_Name operation)) (\<lambda>pod.
     bindE (guardE (rejectOperatorManaged (pod_Labels pod))) (\<lambda>_.
     bindE (liftR (resolveContainer pod (op_Container operation))) (\<lambda>container.
     let op1 = operation\<lparr>op_TargetUID := pod_UID pod, op_ResourceVersion := pod_ResourceVersion pod, op_Container := container\<rparr>
     in if act_Action (op_Action op1) = ''exec'' \<and> length (op_Command op1) = 0
        then raise (policyError ''invalid_input'' ''command is required for exec'')
        else ret (GObj [(''pod'', GStr (op_Name op1)), (''uid'', GUID (pod_UID pod)), (''container'', GStr (op_Container op1)),
                    (''command'', GStrs (op_Command op1)), (''stdinBytes'', GInt (int (length (op_Stdin op1)))), (''tty'', GBool False)],
                  GNil, [remote_warning], op1))))"

definition preview_switch :: "unstructuredOps \<Rightarrow> 'w kube \<Rightarrow> string \<Rightarrow> Operation \<Rightarrow> ('w, gerr, previewed) io" where
  "preview_switch U K stamp operation =
     (let action = act_Action (op_Action operation) in
      if action = ''create'' then preview_create U K operation
      else if action = ''apply'' then preview_apply U K operation
      else if action \<in> set [''patch'', ''scale'', ''restart''] then preview_patch U K stamp operation
      else if action = ''update'' then preview_update U K operation
      else if action = ''delete'' then preview_delete U K operation
      else if action = ''exec'' \<or> action = ''attach'' then preview_remote K operation
      else raise (policyError ''unsupported_operation'' ''operation is not implemented''))"

definition preview_checks :: "Config \<Rightarrow> Action \<Rightarrow> gval \<Rightarrow> gval \<Rightarrow> gerr option" where
  "preview_checks cfg action previous preview =
     (if cfg_Mode cfg = ModeSafeWrite then
        andthen (validateSafeTransition previous preview)
          (if act_Group action = [] \<and> act_Resource action = ''services'' then
             (case as_map preview of Some object \<Rightarrow> validateSafeServiceChange (Some object) GNil [] | None \<Rightarrow> None)
           else None)
      else None)"

definition previewOperation ::
  "unstructuredOps \<Rightarrow> Config \<Rightarrow> 'w kube \<Rightarrow> string \<Rightarrow> Operation \<Rightarrow> ('w, gerr, gval \<times> string list \<times> Operation) io" where
  "previewOperation U cfg K stamp operation =
     bindE (preview_switch U K stamp operation) (\<lambda>(preview, previous, warnings, op').
     bindE (guardE (preview_checks cfg (op_Action operation) previous preview)) (\<lambda>_.
     bindE (liftR (redactResult preview (op_Action operation) (SensitiveReads (cfg_Policy cfg)))) (\<lambda>redacted_preview.
     ret (redacted_preview, warnings, op'))))"

section \<open>Execution\<close>

definition object_result :: "(gerr, gmap) res \<Rightarrow> gmap option \<times> gerr option" where
  "object_result r = (case r of Inl e \<Rightarrow> (None, Some e) | Inr m \<Rightarrow> (Some m, None))"

text \<open>The request of every kind of operation but remote ones.\<close>

definition write_request :: "unstructuredOps \<Rightarrow> string \<Rightarrow> Operation \<Rightarrow> (gerr, kubeRequest) res" where
  "write_request U stamp operation =
     (let action = act_Action (op_Action operation);
          resource = dynamicResource (op_Action operation) (op_Namespace operation) in
      if action = ''create'' then
        bindR (operationObject U operation) (\<lambda>object. Inr (CreateReq resource object False field_manager))
      else if action = ''apply'' then
        bindR (operationObject U operation) (\<lambda>object.
          Inr (PatchReq resource (op_Name operation) ApplyPatch (GObj (SetResourceVersion U (op_ResourceVersion operation) object))
                 False field_manager (op_Force operation) []))
      else if action \<in> set [''patch'', ''scale'', ''restart''] then
        bindR (preparePatch stamp operation) (\<lambda>(patchType, body, subs, op').
          Inr (PatchReq resource (op_Name op') patchType body False field_manager False subs))
      else if action = ''update'' then
        bindR (operationObject U operation) (\<lambda>object.
          Inr (UpdateReq resource (SetResourceVersion U (op_ResourceVersion operation) object) False field_manager))
      else if action = ''delete'' then Inr (DeleteReq resource (op_Name operation) (delete_options operation) False)
      else Inl (policyError ''unsupported_operation'' ''operation is not implemented''))"

definition executeOperation ::
  "unstructuredOps \<Rightarrow> Config \<Rightarrow> 'w kube \<Rightarrow> string \<Rightarrow> Operation \<Rightarrow> 'w \<Rightarrow> (gmap option \<times> gerr option) \<times> 'w" where
  "executeOperation U cfg K stamp operation w =
     (if act_Action (op_Action operation) = ''exec'' \<or> act_Action (op_Action operation) = ''attach''
      then executeRemote cfg (k_remote K) operation w
      else (case write_request U stamp operation of
              Inl e \<Rightarrow> ((None, Some e), w)
            | Inr req \<Rightarrow>
               (case k_do K req w of (r, w') \<Rightarrow>
                  (if act_Action (op_Action operation) = ''delete''
                   then (case r of Inl e \<Rightarrow> (None, Some e)
                         | Inr _ \<Rightarrow> (Some [(''deleted'', GBool True), (''name'', GStr (op_Name operation)),
                                          (''uid'', GStr (op_TargetUID operation))], None))
                   else object_result r, w'))))"

definition checkOperationPreconditions :: "unstructuredOps \<Rightarrow> 'w kube \<Rightarrow> Operation \<Rightarrow> ('w, gerr, unit) io" where
  "checkOperationPreconditions U K operation =
     (let resource = dynamicResource (op_Action operation) (op_Namespace operation) in
      if op_ExpectedAbsent operation then
        bindE (tryE (k_do K (Get resource (op_Name operation)))) (\<lambda>found.
          case found of
            Inl err \<Rightarrow> if is_not_found err then ret () else raise err
          | Inr _ \<Rightarrow> raise (policyError ''conflict'' ''resource was created after the plan''))
      else if op_TargetUID operation = [] then ret ()
      else bindE (k_do K (Get resource (op_Name operation))) (\<lambda>current.
             if GetUID U current \<noteq> op_TargetUID operation \<or> GetResourceVersion U current \<noteq> op_ResourceVersion operation
             then raise (policyError ''conflict'' ''resource changed after the plan; create a new plan'') else ret ()))"

section \<open>Plan and commit\<close>

record PlanInput =
  pin_CapabilityID :: string
  pin_Namespace :: string
  pin_Name :: string
  pin_Object :: "gmap option"
  pin_Patch :: gval
  pin_PatchType :: string
  pin_Replicas :: "int option"
  pin_Command :: "string list"
  pin_Container :: string
  pin_Stdin :: string
  pin_TimeoutSeconds :: int
  pin_GracePeriodSeconds :: "int option"
  pin_Force :: bool

record ConfirmationChallenge =
  cc_Required :: bool
  cc_Code :: string
  cc_Instruction :: string

record PlanOutput =
  po_PlanID :: string
  po_ExpiresAt :: instant
  po_Operation :: gmap
  po_Preview :: gval
  po_Warnings :: "string list"
  po_Confirmation :: ConfirmationChallenge

record CommitInput =
  cin_PlanID :: string
  cin_ConfirmationCode :: string

record CommitOutput =
  co_Operation :: gmap
  co_Result :: gval

definition humanConfirmationInstruction :: string where
  "humanConfirmationInstruction =
     ''Show the operation preview and this code to the human. Do not call k8s.commit until the human repeats the code in a later user message.''"

text \<open>The part of the \<open>App\<close> that plan and commit change, with the outside world.\<close>

record 'w appState =
  st_plans :: PlanStore
  st_admission :: "requestAdmission option"
  st_world :: 'w

text \<open>What the environment delivers to one call: the clock readings, the random values and the time stamp text.\<close>

record environment =
  env_sha :: "string \<Rightarrow> string"
  env_now :: instant
  env_later :: instant
  env_rid :: "(gerr, string) res"
  env_rcode :: "(gerr, int) res"
  env_stamp :: string

definition write_actions :: "string list" where
  "write_actions = [''create'', ''apply'', ''patch'', ''update'', ''delete'', ''scale'', ''restart'', ''exec'', ''attach'']"

definition defaultNamespace :: "Config \<Rightarrow> Capability \<Rightarrow> string \<Rightarrow> string" where
  "defaultNamespace cfg capability namespace =
     (if namespace \<noteq> [] \<or> \<not> cap_Namespaced capability then namespace
      else (case Namespaces (cfg_Scope cfg) of n # ns \<Rightarrow> n | [] \<Rightarrow> cfg_Namespace cfg))"

text \<open>A computation on the world, run with the authorization cache of the context (plan and commit have none).\<close>

definition uncached :: "('w auth_state, gerr, 'a) io \<Rightarrow> ('w, gerr, 'a) io" where
  "uncached f = (\<lambda>w. case f (None, w) of (r, (c, w')) \<Rightarrow> (r, w'))"

definition plan_operation :: "Config \<Rightarrow> Action \<Rightarrow> string \<Rightarrow> string \<Rightarrow> PlanInput \<Rightarrow> Operation" where
  "plan_operation cfg action namespace name input =
     \<lparr>op_Action = action, op_Namespace = namespace, op_Name = name, op_Object = pin_Object input, op_Patch = pin_Patch input,
      op_PatchType = pin_PatchType input, op_Replicas = pin_Replicas input, op_Command = pin_Command input,
      op_Container = pin_Container input, op_Stdin = pin_Stdin input, op_TimeoutSeconds = pin_TimeoutSeconds input,
      op_GracePeriod = pin_GracePeriodSeconds input, op_Force = pin_Force input, op_TargetUID = [], op_ResourceVersion = [],
      op_ExpectedAbsent = False, op_Generation = cfg_Generation cfg\<rparr>"

text \<open>\<open>plan\<close> up to the point where the plan is stored: the checks and the preview.\<close>

definition plan_preview ::
  "environment \<Rightarrow> unstructuredOps \<Rightarrow> Config \<Rightarrow> capabilityCodec \<Rightarrow> 'w kube \<Rightarrow> PlanInput \<Rightarrow> ('w, gerr, gval \<times> string list \<times> Operation) io" where
  "plan_preview E U cfg handles K input =
     bindE (liftR (decode handles (pin_CapabilityID input))) (\<lambda>capability.
     let action = AsAction capability;
         namespace = defaultNamespace cfg capability (pin_Namespace input);
         name = (if pin_Name input = [] then (case pin_Object input of Some m \<Rightarrow> NestedName U m | None \<Rightarrow> []) else pin_Name input)
     in if \<not> Mutating action \<or> act_Action action \<notin> set write_actions
          then raise (policyError ''invalid_capability'' ''k8s.plan requires a supported write capability'')
        else if act_Action action \<noteq> ''create'' \<and> name = []
          then raise (policyError ''invalid_input'' ''name is required for this operation'')
        else if pin_Force input \<and> cfg_Mode cfg \<noteq> ModeDangerous
          then raise (policyError ''mode_denied'' ''force apply requires Dangerous mode'')
        else bindE (uncached (CheckAndAuthorizeOperation (env_sha E) cfg (k_authz K) action namespace name)) (\<lambda>_.
             bindE (guardE (if cfg_Mode cfg = ModeSafeWrite
                            then validateSafeOperation action (pin_Object input) (pin_Patch input) (pin_PatchType input) else None)) (\<lambda>_.
             previewOperation U cfg K (env_stamp E) (plan_operation cfg action namespace name input))))"

definition plan ::
  "environment \<Rightarrow> unstructuredOps \<Rightarrow> Config \<Rightarrow> capabilityCodec \<Rightarrow> 'w kube \<Rightarrow> string \<Rightarrow> PlanInput \<Rightarrow> ('w appState, gerr, PlanOutput) io" where
  "plan E U cfg handles K subject input = (\<lambda>s.
     case plan_preview E U cfg handles K input (st_world s) of
       (Inl e, w) \<Rightarrow> (Inl e, s\<lparr>st_world := w\<rparr>)
     | (Inr (preview, warnings, operation), w) \<Rightarrow>
        (case Create (env_sha E) (env_rid E) (env_rcode E) (env_now E) (env_later E) subject operation (st_plans s) of
           (Inl e, ps) \<Rightarrow> (Inl e, s\<lparr>st_world := w, st_plans := ps\<rparr>)
         | (Inr (planID, code, expires), ps) \<Rightarrow>
            (Inr \<lparr>po_PlanID = planID, po_ExpiresAt = expires, po_Operation = operationSummary operation,
                 po_Preview = boundedValue preview (quot (MaxOutputBytes (cfg_Limits cfg)) 2), po_Warnings = warnings,
                 po_Confirmation = \<lparr>cc_Required = True, cc_Code = code, cc_Instruction = humanConfirmationInstruction\<rparr>\<rparr>,
             s\<lparr>st_world := w, st_plans := ps\<rparr>)))"

text \<open>What \<open>commit\<close> does to the world after it has consumed the plan, up to the write itself.\<close>

definition commit_checks :: "environment \<Rightarrow> unstructuredOps \<Rightarrow> Config \<Rightarrow> 'w kube \<Rightarrow> Operation \<Rightarrow> ('w, gerr, unit) io" where
  "commit_checks E U cfg K operation =
     (if op_Generation operation \<noteq> cfg_Generation cfg
      then raise (policyError ''stale_plan'' ''server policy changed after the plan was created'')
      else bindE (uncached (CheckAndAuthorizeOperation (env_sha E) cfg (k_authz K) (op_Action operation) (op_Namespace operation) (op_Name operation))) (\<lambda>_.
           bindE (checkOperationPreconditions U K operation) (\<lambda>_.
           if cfg_Mode cfg = ModeSafeWrite
           then bindE (previewOperation U cfg K (env_stamp E) operation) (\<lambda>_. ret ()) else ret ())))"

text \<open>The end of \<open>commit\<close>: redact and bound the result, attach it to an error.\<close>

definition commit_output :: "Config \<Rightarrow> Operation \<Rightarrow> gmap option \<Rightarrow> gerr option \<Rightarrow> CommitOutput \<times> gerr option" where
  "commit_output cfg operation result executionErr =
     (let output = \<lparr>co_Operation = operationSummary operation, co_Result = GNil\<rparr>
      in case result of
           None \<Rightarrow> (output, executionErr)
         | Some m \<Rightarrow>
            (case redactResult (GObj m) (op_Action operation) (SensitiveReads (cfg_Policy cfg)) of
               Inl e \<Rightarrow> (output, Some e)
             | Inr v \<Rightarrow>
                (let output' = output\<lparr>co_Result := boundedValue v (quot (MaxOutputBytes (cfg_Limits cfg)) 2)\<rparr>
                 in (output',
                     if co_Result output' \<noteq> GNil
                     then errorWithDetails executionErr
                            (Some (GObj [(''operation'', GObj (co_Operation output')), (''result'', co_Result output')]))
                     else executionErr))))"

definition commit_consumed :: "environment \<Rightarrow> unstructuredOps \<Rightarrow> Config \<Rightarrow> 'w kube \<Rightarrow> Operation \<Rightarrow> 'w \<Rightarrow> (CommitOutput \<times> gerr option) \<times> 'w" where
  "commit_consumed E U cfg K operation w =
     (case commit_checks E U cfg K operation w of
        (Inl e, w') \<Rightarrow> ((\<lparr>co_Operation = operationSummary operation, co_Result = GNil\<rparr>, Some e), w')
      | (Inr _, w') \<Rightarrow>
         (case executeOperation U cfg K (env_stamp E) operation w' of ((result, err), w'') \<Rightarrow>
            (commit_output cfg operation result err, w'')))"

definition empty_output :: CommitOutput where
  "empty_output = \<lparr>co_Operation = [], co_Result = GNil\<rparr>"

definition commit ::
  "environment \<Rightarrow> unstructuredOps \<Rightarrow> Config \<Rightarrow> 'w kube \<Rightarrow> string \<Rightarrow> CommitInput \<Rightarrow> 'w appState \<Rightarrow> (CommitOutput \<times> gerr option) \<times> 'w appState" where
  "commit E U cfg K subject input s =
     (let remote = isRemote (st_plans s) (cin_PlanID input) subject in
      case (if remote then acquireStream (st_admission s) else (Inr (), st_admission s)) of
        (Inl e, adm) \<Rightarrow> ((empty_output, Some e), s\<lparr>st_admission := adm\<rparr>)
      | (Inr _, adm) \<Rightarrow>
         (let release = (if remote then map_option releaseStream else (\<lambda>a. a)) in
          case Consume (env_sha E) (env_now E) (cin_PlanID input) subject (cin_ConfirmationCode input) (st_plans s) of
            (Inl e, ps) \<Rightarrow> ((empty_output, Some e), s\<lparr>st_plans := ps, st_admission := release adm\<rparr>)
          | (Inr operation, ps) \<Rightarrow>
             (case commit_consumed E U cfg K operation (st_world s) of (out, w) \<Rightarrow>
                (out, s\<lparr>st_plans := ps, st_admission := release adm, st_world := w\<rparr>))))"

section \<open>Instrumentation\<close>

text \<open>Everything that plan and commit ask of the outside, in the order of the calls.\<close>

datatype apiEvent =
    EvReview authorizationKey "(gerr, accessReview) res"
  | EvDo kubeRequest "(gerr, gmap) res"
  | EvPod string string
  | EvRemote remoteRequest

definition logged_kube :: "'w kube \<Rightarrow> ('w \<times> apiEvent list) kube" where
  "logged_kube K =
     \<lparr>k_authz = logged EvReview (k_authz K),
      k_do = (\<lambda>req (w, log). case k_do K req w of (r, w') \<Rightarrow> (r, (w', log @ [EvDo req r]))),
      k_pod = (\<lambda>ns name (w, log). case k_pod K ns name w of (r, w') \<Rightarrow> (r, (w', log @ [EvPod ns name]))),
      k_remote = (\<lambda>req (w, log). case k_remote K req w of (r, w') \<Rightarrow> (r, (w', log @ [EvRemote req])))\<rparr>"

text \<open>A call that changes the cluster: not a read, not a review and not a dry run.\<close>

fun real_write :: "kubeRequest \<Rightarrow> bool" where
  "real_write (Get t n) = False"
| "real_write (CreateReq t m dry fm) = (\<not> dry)"
| "real_write (PatchReq t n k b dry fm f subs) = (\<not> dry)"
| "real_write (UpdateReq t m dry fm) = (\<not> dry)"
| "real_write (DeleteReq t n d dry) = (\<not> dry)"

fun mutates :: "apiEvent \<Rightarrow> bool" where
  "mutates (EvDo req r) = real_write req"
| "mutates (EvRemote req) = True"
| "mutates _ = False"

section \<open>Lemmas: which events a computation emits\<close>

definition emits :: "('e \<Rightarrow> bool) \<Rightarrow> ('w \<times> 'e list, gerr, 'a) io \<Rightarrow> bool" where
  "emits ok f = (\<forall>w log r w' log'. f (w, log) = (r, (w', log')) \<longrightarrow> (\<exists>es. log' = log @ es \<and> list_all ok es))"

named_theorems emits_intros

lemma emitsD: "emits ok f \<Longrightarrow> f (w, log) = (r, (w', log')) \<Longrightarrow> \<exists>es. log' = log @ es \<and> list_all ok es"
  unfolding emits_def by blast

lemma emits_pure [emits_intros]:
  "emits ok (ret x)" "emits ok (raise e)" "emits ok (guardE c)" "emits ok (liftR q)"
  by (auto simp: emits_def io_simps split: option.splits)

lemma emits_bind [emits_intros]:
  assumes "emits ok f" "\<And>x. emits ok (g x)"
  shows "emits ok (bindE f g)"
  unfolding emits_def
proof (intro allI impI)
  fix w log r w' log' assume e: "bindE f g (w, log) = (r, (w', log'))"
  obtain q w1 log1 where q: "f (w, log) = (q, (w1, log1))" by (metis prod.exhaust)
  obtain es where es: "log1 = log @ es" "list_all ok es" using emitsD [OF assms(1) q] by blast
  show "\<exists>es. log' = log @ es \<and> list_all ok es"
  proof (cases q)
    case (Inl err)
    with e q es show ?thesis by (auto simp: io_simps)
  next
    case (Inr x)
    then have "g x (w1, log1) = (r, (w', log'))" using e q by (simp add: io_simps)
    from emitsD [OF assms(2) this] obtain es' where "log' = log1 @ es'" "list_all ok es'" by blast
    with es show ?thesis by (intro exI [of _ "es @ es'"]) simp
  qed
qed

lemma emits_try [emits_intros]: "emits ok f \<Longrightarrow> emits ok (tryE f)"
  unfolding emits_def tryE_def by (auto split: prod.splits)

lemma emits_if [emits_intros]: "(c \<Longrightarrow> emits ok f) \<Longrightarrow> (\<not> c \<Longrightarrow> emits ok g) \<Longrightarrow> emits ok (if c then f else g)"
  by simp

lemma emits_case [emits_intros]:
  "(\<And>e. emits ok (f e)) \<Longrightarrow> (\<And>x. emits ok (g x)) \<Longrightarrow> emits ok (case q of Inl e \<Rightarrow> f e | Inr x \<Rightarrow> g x)"
  by (cases q) auto

lemma emits_prod [emits_intros]: "(\<And>x y. emits ok (f x y)) \<Longrightarrow> emits ok (case p of (x, y) \<Rightarrow> f x y)"
  by (cases p) auto

lemma emits_Let [emits_intros]: "emits ok (f x) \<Longrightarrow> emits ok (let y = x in f y)"
  by simp

lemma emits_do [emits_intros]: "(\<And>r. ok (EvDo req r)) \<Longrightarrow> emits ok (k_do (logged_kube K) req)"
  by (auto simp: emits_def logged_kube_def split: prod.splits)

lemma emits_pod [emits_intros]: "ok (EvPod ns name) \<Longrightarrow> emits ok (k_pod (logged_kube K) ns name)"
  by (auto simp: emits_def logged_kube_def split: prod.splits)

lemma uncached_bind: "uncached (bindE f g) = bindE (uncached f) (\<lambda>x. uncached (g x))"
  if "\<And>w r c w'. f (None, w) = (r, (c, w')) \<Longrightarrow> c = None"
proof
  fix w
  obtain r c w' where f: "f (None, w) = (r, (c, w'))" by (metis prod.exhaust)
  with that have "c = None" by blast
  with f show "uncached (bindE f g) w = bindE (uncached f) (\<lambda>x. uncached (g x)) w"
    by (cases r) (auto simp: uncached_def io_simps)
qed

lemma emits_Authorize [emits_intros]:
  "(\<And>key q. ok (EvReview key q)) \<Longrightarrow> emits ok (uncached (Authorize (k_authz (logged_kube K)) a ns name))"
  unfolding emits_def uncached_def
  by (auto simp: logged_kube_def list_all_iff split: prod.splits dest!: Authorize_uncached_log)

lemma Authorize_keeps_uncached: "Authorize api a ns name (None, w) = (r, (c, w')) \<Longrightarrow> c = None"
  by (auto simp: Authorize_uncached split: option.splits prod.splits)

lemma emits_CheckAndAuthorizeOperation [emits_intros]:
  assumes "\<And>key q. ok (EvReview key q)"
  shows "emits ok (uncached (CheckAndAuthorizeOperation sha cfg (k_authz (logged_kube K)) a ns name))"
proof -
  have g: "uncached (guardE c) = guardE c" for c :: "gerr option"
    by (rule ext) (auto simp: uncached_def io_simps split: option.splits)
  have t: "uncached (ret ()) = ret ()" by (rule ext) (auto simp: uncached_def io_simps)
  have i: "uncached (if b then f else f') = (if b then uncached f else uncached f')" for b and f f' :: "('w auth_state, gerr, 'a) io"
    by simp
  show ?thesis
    unfolding CheckAndAuthorizeOperation_def
    apply (subst uncached_bind, simp add: io_simps split: option.splits)
    apply (subst uncached_bind, simp add: io_simps split: option.splits if_splits)
    apply (subst uncached_bind, erule Authorize_keeps_uncached)
    apply (simp only: g t i if_distrib [of uncached])
    apply (intro emits_intros assms)
    done
qed

abbreviation quiet :: "('w \<times> apiEvent list, gerr, 'a) io \<Rightarrow> bool" where
  "quiet \<equiv> emits (\<lambda>e. \<not> mutates e)"

lemma quiet_previews:
  "quiet (preview_create U (logged_kube K) x)" "quiet (preview_apply U (logged_kube K) x)"
  "quiet (preview_patch U (logged_kube K) stamp x)" "quiet (preview_update U (logged_kube K) x)"
  "quiet (preview_delete U (logged_kube K) x)" "quiet (preview_remote (logged_kube K) x)"
  unfolding preview_create_def preview_apply_def preview_patch_def preview_update_def preview_delete_def preview_remote_def
  by (intro emits_intros; simp)+

lemma quiet_preview [emits_intros]: "quiet (previewOperation U cfg (logged_kube K) stamp x)"
  unfolding previewOperation_def preview_switch_def
  by (intro emits_intros quiet_previews)

lemma quiet_preconditions [emits_intros]: "quiet (checkOperationPreconditions U (logged_kube K) x)"
  unfolding checkOperationPreconditions_def by (intro emits_intros; simp)

lemma quiet_commit_checks: "quiet (commit_checks E U cfg (logged_kube K) x)"
  unfolding commit_checks_def by (intro emits_intros; simp)

lemma quiet_plan_preview: "quiet (plan_preview E U cfg handles (logged_kube K) input)"
  unfolding plan_preview_def by (intro emits_intros; simp)

section \<open>Lemmas: what the checks of a commit establish\<close>

lemma k_do_logged: "k_do (logged_kube K) req (w, log) = (r, (w', log')) \<Longrightarrow> log' = log @ [EvDo req r]"
  by (auto simp: logged_kube_def split: prod.splits)

lemma k_remote_logged: "k_remote (logged_kube K) req (w, log) = (r, (w', log')) \<Longrightarrow> log' = log @ [EvRemote req]"
  by (auto simp: logged_kube_def split: prod.splits)

lemma authorized_log:
  assumes "uncached (CheckAndAuthorizeOperation sha cfg (k_authz (logged_kube K)) a ns name) (w, log) = (Inr (), (w', log'))"
  shows "CheckTarget sha cfg a ns name = None \<and>
    (\<exists>review es. rev_Allowed review \<and> log' = log @ EvReview (authorization_key a ns name) (Inr review) # es)"
proof -
  obtain c where "CheckAndAuthorizeOperation sha cfg (logged EvReview (k_authz K)) a ns name (None, (w, log)) = (Inr (), (c, (w', log')))"
    using assms by (auto simp: uncached_def logged_kube_def split: prod.splits)
  from CheckAndAuthorizeOperation_log [OF this] show ?thesis by (auto split: if_splits)
qed

text \<open>The evidence that the target is still what the plan saw.\<close>

definition target_unchanged :: "unstructuredOps \<Rightarrow> Operation \<Rightarrow> apiEvent list \<Rightarrow> bool" where
  "target_unchanged U x es =
     (let read = Get (dynamicResource (op_Action x) (op_Namespace x)) (op_Name x) in
      if op_ExpectedAbsent x then \<exists>err. EvDo read (Inl err) \<in> set es \<and> is_not_found err
      else op_TargetUID x = [] \<or>
        (\<exists>current. EvDo read (Inr current) \<in> set es \<and> GetUID U current = op_TargetUID x \<and>
           GetResourceVersion U current = op_ResourceVersion x))"

lemma target_unchanged_mono: "target_unchanged U x es \<Longrightarrow> set es \<subseteq> set fs \<Longrightarrow> target_unchanged U x fs"
  unfolding target_unchanged_def Let_def by (auto split: if_splits)

lemma preconditions_log:
  assumes "checkOperationPreconditions U (logged_kube K) x (w, log) = (Inr (), (w', log'))"
  shows "\<exists>es. log' = log @ es \<and> target_unchanged U x es"
proof -
  let ?read = "Get (dynamicResource (op_Action x) (op_Namespace x)) (op_Name x)"
  obtain r w1 log1 where r: "k_do (logged_kube K) ?read (w, log) = (r, (w1, log1))" by (metis prod.exhaust)
  note l = k_do_logged [OF r]
  consider "op_ExpectedAbsent x" | "\<not> op_ExpectedAbsent x" "op_TargetUID x = []" | "\<not> op_ExpectedAbsent x" "op_TargetUID x \<noteq> []"
    by blast
  then show ?thesis
  proof cases
    case 1
    then have "\<exists>err. r = Inl err \<and> is_not_found err \<and> log' = log1"
      using assms r by (auto simp: checkOperationPreconditions_def Let_def io_simps split: sum.splits if_splits)
    then show ?thesis using 1 l by (intro exI [of _ "[EvDo ?read r]"]) (auto simp: target_unchanged_def)
  next
    case 2
    then show ?thesis using assms
      by (intro exI [of _ "[]"]) (auto simp: checkOperationPreconditions_def target_unchanged_def io_simps)
  next
    case 3
    then have "\<exists>current. r = Inr current \<and> GetUID U current = op_TargetUID x \<and> GetResourceVersion U current = op_ResourceVersion x \<and> log' = log1"
      using assms r by (auto simp: checkOperationPreconditions_def Let_def io_simps split: sum.splits if_splits)
    then show ?thesis using 3 l by (intro exI [of _ "[EvDo ?read r]"]) (auto simp: target_unchanged_def)
  qed
qed

definition commit_evidence :: "environment \<Rightarrow> unstructuredOps \<Rightarrow> Config \<Rightarrow> Operation \<Rightarrow> apiEvent list \<Rightarrow> bool" where
  "commit_evidence E U cfg x es =
     (op_Generation x = cfg_Generation cfg \<and>
      CheckTarget (env_sha E) cfg (op_Action x) (op_Namespace x) (op_Name x) = None \<and>
      (\<exists>review. rev_Allowed review \<and> EvReview (authorization_key (op_Action x) (op_Namespace x) (op_Name x)) (Inr review) \<in> set es) \<and>
      target_unchanged U x es \<and> list_all (\<lambda>e. \<not> mutates e) es)"

lemma commit_checks_log:
  assumes "commit_checks E U cfg (logged_kube K) x (w, log) = (Inr (), (w', log'))"
  shows "\<exists>es. log' = log @ es \<and> commit_evidence E U cfg x es"
proof -
  obtain es where es: "log' = log @ es" "list_all (\<lambda>e. \<not> mutates e) es"
    using emitsD [OF quiet_commit_checks assms] by blast
  have gen: "op_Generation x = cfg_Generation cfg"
    using assms by (auto simp: commit_checks_def io_simps split: if_splits)
  note c = assms [unfolded commit_checks_def, simplified gen, simplified]
  from c obtain u1 where a: "uncached (CheckAndAuthorizeOperation (env_sha E) cfg (k_authz (logged_kube K)) (op_Action x) (op_Namespace x) (op_Name x)) (w, log) = (Inr (), u1)"
    and rest: "bindE (checkOperationPreconditions U (logged_kube K) x) (\<lambda>_. if cfg_Mode cfg = ModeSafeWrite
           then bindE (previewOperation U cfg (logged_kube K) (env_stamp E) x) (\<lambda>_. ret ()) else ret ()) u1 = (Inr (), (w', log'))"
    by (rule bindE_InrE) simp
  obtain w1 log1 where u1: "u1 = (w1, log1)" by (cases u1)
  obtain review es1 where r: "CheckTarget (env_sha E) cfg (op_Action x) (op_Namespace x) (op_Name x) = None"
      "rev_Allowed review" "log1 = log @ EvReview (authorization_key (op_Action x) (op_Namespace x) (op_Name x)) (Inr review) # es1"
    using authorized_log [OF a [unfolded u1]] by blast
  from rest obtain u2 where p: "checkOperationPreconditions U (logged_kube K) x (w1, log1) = (Inr (), u2)"
    and safe: "(if cfg_Mode cfg = ModeSafeWrite
           then bindE (previewOperation U cfg (logged_kube K) (env_stamp E) x) (\<lambda>_. ret ()) else ret ()) u2 = (Inr (), (w', log'))"
    unfolding u1 by (rule bindE_InrE) simp
  obtain w2 log2 where u2: "u2 = (w2, log2)" by (cases u2)
  obtain es2 where t: "log2 = log1 @ es2" "target_unchanged U x es2" using preconditions_log [OF p [unfolded u2]] by blast
  have "quiet (if cfg_Mode cfg = ModeSafeWrite
           then bindE (previewOperation U cfg (logged_kube K) (env_stamp E) x) (\<lambda>_. ret ()) else ret ())"
    by (intro emits_intros)
  from emitsD [OF this safe [unfolded u2]] obtain es3 where "log' = log2 @ es3" by blast
  with r(3) t(1) es(1) have e: "es = EvReview (authorization_key (op_Action x) (op_Namespace x) (op_Name x)) (Inr review) # es1 @ es2 @ es3"
    by simp
  have "target_unchanged U x es" by (rule target_unchanged_mono [OF t(2)]) (auto simp: e)
  with es gen r(1,2) e show ?thesis by (auto simp: commit_evidence_def)
qed

section \<open>Lemmas: the dry run of a commit in SafeWrite mode\<close>

fun dry_run_on :: "target \<Rightarrow> kubeRequest \<Rightarrow> bool" where
  "dry_run_on t (CreateReq t' m dry fm) = (t' = t \<and> dry)"
| "dry_run_on t (PatchReq t' n k b dry fm f subs) = (t' = t \<and> dry)"
| "dry_run_on t (UpdateReq t' m dry fm) = (t' = t \<and> dry)"
| "dry_run_on t _ = False"

abbreviation op_target :: "Operation \<Rightarrow> target" where
  "op_target x \<equiv> dynamicResource (op_Action x) (op_Namespace x)"

text \<open>A preview that ends in a dry run returns the object that the dry run produced.\<close>

definition dry_result :: "target \<Rightarrow> gval \<Rightarrow> apiEvent list \<Rightarrow> bool" where
  "dry_result t preview log = (\<exists>req obj. preview = GObj obj \<and> dry_run_on t req \<and> EvDo req (Inr obj) \<in> set log)"

lemma dry_result_last:
  assumes "bindE (k_do (logged_kube K) req) (\<lambda>obj. ret (GObj obj, g obj)) u = (Inr (pv, y), (w', log'))" "dry_run_on t req"
  shows "dry_result t pv log'"
proof -
  obtain w log where u: "u = (w, log)" by (cases u)
  from assms(1) obtain obj v where k: "k_do (logged_kube K) req u = (Inr obj, v)" and e: "ret (GObj obj, g obj) v = (Inr (pv, y) :: (gerr, _) res, (w', log'))"
    by (rule bindE_InrE)
  have "v = (w', log')" "pv = GObj obj" using e by (auto simp: ret_Inr_iff)
  then show ?thesis using k_do_logged [OF k [unfolded u \<open>v = (w', log')\<close>]] assms(2) by (auto simp: dry_result_def)
qed

lemma preview_create_dry:
  "preview_create U (logged_kube K) x u = (Inr (pv, y), (w', log')) \<Longrightarrow> dry_result (op_target x) pv log'"
  unfolding preview_create_def Let_def
  by (auto elim!: bindE_InrE dry_result_last simp: io_Inr_iff split: if_splits sum.splits)

lemma preview_apply_dry:
  "preview_apply U (logged_kube K) x u = (Inr (pv, y), (w', log')) \<Longrightarrow> dry_result (op_target x) pv log'"
  unfolding preview_apply_def Let_def
  by (auto elim!: bindE_InrE dry_result_last simp: io_Inr_iff split: if_splits sum.splits)

lemma preview_patch_dry:
  "preview_patch U (logged_kube K) stamp x u = (Inr (pv, y), (w', log')) \<Longrightarrow> dry_result (op_target x) pv log'"
  unfolding preview_patch_def Let_def
  by (auto elim!: bindE_InrE dry_result_last simp: io_Inr_iff split: if_splits sum.splits prod.splits)

lemma preview_update_dry:
  "preview_update U (logged_kube K) x u = (Inr (pv, y), (w', log')) \<Longrightarrow> dry_result (op_target x) pv log'"
  unfolding preview_update_def Let_def
  by (auto elim!: bindE_InrE dry_result_last simp: io_Inr_iff split: if_splits sum.splits)

lemma dry_if:
  "(c \<Longrightarrow> f u = (Inr (pv, y), (w', log')) \<Longrightarrow> dry_result t pv log') \<Longrightarrow>
   (\<not> c \<Longrightarrow> g u = (Inr (pv, y), (w', log')) \<Longrightarrow> dry_result t pv log') \<Longrightarrow>
   (if c then f else g) u = (Inr (pv, y), (w', log')) \<Longrightarrow> dry_result t pv log'"
  by (cases c) auto

lemma preview_switch_dry:
  assumes "preview_switch U (logged_kube K) stamp x u = (Inr (pv, y), (w', log'))"
    and "act_Action (op_Action x) \<notin> {''delete'', ''exec'', ''attach''}"
  shows "dry_result (op_target x) pv log'"
proof -
  have n: "act_Action (op_Action x) \<noteq> ''delete''" "\<not> (act_Action (op_Action x) = ''exec'' \<or> act_Action (op_Action x) = ''attach'')"
    using assms(2) by blast+
  show ?thesis
    using assms(1) unfolding preview_switch_def Let_def if_not_P [OF n(1)] if_not_P [OF n(2)]
    by (elim dry_if [rotated 2])
      (assumption | erule preview_create_dry preview_apply_dry preview_patch_dry preview_update_dry | simp only: raise_Inr_iff)+
qed

lemma previewOperation_safe:
  assumes "previewOperation U cfg (logged_kube K) stamp x u = (Inr p, (w', log'))" and "cfg_Mode cfg = ModeSafeWrite"
    and "act_Action (op_Action x) \<notin> {''delete'', ''exec'', ''attach''}"
  shows "\<exists>req obj. dry_run_on (op_target x) req \<and> EvDo req (Inr obj) \<in> set log' \<and> validateSafePayload (GObj obj) = None"
proof -
  obtain pv previous warnings op' v where sw: "preview_switch U (logged_kube K) stamp x u = (Inr (pv, previous, warnings, op'), v)"
    and rest: "bindE (guardE (preview_checks cfg (op_Action x) previous pv)) (\<lambda>_.
     bindE (liftR (redactResult pv (op_Action x) (SensitiveReads (cfg_Policy cfg)))) (\<lambda>redacted_preview.
     ret (redacted_preview, warnings, op'))) v = (Inr p, (w', log'))"
    using assms(1) unfolding previewOperation_def by (rule bindE_InrE) (auto split: prod.splits)
  have c: "preview_checks cfg (op_Action x) previous pv = None" and v: "v = (w', log')"
    using rest by (auto elim!: bindE_InrE simp: io_Inr_iff)
  have "validateSafePayload pv = None"
    using c assms(2) by (simp add: preview_checks_def validateSafeTransition_def)
  moreover have "dry_result (op_target x) pv log'" using preview_switch_dry [OF sw [unfolded v] assms(3)] .
  ultimately show ?thesis by (auto simp: dry_result_def)
qed

lemma commit_checks_safe:
  assumes "commit_checks E U cfg (logged_kube K) x u = (Inr (), (w', log'))" and "cfg_Mode cfg = ModeSafeWrite"
    and "act_Action (op_Action x) \<notin> {''delete'', ''exec'', ''attach''}"
  shows "\<exists>req obj. dry_run_on (op_target x) req \<and> EvDo req (Inr obj) \<in> set log' \<and> validateSafePayload (GObj obj) = None"
proof -
  obtain v p w2 log2 where p: "previewOperation U cfg (logged_kube K) (env_stamp E) x v = (Inr p, (w2, log2))" "log2 = log'"
    using assms(1,2) unfolding commit_checks_def
    by (auto elim!: bindE_InrE simp: io_Inr_iff split: if_splits)
  show ?thesis using previewOperation_safe [OF p(1) assms(2,3)] p(2) by simp
qed

section \<open>Lemmas: the write of a commit\<close>

text \<open>The one event that changes the cluster is the request of the planned operation.\<close>

definition planned_write :: "environment \<Rightarrow> unstructuredOps \<Rightarrow> Config \<Rightarrow> Operation \<Rightarrow> apiEvent \<Rightarrow> bool" where
  "planned_write E U cfg x ev =
     (if act_Action (op_Action x) = ''exec'' \<or> act_Action (op_Action x) = ''attach'' then ev = EvRemote (remote_request cfg x)
      else \<exists>req r. write_request U (env_stamp E) x = Inr req \<and> ev = EvDo req r)"

lemma executeOperation_log:
  assumes "executeOperation U cfg (logged_kube K) (env_stamp E) x (w, log) = (out, (w', log'))"
  shows "log' = log \<or> (\<exists>ev. planned_write E U cfg x ev \<and> log' = log @ [ev])"
proof (cases "act_Action (op_Action x) = ''exec'' \<or> act_Action (op_Action x) = ''attach''")
  case True
  obtain r w1 log1 where r: "k_remote (logged_kube K) (remote_request cfg x) (w, log) = (r, (w1, log1))" by (metis prod.exhaust)
  have "log' = log1"
    using assms True r by (cases r) (auto simp: executeOperation_def executeRemote_def Let_def split: prod.splits)
  then show ?thesis using k_remote_logged [OF r] True by (auto simp: planned_write_def)
next
  case False
  show ?thesis
  proof (cases "write_request U (env_stamp E) x")
    case (Inl e)
    then show ?thesis using assms False by (auto simp: executeOperation_def)
  next
    case (Inr req)
    obtain r w1 log1 where r: "k_do (logged_kube K) req (w, log) = (r, (w1, log1))" by (metis prod.exhaust)
    have "log' = log1" using assms False Inr r by (auto simp: executeOperation_def)
    then show ?thesis using k_do_logged [OF r] False Inr by (auto simp: planned_write_def)
  qed
qed

lemma commit_consumed_log:
  assumes "commit_consumed E U cfg (logged_kube K) x (w, []) = (out, (w', log))"
  shows "list_all (\<lambda>e. \<not> mutates e) log \<or>
    (\<exists>pre ev. log = pre @ [ev] \<and> planned_write E U cfg x ev \<and> commit_evidence E U cfg x pre \<and>
      (cfg_Mode cfg = ModeSafeWrite \<and> act_Action (op_Action x) \<notin> {''delete'', ''exec'', ''attach''} \<longrightarrow>
        (\<exists>req obj. dry_run_on (op_target x) req \<and> EvDo req (Inr obj) \<in> set pre \<and> validateSafePayload (GObj obj) = None)))"
proof -
  obtain r w1 log1 where c: "commit_checks E U cfg (logged_kube K) x (w, []) = (r, (w1, log1))" by (metis prod.exhaust)
  show ?thesis
  proof (cases r)
    case (Inl e)
    then have "log = log1" using assms c by (auto simp: commit_consumed_def)
    then show ?thesis using emitsD [OF quiet_commit_checks c] by auto
  next
    case (Inr u)
    then have c': "commit_checks E U cfg (logged_kube K) x (w, []) = (Inr (), (w1, log1))" using c by simp
    have ev: "commit_evidence E U cfg x log1" using commit_checks_log [OF c'] by simp
    obtain res where ex: "executeOperation U cfg (logged_kube K) (env_stamp E) x (w1, log1) = (res, (w', log))"
      using assms c Inr by (auto simp: commit_consumed_def split: prod.splits)
    from executeOperation_log [OF ex] show ?thesis
    proof
      assume "log = log1"
      then show ?thesis using ev by (simp add: commit_evidence_def)
    next
      assume "\<exists>ev. planned_write E U cfg x ev \<and> log = log1 @ [ev]"
      then show ?thesis using ev commit_checks_safe [OF c'] by blast
    qed
  qed
qed

lemma acquire_release: "acquireStream adm = (Inr u, adm') \<Longrightarrow> map_option releaseStream adm' = adm"
  by (auto simp: acquireStream_def releaseStream_def split: option.splits if_splits)

lemma acquire_refused: "acquireStream adm = (Inl e, adm') \<Longrightarrow> adm' = adm"
  by (auto simp: acquireStream_def split: option.splits if_splits)

lemma commit_cases:
  assumes "commit E U cfg K subject input s = (out, s')"
  obtains (busy) e where "s' = s" "out = (empty_output, Some e)" "isRemote (st_plans s) (cin_PlanID input) subject"
  | (refused) e ps where "Consume (env_sha E) (env_now E) (cin_PlanID input) subject (cin_ConfirmationCode input) (st_plans s) = (Inl e, ps)"
      "s' = s\<lparr>st_plans := ps\<rparr>" "out = (empty_output, Some e)"
  | (consumed) x ps w where "Consume (env_sha E) (env_now E) (cin_PlanID input) subject (cin_ConfirmationCode input) (st_plans s) = (Inr x, ps)"
      "commit_consumed E U cfg K x (st_world s) = (out, w)" "s' = s\<lparr>st_plans := ps, st_world := w\<rparr>"
proof -
  let ?rem = "isRemote (st_plans s) (cin_PlanID input) subject"
  obtain q adm where q: "(if ?rem then acquireStream (st_admission s) else (Inr (), st_admission s)) = (q, adm)" by (metis prod.exhaust)
  obtain r ps where r: "Consume (env_sha E) (env_now E) (cin_PlanID input) subject (cin_ConfirmationCode input) (st_plans s) = (r, ps)"
    by (metis prod.exhaust)
  have rel: "q = Inr () \<Longrightarrow> (if ?rem then map_option releaseStream else (\<lambda>a. a)) adm = st_admission s"
    using q by (auto split: if_splits dest: acquire_release)
  show ?thesis
  proof (cases q)
    case (Inl e)
    then have "adm = st_admission s" "?rem" using q acquire_refused by (auto split: if_splits)
    with Inl assms q show ?thesis by (intro busy [of e]) (auto simp: commit_def Let_def)
  next
    case (Inr u)
    show ?thesis
    proof (cases r)
      case (Inl e)
      with Inr assms q r rel show ?thesis by (intro refused [of e ps]) (auto simp: commit_def Let_def)
    next
      case x: (Inr x)
      obtain o' w where w: "commit_consumed E U cfg K x (st_world s) = (o', w)" by (metis prod.exhaust)
      with Inr x assms q r rel show ?thesis by (intro consumed [of x ps w]) (auto simp: commit_def Let_def)
    qed
  qed
qed

lemma plan_state:
  assumes "plan E U cfg handles K subject input s = (r, s')"
  shows "\<exists>q w. plan_preview E U cfg handles K input (st_world s) = (q, w) \<and> st_world s' = w \<and> st_admission s' = st_admission s \<and>
    ((\<exists>e. q = Inl e \<and> r = Inl e \<and> st_plans s' = st_plans s) \<or>
     (\<exists>pv ws x. q = Inr (pv, ws, x) \<and>
       (\<exists>cr. Create (env_sha E) (env_rid E) (env_rcode E) (env_now E) (env_later E) subject x (st_plans s) = (cr, st_plans s') \<and>
         (case cr of Inl e \<Rightarrow> r = Inl e | Inr (planID, code, expires) \<Rightarrow> \<exists>out. r = Inr out \<and> po_PlanID out = planID \<and> cc_Code (po_Confirmation out) = code))))"
  using assms by (auto simp: plan_def split: prod.splits sum.splits)

text \<open>A write that the API server refuses when the object is not at the given version any more; a creation is refused when the object exists.\<close>

fun conditional_on :: "unstructuredOps \<Rightarrow> string \<Rightarrow> string \<Rightarrow> kubeRequest \<Rightarrow> bool" where
  "conditional_on U uid rv (Get t n) = True"
| "conditional_on U uid rv (CreateReq t m dry fm) = True"
| "conditional_on U uid rv (PatchReq t n k b dry fm f subs) =
     (case k of
        ApplyPatch \<Rightarrow> GetResourceVersion U (map_or_nil b) = rv
      | MergePatch \<Rightarrow> gfield (map_or_nil (gfield (map_or_nil b) ''metadata'')) ''resourceVersion'' = GStr rv
      | JSONPatch \<Rightarrow> \<exists>more. b = GArr (GObj [(''op'', GStr ''test''), (''path'', GStr ''/metadata/resourceVersion''), (''value'', GStr rv)] # more))"
| "conditional_on U uid rv (UpdateReq t m dry fm) = (GetResourceVersion U m = rv)"
| "conditional_on U uid rv (DeleteReq t n d dry) = (del_UID d = uid \<and> del_ResourceVersion d = rv)"

fun request_target :: "kubeRequest \<Rightarrow> target" where
  "request_target (Get t n) = t"
| "request_target (CreateReq t m dry fm) = t"
| "request_target (PatchReq t n k b dry fm f subs) = t"
| "request_target (UpdateReq t m dry fm) = t"
| "request_target (DeleteReq t n d dry) = t"

lemma addPatchResourceVersion_conditional:
  "addPatchResourceVersion body k rv = Inr b \<Longrightarrow> k \<noteq> ApplyPatch \<Longrightarrow> conditional_on U uid rv (PatchReq t n k b dry fm f subs)"
  by (cases k) (auto simp: addPatchResourceVersion_def split: option.splits if_splits)

lemma patch_body_kind:
  "patch_body stamp x = Inr (k, b, subs, y) \<Longrightarrow> k \<noteq> ApplyPatch \<and> op_ResourceVersion y = op_ResourceVersion x"
  unfolding patch_body_def Let_def by (auto split: if_splits option.splits)

lemma preparePatch_conditional:
  assumes "preparePatch stamp x = Inr (k, b, subs, y)" "op_ResourceVersion x \<noteq> []"
  shows "conditional_on U uid (op_ResourceVersion x) (PatchReq t n k b dry fm f subs)"
proof -
  obtain k' b' subs' y' where p: "patch_body stamp x = Inr (k', b', subs', y')"
    using assms(1) by (cases "patch_body stamp x") (auto simp: preparePatch_def)
  note pk = patch_body_kind [OF p]
  have "addPatchResourceVersion b' k' (op_ResourceVersion x) = Inr b" "k = k'"
    using assms p pk by (auto simp: preparePatch_def bindR_Inr_iff split: if_splits)
  then show ?thesis using addPatchResourceVersion_conditional pk by blast
qed

lemma write_request_cases:
  assumes "write_request U stamp x = Inr req"
  obtains (create) ob where "req = CreateReq (op_target x) ob False field_manager"
  | (applied) ob where "req = PatchReq (op_target x) (op_Name x) ApplyPatch (GObj (SetResourceVersion U (op_ResourceVersion x) ob)) False field_manager (op_Force x) []"
  | (patch) k b subs y where "preparePatch stamp x = Inr (k, b, subs, y)" "req = PatchReq (op_target x) (op_Name y) k b False field_manager False subs"
  | (update) ob where "req = UpdateReq (op_target x) (SetResourceVersion U (op_ResourceVersion x) ob) False field_manager"
  | (delete) "req = DeleteReq (op_target x) (op_Name x) (delete_options x) False"
proof -
  let ?a = "act_Action (op_Action x)"
  consider "?a = ''create''" | "?a \<noteq> ''create''" "?a = ''apply''"
    | "?a \<noteq> ''create''" "?a \<noteq> ''apply''" "?a \<in> set [''patch'', ''scale'', ''restart'']"
    | "?a \<noteq> ''create''" "?a \<noteq> ''apply''" "?a \<notin> set [''patch'', ''scale'', ''restart'']" "?a = ''update''"
    | "?a \<noteq> ''create''" "?a \<noteq> ''apply''" "?a \<notin> set [''patch'', ''scale'', ''restart'']" "?a \<noteq> ''update''" "?a = ''delete''"
    | "?a \<noteq> ''create''" "?a \<noteq> ''apply''" "?a \<notin> set [''patch'', ''scale'', ''restart'']" "?a \<noteq> ''update''" "?a \<noteq> ''delete''"
    by blast
  then show ?thesis
  proof cases
    case 1
    then show ?thesis using assms create by (auto simp: write_request_def Let_def bindR_Inr_iff)
  next
    case 2
    then show ?thesis using assms applied by (auto simp: write_request_def Let_def bindR_Inr_iff)
  next
    case 3
    have "bindR (preparePatch stamp x) (\<lambda>(patchType, body, subs, op').
          Inr (PatchReq (op_target x) (op_Name op') patchType body False field_manager False subs)) = Inr req"
      using assms unfolding write_request_def Let_def if_not_P [OF 3(1)] if_not_P [OF 3(2)] if_P [OF 3(3)] .
    then show ?thesis using patch by (auto simp: bindR_Inr_iff)
  next
    case 4
    have "bindR (operationObject U x) (\<lambda>object.
          Inr (UpdateReq (op_target x) (SetResourceVersion U (op_ResourceVersion x) object) False field_manager)) = Inr req"
      using assms unfolding write_request_def Let_def if_not_P [OF 4(1)] if_not_P [OF 4(2)] if_not_P [OF 4(3)] if_P [OF 4(4)] .
    then show ?thesis using update by (auto simp: bindR_Inr_iff)
  next
    case 5
    have "Inr (DeleteReq (op_target x) (op_Name x) (delete_options x) False) = (Inr req :: (gerr, kubeRequest) res)"
      using assms unfolding write_request_def Let_def if_not_P [OF 5(1)] if_not_P [OF 5(2)] if_not_P [OF 5(3)] if_not_P [OF 5(4)] if_P [OF 5(5)] .
    then show ?thesis using delete by simp
  next
    case 6
    have "Inl (policyError ''unsupported_operation'' ''operation is not implemented'') = Inr req"
      using assms unfolding write_request_def Let_def if_not_P [OF 6(1)] if_not_P [OF 6(2)] if_not_P [OF 6(3)] if_not_P [OF 6(4)] if_not_P [OF 6(5)] .
    then show ?thesis by simp
  qed
qed

section \<open>Properties\<close>

text \<open>
  Property C1 (a commit writes at most once, and only after every check). A commit changes the cluster by at most one call, its last one, and that call is the request of the
  operation that was consumed from the plan store. Before it, in the same commit and without any other change, the configuration generation was that of the plan, the policy accepted the
  operation, the API server allowed it to the caller, and the target was read and found absent or at exactly the planned UID and version. In SafeWrite mode the
  write was also dry-run in the same commit and the resulting object satisfies the payload rules.
\<close>

theorem commit_single_checked_write:
  assumes "commit E U cfg (logged_kube K) subject input s = (out, s')" and "st_world s = (w, [])" and "st_world s' = (w', log)"
  shows "list_all (\<lambda>e. \<not> mutates e) log \<or>
    (\<exists>x ps pre ev. Consume (env_sha E) (env_now E) (cin_PlanID input) subject (cin_ConfirmationCode input) (st_plans s) = (Inr x, ps) \<and>
       log = pre @ [ev] \<and> planned_write E U cfg x ev \<and> list_all (\<lambda>e. \<not> mutates e) pre \<and>
       op_Generation x = cfg_Generation cfg \<and>
       CheckTarget (env_sha E) cfg (op_Action x) (op_Namespace x) (op_Name x) = None \<and>
       (\<exists>review. rev_Allowed review \<and> EvReview (authorization_key (op_Action x) (op_Namespace x) (op_Name x)) (Inr review) \<in> set pre) \<and>
       target_unchanged U x pre \<and>
       (cfg_Mode cfg = ModeSafeWrite \<and> act_Action (op_Action x) \<notin> {''delete'', ''exec'', ''attach''} \<longrightarrow>
         (\<exists>req obj. dry_run_on (op_target x) req \<and> EvDo req (Inr obj) \<in> set pre \<and> validateSafePayload (GObj obj) = None)))"
  using assms(1)
proof (cases rule: commit_cases)
  case (consumed x ps w1)
  then have c: "commit_consumed E U cfg (logged_kube K) x (w, []) = (out, (w', log))" using assms(2,3) by simp
  show ?thesis using commit_consumed_log [OF c] consumed(1) unfolding commit_evidence_def by blast
qed (use assms(2,3) in auto)

text \<open>
  Property C24 (planning does not change the cluster). Whatever \<open>plan\<close> is asked to do, every call it makes is a read, an access review or a dry run.
\<close>

theorem plan_never_writes:
  assumes "plan E U cfg handles (logged_kube K) subject input s = (r, s')" and "st_world s = (w, log)" and "st_world s' = (w', log')"
  shows "\<exists>es. log' = log @ es \<and> list_all (\<lambda>e. \<not> mutates e) es"
proof -
  obtain q where "plan_preview E U cfg handles (logged_kube K) input (w, log) = (q, (w', log'))"
    using plan_state [OF assms(1)] assms(2,3) by auto
  then show ?thesis by (rule emitsD [OF quiet_plan_preview])
qed

text \<open>
  Property C25 (writes are conditional). The request that a commit sends for a plan that recorded a version addresses the planned resource, is not a dry run, and carries the recorded version
  as a precondition: in the object for apply and update, in the metadata for merge patches, scaling and restarts, as a leading test for JSON patches, and together with the UID for deletions.
  The hypothesis is what the accessors of unstructured objects promise.
\<close>

theorem writes_are_conditional:
  assumes "write_request U stamp x = Inr req" and "op_ResourceVersion x \<noteq> []"
    and "\<forall>rv ob. GetResourceVersion U (SetResourceVersion U rv ob) = rv"
  shows "real_write req \<and> request_target req = dynamicResource (op_Action x) (op_Namespace x) \<and>
    conditional_on U (op_TargetUID x) (op_ResourceVersion x) req"
  using assms(1)
proof (cases rule: write_request_cases)
  case (patch k b subs y)
  then show ?thesis using preparePatch_conditional [OF patch(1) assms(2)] by simp
qed (use assms(3) in \<open>simp_all add: delete_options_def\<close>)


section \<open>Witnesses\<close>

text \<open>Accessors that read and write the metadata map, and a cluster with one deployment that grants everything.\<close>

definition meta_get :: "string \<Rightarrow> gmap \<Rightarrow> string" where
  "meta_get k m = string_or_empty (gfield (map_or_nil (gfield m ''metadata'')) k)"

definition meta_set :: "string \<Rightarrow> string \<Rightarrow> gmap \<Rightarrow> gmap" where
  "meta_set k v m = mput m ''metadata'' (GObj (mput (map_or_nil (gfield m ''metadata'')) k (GStr v)))"

definition sample_ops :: unstructuredOps where
  "sample_ops =
     \<lparr>NestedName = meta_get ''name'', GetName = meta_get ''name'', GetUID = meta_get ''uid'', GetResourceVersion = meta_get ''resourceVersion'',
      GetAPIVersion = (\<lambda>m. string_or_empty (gfield m ''apiVersion'')), GetKind = (\<lambda>m. string_or_empty (gfield m ''kind'')),
      GetLabels = (\<lambda>m. []), SetGroupVersionKind = (\<lambda>g v k m. mput m ''kind'' (GStr k)),
      SetName = meta_set ''name'', SetNamespace = meta_set ''namespace'', SetResourceVersion = meta_set ''resourceVersion''\<rparr>"

definition sample_deployment :: gmap where
  "sample_deployment = [(''metadata'', GObj [(''uid'', GStr ''u1''), (''resourceVersion'', GStr ''7'')])]"

definition sample_kube :: "unit kube" where
  "sample_kube =
     \<lparr>k_authz = allow_all, k_do = (\<lambda>req w. (Inr sample_deployment, w)),
      k_pod = (\<lambda>ns name w. (Inl (StatusError NotFound ''pod''), w)), k_remote = (\<lambda>req w. (Inl (Plain ''no stream''), w))\<rparr>"

definition sample_env :: environment where
  "sample_env = \<lparr>env_sha = (\<lambda>t. t), env_now = 5000, env_later = 5000, env_rid = Inl Canceled, env_rcode = Inl Canceled, env_stamp = ''now''\<rparr>"

definition dangerous_config :: Config where
  "dangerous_config = sample_config\<lparr>cfg_Spec := sample_spec\<lparr>spec_Mode := ModeDangerous\<rparr>\<rparr>"

definition sample_state :: "(unit \<times> apiEvent list) appState" where
  "sample_state = \<lparr>st_plans = sample_store, st_admission = None, st_world = ((), [])\<rparr>"

definition sample_commit_input :: CommitInput where
  "sample_commit_input = \<lparr>cin_PlanID = sample_id, cin_ConfirmationCode = ''123456''\<rparr>"

definition sample_commit :: "(CommitOutput \<times> gerr option) \<times> (unit \<times> apiEvent list) appState" where
  "sample_commit = commit sample_env sample_ops dangerous_config (logged_kube sample_kube) ''alice'' sample_commit_input sample_state"

lemma sample_commit_eq:
  "commit sample_env sample_ops dangerous_config (logged_kube sample_kube) ''alice'' sample_commit_input sample_state =
     (fst sample_commit, snd sample_commit)"
  by (simp add: sample_commit_def)

definition sample_plan_input :: PlanInput where
  "sample_plan_input =
     \<lparr>pin_CapabilityID = ''cap_x'', pin_Namespace = [], pin_Name = [], pin_Object = None, pin_Patch = GNil, pin_PatchType = [],
      pin_Replicas = None, pin_Command = [], pin_Container = [], pin_Stdin = [], pin_TimeoutSeconds = 0,
      pin_GracePeriodSeconds = None, pin_Force = False\<rparr>"

lemma sample_op_permitted:
  "CheckTarget sha dangerous_config (op_Action sample_operation) ''demo'' ''web'' = None"
  "CheckTarget sha dangerous_config (prerequisiteGetAction (op_Action sample_operation)) ''demo'' ''web'' = None"
  by (simp_all add: CheckTarget_None_iff permits_def scope_permits_def mode_permits_def rules_permit_def sensitive_permits_def
      dangerous_config_def sample_config_def sample_spec_def sample_operation_def default_spec_def or_default_def Mutating_def
      prerequisiteGetAction_def managedTarget_def)

lemma sample_op_fields:
  "op_Namespace sample_operation = ''demo''" "op_Name sample_operation = ''web''" "op_Generation sample_operation = 1"
  "op_ExpectedAbsent sample_operation = False" "op_TargetUID sample_operation = ''u1''" "op_ResourceVersion sample_operation = ''7''"
  "op_Replicas sample_operation = Some 3" "act_Action (op_Action sample_operation) = ''scale''" "Mutating (op_Action sample_operation)"
  by (simp_all add: sample_operation_def Mutating_def)

abbreviation allowed_review :: "(gerr, accessReview) res" where
  "allowed_review \<equiv> Inr \<lparr>rev_Allowed = True, rev_EvaluationError = [], rev_Reason = []\<rparr>"

lemma sample_Authorize:
  "Authorize (k_authz (logged_kube sample_kube)) a ns name (None, ((), log)) =
     (Inr (), (None, ((), log @ [EvReview (authorization_key a ns name) allowed_review])))"
  by (simp add: Authorize_uncached authorize_def io_simps logged_kube_def logged_def sample_kube_def allow_all_def review_error_def)

lemma sample_authorized_commit:
  "uncached (CheckAndAuthorizeOperation sha dangerous_config (k_authz (logged_kube sample_kube)) (op_Action sample_operation) ''demo'' ''web'') ((), []) =
     (Inr (), ((), [EvReview (authorization_key (op_Action sample_operation) ''demo'' ''web'') allowed_review,
       EvReview (authorization_key (prerequisiteGetAction (op_Action sample_operation)) ''demo'' ''web'') allowed_review]))"
  by (simp add: uncached_def CheckAndAuthorizeOperation_def io_simps sample_op_permitted sample_op_fields sample_Authorize)

lemma sample_do: "k_do (logged_kube sample_kube) req ((), log) = (Inr sample_deployment, ((), log @ [EvDo req (Inr sample_deployment)]))"
  by (simp add: logged_kube_def sample_kube_def)

lemma sample_unchanged: "GetUID sample_ops sample_deployment = ''u1''" "GetResourceVersion sample_ops sample_deployment = ''7''"
  by (simp_all add: sample_ops_def meta_get_def sample_deployment_def gfield_def mget_def)

lemma sample_preconditions:
  "checkOperationPreconditions sample_ops (logged_kube sample_kube) sample_operation ((), log) =
     (Inr (), ((), log @ [EvDo (Get (op_target sample_operation) ''web'') (Inr sample_deployment)]))"
  by (simp add: checkOperationPreconditions_def Let_def io_simps sample_op_fields sample_do sample_unchanged)

lemma dangerous_fields: "cfg_Generation dangerous_config = 1" "cfg_Mode dangerous_config = ModeDangerous"
  by (simp_all add: dangerous_config_def sample_config_def)

lemma sample_checks_pass:
  "commit_checks sample_env sample_ops dangerous_config (logged_kube sample_kube) sample_operation ((), []) =
     (Inr (), ((), [EvReview (authorization_key (op_Action sample_operation) ''demo'' ''web'') allowed_review,
       EvReview (authorization_key (prerequisiteGetAction (op_Action sample_operation)) ''demo'' ''web'') allowed_review,
       EvDo (Get (op_target sample_operation) ''web'') (Inr sample_deployment)]))"
  by (simp add: commit_checks_def sample_op_fields dangerous_fields io_simps sample_authorized_commit sample_preconditions)

lemma sample_write_request: "\<exists>req. write_request sample_ops ''now'' sample_operation = Inr req \<and> real_write req"
  by (simp add: write_request_def Let_def sample_op_fields preparePatch_def patch_body_def addPatchResourceVersion_def)

lemma sample_commit_log:
  "\<exists>pre req. st_world (snd sample_commit) = ((), pre @ [EvDo req (Inr sample_deployment)]) \<and> real_write req"
proof -
  obtain req where req: "write_request sample_ops ''now'' sample_operation = Inr req" "real_write req"
    using sample_write_request by blast
  obtain q ps where c: "Consume (\<lambda>t. t) 5000 sample_id ''alice'' ''123456'' sample_store = (q, ps)" by (metis prod.exhaust)
  then have q: "q = Inr sample_operation" using sample_Consume by simp
  have r: "\<not> isRemote sample_store sample_id ''alice''"
    by (simp add: isRemote_def sample_store_def sample_op_fields split: option.splits)
  have x: "executeOperation sample_ops dangerous_config (logged_kube sample_kube) ''now'' sample_operation ((), log) =
      (object_result (Inr sample_deployment), ((), log @ [EvDo req (Inr sample_deployment)]))" for log
    by (simp add: executeOperation_def sample_op_fields req sample_do)
  show ?thesis
    using req(2) c q r
    by (simp add: sample_commit_def commit_def sample_state_def sample_commit_input_def sample_env_def Let_def commit_consumed_def
        sample_checks_pass [unfolded sample_env_def] x object_result_def)
qed

theorem commit_single_checked_write_witness:
  "\<exists>pre ev log. st_world (snd sample_commit) = ((), log) \<and> log = pre @ [ev] \<and> mutates ev \<and> list_all (\<lambda>e. \<not> mutates e) pre"
proof -
  obtain pre req where l: "st_world (snd sample_commit) = ((), pre @ [EvDo req (Inr sample_deployment)])" "real_write req"
    using sample_commit_log by blast
  have w: "st_world sample_state = ((), [])" by (simp add: sample_state_def)
  from commit_single_checked_write [OF sample_commit_eq w l(1)]
  have "list_all (\<lambda>e. \<not> mutates e) pre" using l(2) by auto
  with l show ?thesis by auto
qed

theorem plan_never_writes_witness:
  "let out = plan sample_env sample_ops dangerous_config [] (logged_kube sample_kube) ''alice'' sample_plan_input sample_state
   in \<exists>es. snd (st_world (snd out)) = [] @ es \<and> list_all (\<lambda>e. \<not> mutates e) es"
proof -
  have w: "st_world sample_state = ((), [])" by (simp add: sample_state_def)
  obtain r s' where p: "plan sample_env sample_ops dangerous_config [] (logged_kube sample_kube) ''alice'' sample_plan_input sample_state = (r, s')"
    by (metis prod.exhaust)
  obtain w' log' where s': "st_world s' = (w', log')" by (metis prod.exhaust)
  from plan_never_writes [OF p w s'] p s' show ?thesis by simp
qed

theorem writes_are_conditional_witness:
  "\<exists>req. write_request sample_ops ''now'' sample_operation = Inr req \<and> conditional_on sample_ops ''u1'' ''7'' req"
proof -
  obtain req where req: "write_request sample_ops ''now'' sample_operation = Inr req" using sample_write_request by blast
  have "\<forall>rv ob. GetResourceVersion sample_ops (SetResourceVersion sample_ops rv ob) = rv"
    by (simp add: sample_ops_def meta_get_def meta_set_def)
  from writes_are_conditional [OF req _ this] req show ?thesis by (auto simp: sample_op_fields)
qed


end
