(* ===== verification/Reads.thy ===== *)
theory Reads
  imports Catalog Schema Read_Output Operations
begin

text \<open>
  The read tools (\<open>internal/server/reads.go\<close>): search, describe, and read with its actions get, list, watch and logs.

  The API calls are parameters (\<open>readApi\<close>), as are the field selectors of the client library (\<open>fieldOps\<close>). A watch delivers a finite sequence of events until it is closed or its
  context ends; a log stream delivers bytes until it ends or fails. The handlers keep the progress messages they send. Time limits show as errors of the calls, or as the end of a stream.
\<close>

section \<open>Interfaces\<close>

record listOptions =
  lo_LabelSelector :: string
  lo_FieldSelector :: string
  lo_Limit :: int
  lo_Continue :: string
  lo_ResourceVersion :: string
  lo_AllowWatchBookmarks :: bool

record podLogOptions =
  pl_Container :: string
  pl_Follow :: bool
  pl_TailLines :: "int option"
  pl_SinceSeconds :: "int option"

text \<open>An event with the outcome of its conversion, and how the stream of events ends.\<close>

datatype watchEnd = WatchClosed | ContextDone string

record watchStream =
  ws_events :: "(string \<times> (gerr, gmap) res) list"
  ws_end :: watchEnd

text \<open>The bytes of a log and the error at their end; \<open>None\<close> is \<open>io.EOF\<close>.\<close>

record logStream =
  ls_bytes :: string
  ls_error :: "gerr option"

record 'w readApi =
  r_authz :: "'w authzApi"
  r_get :: "target \<Rightarrow> string \<Rightarrow> string list \<Rightarrow> ('w, gerr, gmap) io"
  r_list :: "target \<Rightarrow> listOptions \<Rightarrow> ('w, gerr, gmap) io"
  r_watch :: "target \<Rightarrow> listOptions \<Rightarrow> ('w, gerr, watchStream) io"
  r_pod :: "string \<Rightarrow> string \<Rightarrow> ('w, gerr, Pod) io"
  r_logs :: "string \<Rightarrow> string \<Rightarrow> podLogOptions \<Rightarrow> ('w, gerr, logStream) io"

record 'f fieldOps =
  fo_Parse :: "string \<Rightarrow> 'f option"
  fo_Empty :: "'f \<Rightarrow> bool"
  fo_RequiresExactMatch :: "'f \<Rightarrow> string \<Rightarrow> string option"
  fo_OneTermEqual :: "string \<Rightarrow> string \<Rightarrow> 'f"
  fo_And :: "'f \<Rightarrow> 'f \<Rightarrow> 'f"
  fo_String :: "'f \<Rightarrow> string"

section \<open>Small helpers\<close>

definition kubernetesListLimit :: "Config \<Rightarrow> int \<Rightarrow> int" where
  "kubernetesListLimit cfg requested =
     (let bounded = (if requested \<le> 0 \<or> MaxListItems (cfg_Limits cfg) < requested then MaxListItems (cfg_Limits cfg) else requested)
      in min bounded 8)"

definition namedFieldSelector :: "'f fieldOps \<Rightarrow> string \<Rightarrow> string \<Rightarrow> (gerr, string) res" where
  "namedFieldSelector F raw name =
     (case fo_Parse F raw of
        None \<Rightarrow> Inl (policyError ''invalid_input'' ''fieldSelector is not valid'')
      | Some selector \<Rightarrow>
         if fo_Empty F selector then Inr (fo_String F (fo_OneTermEqual F ''metadata.name'' name))
         else (case fo_RequiresExactMatch F selector ''metadata.name'' of
            Some selectedName \<Rightarrow>
              if selectedName \<noteq> name then Inl (policyError ''invalid_input'' ''fieldSelector metadata.name must match name'')
              else Inr (fo_String F selector)
          | None \<Rightarrow> Inr (fo_String F (fo_And F selector (fo_OneTermEqual F ''metadata.name'' name)))))"

definition subresources :: "Action \<Rightarrow> string list" where
  "subresources action = (if act_Subresource action = [] then [] else [act_Subresource action])"

definition compactProgress :: "gval \<Rightarrow> nat \<Rightarrow> string" where
  "compactProgress value limit = (let data = json_marshal value in if limit < length data then take limit data @ ''...'' else data)"

definition normalizeLogLine :: "string \<Rightarrow> string" where
  "normalizeLogLine line = trim_suffix (trim_suffix line [char_of (10 :: nat)]) [char_of (13 :: nat)]"

definition watchResult :: "gval list \<Rightarrow> string \<Rightarrow> string \<Rightarrow> bool \<Rightarrow> gmap" where
  "watchResult events ended resourceVersion truncated =
     (let r1 = [(''events'', GArr events), (''ended'', GStr ended)];
          r2 = (if resourceVersion \<noteq> [] then mput r1 ''resourceVersion'' (GStr resourceVersion) else r1)
      in if truncated then mput r2 ''truncated'' (GBool True) else r2)"

definition kubernetesObjectResourceVersion :: "gmap \<Rightarrow> string" where
  "kubernetesObjectResourceVersion object = scalarString (gfield (map_or_nil (gfield object ''metadata'')) ''resourceVersion'')"

section \<open>Watch\<close>

definition watch_object :: "(gerr, gmap) res \<Rightarrow> gmap" where
  "watch_object conv = (case conv of Inr object \<Rightarrow> object | Inl e \<Rightarrow> [(''error'', GStr (error_text e))])"

text \<open>The shape of an event's object: a status of an error event is only cleaned.\<close>

definition watch_shape :: "readEnv \<Rightarrow> Config \<Rightarrow> Action \<Rightarrow> readOutputOptions \<Rightarrow> string \<Rightarrow> gmap \<Rightarrow> (gerr, gmap) res" where
  "watch_shape E cfg action options event_type object =
     bindR (redactResult (GObj object) action (SensitiveReads (cfg_Policy cfg))) (\<lambda>redacted_value.
       if event_type = ''ERROR'' then
         (case as_map (cleanKubernetesValue redacted_value options False) of
            Some shaped \<Rightarrow> Inr shaped
          | None \<Rightarrow> Inr [(''error'', GStr ''Kubernetes watch returned an invalid Status object'')])
       else shapeReadOutput E redacted_value action options)"

definition watch_entry :: "string \<Rightarrow> gmap \<Rightarrow> string \<Rightarrow> gval" where
  "watch_entry event_type shaped resourceVersion =
     (let entry = [(''type'', GStr event_type), (''object'', GObj shaped)]
      in GObj (if resourceVersion \<noteq> [] then mput entry ''resourceVersion'' (GStr resourceVersion) else entry))"

fun watch_loop ::
  "readEnv \<Rightarrow> Config \<Rightarrow> Action \<Rightarrow> readOutputOptions \<Rightarrow> (string \<times> (gerr, gmap) res) list \<Rightarrow> watchEnd \<Rightarrow> gval list \<Rightarrow> int \<Rightarrow> string \<Rightarrow> string list \<Rightarrow>
   (gerr, gmap) res \<times> string list" where
  "watch_loop E cfg action options events ending items outputBytes lastResourceVersion notes =
     (if MaxListItems (cfg_Limits cfg) \<le> int (length items) then (Inr (watchResult items ''item limit reached'' lastResourceVersion False), notes)
      else (case events of
         [] \<Rightarrow> (Inr (watchResult items (case ending of WatchClosed \<Rightarrow> ''watch closed'' | ContextDone e \<Rightarrow> e) lastResourceVersion False), notes)
       | (event_type, conv) # rest \<Rightarrow>
          (let object = watch_object conv;
               eventResourceVersion = kubernetesObjectResourceVersion object;
               lastRV = (if eventResourceVersion \<noteq> [] then eventResourceVersion else lastResourceVersion)
           in case watch_shape E cfg action options event_type object of
                Inl e \<Rightarrow> (Inl e, notes)
              | Inr shaped \<Rightarrow>
                 (let entry = watch_entry event_type shaped eventResourceVersion; size = int (length (json_marshal entry)) in
                  if MaxOutputBytes (cfg_Limits cfg) < outputBytes + size
                  then (Inr (watchResult items ''output limit reached'' lastRV True), notes)
                  else watch_loop E cfg action options rest ending (items @ [entry]) (outputBytes + size) lastRV
                         (notes @ [compactProgress entry 4096])))))"

declare watch_loop.simps [simp del]

definition watch ::
  "readEnv \<Rightarrow> Config \<Rightarrow> 'w readApi \<Rightarrow> Action \<Rightarrow> string \<Rightarrow> ReadInput \<Rightarrow> readOutputOptions \<Rightarrow> ('w, gerr, gmap \<times> string list) io" where
  "watch E cfg api action namespace input options =
     bindE (r_watch api (dynamicResource action namespace)
         \<lparr>lo_LabelSelector = ri_LabelSelector input, lo_FieldSelector = ri_FieldSelector input, lo_Limit = 0, lo_Continue = [],
          lo_ResourceVersion = ri_ResourceVersion input, lo_AllowWatchBookmarks = True\<rparr>) (\<lambda>stream.
       case watch_loop E cfg action options (ws_events stream) (ws_end stream) [] 0 (ri_ResourceVersion input) [] of
         (Inl e, notes) \<Rightarrow> raise e
       | (Inr result, notes) \<Rightarrow> ret (result, notes))"

section \<open>Logs\<close>

text \<open>The complete lines of a text, with their newline, and the rest behind the last newline.\<close>

fun log_lines :: "string \<Rightarrow> string list \<times> string" where
  "log_lines [] = ([], [])"
| "log_lines (c # s) =
     (case log_lines s of (lines, tail) \<Rightarrow>
        if c = char_of (10 :: nat) then ([c] # lines, tail)
        else (case lines of [] \<Rightarrow> ([], c # tail) | l # ls \<Rightarrow> ((c # l) # ls, tail)))"

datatype lineStep = MoreLines "string list" int "string list" | LogsDone gmap "string list"

definition logs_map :: "string list \<Rightarrow> bool \<Rightarrow> gmap" where
  "logs_map lines truncated = [(''logs'', GStrs lines), (''truncated'', GBool truncated)]"

text \<open>One chunk of the followed log that is not empty.\<close>

definition follow_line :: "Config \<Rightarrow> string \<Rightarrow> string list \<Rightarrow> int \<Rightarrow> string list \<Rightarrow> lineStep" where
  "follow_line cfg raw lines used notes =
     (if MaxListItems (cfg_Limits cfg) \<le> int (length lines) then LogsDone (logs_map lines True) notes
      else let remaining = MaxOutputBytes (cfg_Limits cfg) - used in
        if remaining < int (length raw) then
          (if 0 < remaining
           then (let line = normalizeLogLine (take (nat remaining) raw)
                 in LogsDone (logs_map (lines @ [line]) True) (notes @ [compactProgress (GStr line) 4096]))
           else LogsDone (logs_map lines True) notes)
        else (let line = normalizeLogLine raw
              in MoreLines (lines @ [line]) (used + int (length raw)) (notes @ [compactProgress (GStr line) 4096])))"

definition follow_end :: "gerr option \<Rightarrow> string list \<Rightarrow> string list \<Rightarrow> (gerr, gmap \<times> string list) res" where
  "follow_end err lines notes =
     (case err of
        None \<Rightarrow> Inr (logs_map lines False, notes)
      | Some e \<Rightarrow> if e = Canceled \<or> e = DeadlineExceeded then Inr (logs_map lines False, notes) else Inl e)"

fun follow_loop :: "Config \<Rightarrow> string list \<Rightarrow> string \<Rightarrow> gerr option \<Rightarrow> string list \<Rightarrow> int \<Rightarrow> string list \<Rightarrow> (gerr, gmap \<times> string list) res" where
  "follow_loop cfg [] tail err lines used notes =
     (if tail = [] then follow_end err lines notes
      else (case follow_line cfg tail lines used notes of
              LogsDone m ns \<Rightarrow> Inr (m, ns)
            | MoreLines ls sz ns \<Rightarrow> follow_end err ls ns))"
| "follow_loop cfg (raw # raws) tail err lines used notes =
     (case follow_line cfg raw lines used notes of
        LogsDone m ns \<Rightarrow> Inr (m, ns)
      | MoreLines ls sz ns \<Rightarrow> follow_loop cfg raws tail err ls sz ns)"

text \<open>\<open>io.LimitReader\<close>: the first \<open>n\<close> bytes; when they are used up, the end of the file instead of the error behind them.\<close>

definition limit_stream :: "int \<Rightarrow> logStream \<Rightarrow> logStream" where
  "limit_stream n stream =
     (if n \<le> int (length (ls_bytes stream)) then \<lparr>ls_bytes = take (nat n) (ls_bytes stream), ls_error = None\<rparr> else stream)"

definition read_logs :: "Config \<Rightarrow> ReadInput \<Rightarrow> logStream \<Rightarrow> (gerr, gmap \<times> string list) res" where
  "read_logs cfg input stream =
     (let limit = MaxOutputBytes (cfg_Limits cfg); limited = limit_stream (limit + 1) stream; data = ls_bytes limited in
      if \<not> ri_Follow input then
        (case ls_error limited of
           Some e \<Rightarrow> Inl e
         | None \<Rightarrow> Inr ([(''logs'', GStr (take (nat (min (int (length data)) limit)) data)), (''truncated'', GBool (limit < int (length data)))], []))
      else (case log_lines data of (lines, tail) \<Rightarrow> follow_loop cfg lines tail (ls_error limited) [] 0 []))"

definition logs :: "Config \<Rightarrow> 'w readApi \<Rightarrow> string \<Rightarrow> ReadInput \<Rightarrow> ('w, gerr, gmap \<times> string list) io" where
  "logs cfg api namespace input =
     (if ri_Name input = [] then raise (policyError ''invalid_input'' ''name is required for logs'')
      else bindE (r_logs api namespace (ri_Name input)
             \<lparr>pl_Container = ri_Container input, pl_Follow = ri_Follow input, pl_TailLines = ri_TailLines input, pl_SinceSeconds = ri_SinceSeconds input\<rparr>)
           (\<lambda>stream. liftR (read_logs cfg input stream)))"

section \<open>Read\<close>

definition is_stream :: "Action \<Rightarrow> ReadInput \<Rightarrow> bool" where
  "is_stream action input = (act_Action action = ''watch'' \<or> (act_Action action = ''logs'' \<and> ri_Follow input))"

text \<open>The container of a log: the requested one, or the default one of the pod, which the caller must be allowed to read.\<close>

definition log_container :: "(string \<Rightarrow> string) \<Rightarrow> Config \<Rightarrow> 'w readApi \<Rightarrow> Action \<Rightarrow> string \<Rightarrow> ReadInput \<Rightarrow> ('w, gerr, ReadInput) io" where
  "log_container sha cfg api action namespace input =
     (if act_Action action = ''logs'' \<and> ri_Name input = [] then raise (policyError ''invalid_input'' ''name is required for logs'')
      else if act_Action action = ''logs'' \<and> ri_Container input = [] then
        bindE (uncached (CheckAndAuthorize sha cfg (r_authz api) (prerequisiteGetAction action) namespace (ri_Name input))) (\<lambda>_.
        bindE (r_pod api namespace (ri_Name input)) (\<lambda>pod.
        bindE (liftR (resolveContainer pod [])) (\<lambda>container. ret (input\<lparr>ri_Container := container\<rparr>))))
      else ret input)"

definition read_selector :: "'f fieldOps \<Rightarrow> Action \<Rightarrow> ReadInput \<Rightarrow> (gerr, ReadInput) res" where
  "read_selector F action input =
     (if (act_Action action = ''list'' \<or> act_Action action = ''watch'') \<and> ri_Name input \<noteq> []
      then bindR (namedFieldSelector F (ri_FieldSelector input) (ri_Name input)) (\<lambda>selector. Inr (input\<lparr>ri_FieldSelector := selector\<rparr>))
      else Inr input)"

definition shaped_output :: "readEnv \<Rightarrow> Config \<Rightarrow> Action \<Rightarrow> readOutputOptions \<Rightarrow> gmap \<Rightarrow> (gerr, gmap) res" where
  "shaped_output E cfg action options result =
     bindR (redactResult (GObj result) action (SensitiveReads (cfg_Policy cfg))) (\<lambda>redacted_value.
     bindR (shapeReadOutput E redacted_value action options) (\<lambda>shaped. Inr (boundedOutput shaped (MaxOutputBytes (cfg_Limits cfg)))))"

text \<open>The switch over the actions; the result comes with the progress messages.\<close>

definition read_switch ::
  "readEnv \<Rightarrow> Config \<Rightarrow> 'w readApi \<Rightarrow> Action \<Rightarrow> string \<Rightarrow> readOutputOptions \<Rightarrow> ReadInput \<Rightarrow> ('w, gerr, gmap \<times> string list) io" where
  "read_switch E cfg api action namespace options input =
     (let bounded = (\<lambda>(m, notes). ret (boundedOutput m (MaxOutputBytes (cfg_Limits cfg)), notes)) in
      if act_Action action = ''get'' then
        (if ri_Name input = [] then raise (policyError ''invalid_input'' ''name is required for get'')
         else bindE (r_get api (dynamicResource action namespace) (ri_Name input) (subresources action)) (\<lambda>object.
              bindE (liftR (shaped_output E cfg action options object)) (\<lambda>out. ret (out, []))))
      else if act_Action action = ''list'' then
        bindE (r_list api (dynamicResource action namespace)
           \<lparr>lo_LabelSelector = ri_LabelSelector input, lo_FieldSelector = ri_FieldSelector input, lo_Limit = kubernetesListLimit cfg (ri_Limit input),
            lo_Continue = ri_Cursor input, lo_ResourceVersion = [], lo_AllowWatchBookmarks = False\<rparr>) (\<lambda>object.
        bindE (liftR (shaped_output E cfg action options object)) (\<lambda>out. ret (out, [])))
      else if act_Action action = ''watch'' then bindE (watch E cfg api action namespace input options) bounded
      else bindE (logs cfg api namespace input) bounded)"

definition read_checked ::
  "(string \<Rightarrow> string) \<Rightarrow> 'f fieldOps \<Rightarrow> readEnv \<Rightarrow> Config \<Rightarrow> 'w readApi \<Rightarrow> Action \<Rightarrow> string \<Rightarrow> readOutputOptions \<Rightarrow> ReadInput \<Rightarrow>
   ('w, gerr, gmap \<times> string list) io" where
  "read_checked sha F E cfg api action namespace options input =
     bindE (uncached (CheckAndAuthorize sha cfg (r_authz api) action namespace (ri_Name input))) (\<lambda>_.
     bindE (log_container sha cfg api action namespace input) (\<lambda>input1.
     bindE (liftR (read_selector F action input1)) (\<lambda>input2.
     read_switch E cfg api action namespace options input2)))"

text \<open>
  The handler: the state is the admission of streams, whose slot is given back at the end, and the outside world. A panic-free handler always
  reaches its deferred release.
\<close>

definition read ::
  "(string \<Rightarrow> string) \<Rightarrow> 'f fieldOps \<Rightarrow> readEnv \<Rightarrow> Config \<Rightarrow> 'w readApi \<Rightarrow> capabilityCodec \<Rightarrow> ReadInput \<Rightarrow>
   (requestAdmission option \<times> 'w, gerr, gmap \<times> string list) io" where
  "read sha F E cfg api handles input = (\<lambda>(adm, w).
     case decode handles (ri_CapabilityID input) of
       Inl e \<Rightarrow> (Inl e, (adm, w))
     | Inr capability \<Rightarrow>
        (let action = AsAction capability in
         if Mutating action \<or> act_Action action \<notin> set [''get'', ''list'', ''watch'', ''logs'']
           then (Inl (policyError ''invalid_capability'' ''k8s.read only accepts get, list, watch, and logs capabilities''), (adm, w))
         else (case normalizeReadOutputOptions action input of
            Inl e \<Rightarrow> (Inl e, (adm, w))
          | Inr options \<Rightarrow>
             if act_Action action = ''logs'' \<and> ri_Follow input \<and> cfg_Mode cfg \<noteq> ModeDangerous
               then (Inl (policyError ''mode_denied'' ''followed log streams require Dangerous mode''), (adm, w))
             else (case (if is_stream action input then acquireStream adm else (Inr (), adm)) of
                (Inl e, adm1) \<Rightarrow> (Inl e, (adm1, w))
              | (Inr _, adm1) \<Rightarrow>
                 (case read_checked sha F E cfg api action (defaultNamespace cfg capability (ri_Namespace input)) options input w of
                    (r, w1) \<Rightarrow> (r, (if is_stream action input then map_option releaseStream adm1 else adm1, w1)))))))"

section \<open>Search and describe\<close>

record SearchInput =
  si_filter :: catalogSearchFilter
  si_Cursor :: string
  si_Limit :: int

definition search_limit :: "Config \<Rightarrow> int \<Rightarrow> int" where
  "search_limit cfg requested =
     (if requested \<le> 0 \<or> MaxListItems (cfg_Limits cfg) < requested then min (MaxListItems (cfg_Limits cfg)) 20 else requested)"

text \<open>\<open>search\<close>; \<open>None\<close> while another request refreshes the catalog and this one waits.\<close>

definition search ::
  "(string \<Rightarrow> string) \<Rightarrow> (string \<Rightarrow> string) \<Rightarrow> groupVersions \<Rightarrow> Config \<Rightarrow> 'w catalogApi \<Rightarrow> 'w authzApi \<Rightarrow> instant \<Rightarrow> instant \<Rightarrow> SearchInput \<Rightarrow>
   catalogCache \<times> 'w \<Rightarrow> ((gerr, Capability list \<times> string) res \<times> (catalogCache \<times> 'w)) option" where
  "search sha sign G cfg capi api now now' input s =
     (case catalog_list sign G capi now now' s of
        None \<Rightarrow> None
      | Some (Inl e, t) \<Rightarrow> Some (Inl e, t)
      | Some (Inr items, (c, w)) \<Rightarrow>
         (case searchCatalog sha cfg api items (si_filter input) (si_Cursor input) (search_limit cfg (si_Limit input)) w of
            (r, w') \<Rightarrow> Some (r, (c, w'))))"

record DescribeInput =
  di_CapabilityID :: string
  di_Namespace :: string
  di_Name :: string
  di_FieldPath :: string
  di_Depth :: int

definition describe_depth :: "int \<Rightarrow> int" where
  "describe_depth requested = (let d = (if requested \<le> 0 then 2 else requested) in if 6 < d then 6 else d)"

definition describe ::
  "(string \<Rightarrow> string) \<Rightarrow> Config \<Rightarrow> 'w authzApi \<Rightarrow> 'w schemaApi \<Rightarrow> instant \<Rightarrow> instant \<Rightarrow> Principal \<Rightarrow> capabilityCodec \<Rightarrow> DescribeInput \<Rightarrow>
   (schemaCache \<times> 'w, gerr, Capability \<times> gval) io" where
  "describe sha cfg api sapi now now' caller handles input = (\<lambda>(c, w).
     case decode handles (di_CapabilityID input) of
       Inl e \<Rightarrow> (Inl e, (c, w))
     | Inr capability \<Rightarrow>
        (case uncached (CheckAndAuthorize sha cfg api (AsAction capability) (defaultNamespace cfg capability (di_Namespace input)) (di_Name input)) w of
           (Inl e, w1) \<Rightarrow> (Inl e, (c, w1))
         | (Inr _, w1) \<Rightarrow>
            bindE (schemaForCapability sha sapi now now' caller capability (di_FieldPath input) (describe_depth (di_Depth input)))
              (\<lambda>schema. ret (capability, boundedValue schema (quot (MaxOutputBytes (cfg_Limits cfg)) 2))) (c, w1)))"

section \<open>Lemmas: authorization of reads\<close>

text \<open>Instrumentation: the access reviews and the calls that deliver data, in their order.\<close>

datatype readEvent = Reviewed authorizationKey "(gerr, accessReview) res" | DataCall

definition data_call :: "('w, gerr, 'a) io \<Rightarrow> ('w \<times> readEvent list, gerr, 'a) io" where
  "data_call f = (\<lambda>(w, log). case f w of (r, w') \<Rightarrow> (r, (w', log @ [DataCall])))"

definition logged_read :: "'w readApi \<Rightarrow> ('w \<times> readEvent list) readApi" where
  "logged_read api =
     \<lparr>r_authz = logged Reviewed (r_authz api), r_get = (\<lambda>t n subs. data_call (r_get api t n subs)), r_list = (\<lambda>t lo. data_call (r_list api t lo)),
      r_watch = (\<lambda>t lo. data_call (r_watch api t lo)), r_pod = (\<lambda>ns n. data_call (r_pod api ns n)),
      r_logs = (\<lambda>ns n pl. data_call (r_logs api ns n pl))\<rparr>"

lemma emits_data_call [emits_intros]: "emits (\<lambda>e. True) (data_call f)"
  by (auto simp: emits_def data_call_def list_all_iff split: prod.splits)

lemma CheckAndAuthorize_log:
  assumes "uncached (CheckAndAuthorize sha cfg (logged ev api) a ns name) (w, log) = (r, (w', log'))"
  shows "\<exists>qs. log' = log @ map (ev (authorization_key a ns name)) qs \<and>
    (r = Inr () \<longrightarrow> CheckTarget sha cfg a ns name = None \<and> (\<exists>review. qs = [Inr review] \<and> rev_Allowed review))"
proof (cases "CheckTarget sha cfg a ns name")
  case None
  then obtain c where "Authorize (logged ev api) a ns name (None, (w, log)) = (r, (c, (w', log')))"
    using assms by (auto simp: uncached_def CheckAndAuthorize_def io_simps split: prod.splits)
  from Authorize_uncached_log [OF this] None show ?thesis by auto
next
  case (Some e)
  then have "log' = log" "r \<noteq> Inr ()" using assms by (auto simp: uncached_def CheckAndAuthorize_def io_simps)
  then show ?thesis by (intro exI [of _ "[]"]) simp
qed

lemma emits_CheckAndAuthorize [emits_intros]: "emits (\<lambda>e. True) (uncached (CheckAndAuthorize sha cfg (logged ev api) a ns name))"
  by (auto simp: emits_def list_all_iff dest!: CheckAndAuthorize_log)

lemma logged_read_simps [simp]:
  "r_authz (logged_read api) = logged Reviewed (r_authz api)" "r_get (logged_read api) t n subs = data_call (r_get api t n subs)"
  "r_list (logged_read api) t lo = data_call (r_list api t lo)" "r_watch (logged_read api) t lo = data_call (r_watch api t lo)"
  "r_pod (logged_read api) ns n = data_call (r_pod api ns n)" "r_logs (logged_read api) ns n pl = data_call (r_logs api ns n pl)"
  by (simp_all add: logged_read_def)

lemma emits_log_container [emits_intros]: "emits (\<lambda>e. True) (log_container sha cfg (logged_read api) action ns input)"
  unfolding log_container_def logged_read_simps by (intro emits_intros)

lemma emits_read_switch [emits_intros]: "emits (\<lambda>e. True) (read_switch E cfg (logged_read api) action ns options input)"
  unfolding read_switch_def watch_def logs_def logged_read_simps Let_def by (intro emits_intros)

lemma read_checked_log:
  assumes "read_checked sha F E cfg (logged_read api) action ns options input (w, []) = (r, (w', log))"
  shows "(DataCall \<notin> set log \<and> (\<exists>e. r = Inl e)) \<or>
    (CheckTarget sha cfg action ns (ri_Name input) = None \<and>
     (\<exists>review rest. log = Reviewed (authorization_key action ns (ri_Name input)) (Inr review) # rest \<and> rev_Allowed review))"
proof -
  obtain q w1 log1 where q: "uncached (CheckAndAuthorize sha cfg (logged Reviewed (r_authz api)) action ns (ri_Name input)) (w, []) = (q, (w1, log1))"
    by (metis prod.exhaust)
  obtain qs where qs: "log1 = map (Reviewed (authorization_key action ns (ri_Name input))) qs"
    "q = Inr () \<longrightarrow> CheckTarget sha cfg action ns (ri_Name input) = None \<and> (\<exists>review. qs = [Inr review] \<and> rev_Allowed review)"
    using CheckAndAuthorize_log [OF q] by auto
  show ?thesis
  proof (cases q)
    case (Inl e)
    then have "log = log1" "r = Inl e" using assms q by (auto simp: read_checked_def io_simps)
    then show ?thesis using qs(1) by auto
  next
    case (Inr u)
    let ?rest = "bindE (log_container sha cfg (logged_read api) action ns input) (\<lambda>input1.
        bindE (liftR (read_selector F action input1)) (\<lambda>input2. read_switch E cfg (logged_read api) action ns options input2))"
    have rest: "?rest (w1, log1) = (r, (w', log))" using assms q Inr by (simp add: read_checked_def io_simps)
    have "emits (\<lambda>e. True) ?rest"
      by (rule emits_bind [OF emits_log_container emits_bind [OF emits_pure(4) emits_read_switch]])
    from emitsD [OF this rest] obtain es where "log = log1 @ es" by blast
    then show ?thesis using qs Inr by auto
  qed
qed

text \<open>Every value that a computation returns satisfies a predicate.\<close>

definition yields :: "('a \<Rightarrow> bool) \<Rightarrow> ('w, gerr, 'a) io \<Rightarrow> bool" where
  "yields P f = (\<forall>w x w'. f w = (Inr x, w') \<longrightarrow> P x)"

lemma yields_intros:
  "P x \<Longrightarrow> yields P (ret x)" "yields P (raise e)" "(\<And>x. yields P (g x)) \<Longrightarrow> yields P (bindE f g)"
  "(\<And>x. q = Inr x \<Longrightarrow> yields P (g x)) \<Longrightarrow> yields P (bindE (liftR q) g)"
  "(c \<Longrightarrow> yields P f1) \<Longrightarrow> (\<not> c \<Longrightarrow> yields P f2) \<Longrightarrow> yields P (if c then f1 else f2)"
  by (auto simp: yields_def io_Inr_iff elim!: bindE_InrE; blast)+

lemma read_switch_bounded: "yields (\<lambda>(out, notes). \<exists>m. out = boundedOutput m (MaxOutputBytes (cfg_Limits cfg))) (read_switch E cfg api action ns options input)"
proof -
  let ?P = "\<lambda>(out, notes :: string list). \<exists>m. out = boundedOutput m (MaxOutputBytes (cfg_Limits cfg))"
  have shaped: "yields ?P (bindE (liftR (shaped_output E cfg action options object)) (\<lambda>out. ret (out, [])))" for object
    by (rule yields_intros(4), rule yields_intros(1)) (auto simp: shaped_output_def bindR_Inr_iff)
  have pair: "yields ?P (case x of (m, notes) \<Rightarrow> ret (boundedOutput m (MaxOutputBytes (cfg_Limits cfg)), notes))" for x
    by (cases x) (auto intro!: yields_intros(1))
  show ?thesis unfolding read_switch_def Let_def
    by (intro yields_intros(2,3,5) shaped pair)
qed

lemma read_checked_bounded:
  assumes "read_checked sha F E cfg api action ns options input w = (Inr (out, notes), w')"
  shows "\<exists>m. out = boundedOutput m (MaxOutputBytes (cfg_Limits cfg))"
  using assms read_switch_bounded [of cfg E api action ns options] unfolding read_checked_def yields_def
  by (elim bindE_InrE) fastforce

lemma read_cases:
  assumes "read sha F E cfg api handles input (adm, w) = (r, (adm', w'))"
  shows "((\<exists>e. r = Inl e) \<and> adm' = adm \<and> w' = w) \<or>
    (\<exists>capability options. decode handles (ri_CapabilityID input) = Inr capability \<and> \<not> Mutating (AsAction capability) \<and> adm' = adm \<and>
       read_checked sha F E cfg api (AsAction capability) (defaultNamespace cfg capability (ri_Namespace input)) options input w = (r, w'))"
proof (cases "decode handles (ri_CapabilityID input)")
  case (Inl e)
  then show ?thesis using assms by (auto simp: read_def)
next
  case (Inr capability)
  show ?thesis using assms Inr acquire_release [of adm] acquire_refused [of adm]
    by (auto simp: read_def Let_def split: if_splits sum.splits prod.splits)
qed

section \<open>Lemmas: watches and logs\<close>

text \<open>The entry of one event, and the resource version that a sequence of events leaves behind.\<close>

definition watch_item :: "readEnv \<Rightarrow> Config \<Rightarrow> Action \<Rightarrow> readOutputOptions \<Rightarrow> string \<times> (gerr, gmap) res \<Rightarrow> (gerr, gval) res" where
  "watch_item E cfg action options = (\<lambda>(event_type, conv).
     bindR (watch_shape E cfg action options event_type (watch_object conv)) (\<lambda>shaped.
       Inr (watch_entry event_type shaped (kubernetesObjectResourceVersion (watch_object conv)))))"

definition event_version :: "string \<times> (gerr, gmap) res \<Rightarrow> string" where
  "event_version ev = kubernetesObjectResourceVersion (watch_object (snd ev))"

definition last_version :: "string \<Rightarrow> (string \<times> (gerr, gmap) res) list \<Rightarrow> string" where
  "last_version = foldl (\<lambda>version ev. if event_version ev \<noteq> [] then event_version ev else version)"

definition watch_ended :: "Config \<Rightarrow> watchEnd \<Rightarrow> nat \<Rightarrow> bool \<Rightarrow> string" where
  "watch_ended cfg ending n truncated =
     (if truncated then ''output limit reached''
      else if int n = MaxListItems (cfg_Limits cfg) then ''item limit reached''
      else (case ending of WatchClosed \<Rightarrow> ''watch closed'' | ContextDone e \<Rightarrow> e))"

abbreviation entry_bytes :: "gval list \<Rightarrow> int" where
  "entry_bytes entries \<equiv> (\<Sum>entry\<leftarrow>entries. int (length (json_marshal entry)))"

lemma last_version_Cons: "last_version version (ev # evs) = last_version (if event_version ev \<noteq> [] then event_version ev else version) evs"
  by (simp add: last_version_def)

lemma watch_loop_step:
  "watch_loop E cfg action options (ev # rest) ending items used version said =
     (if MaxListItems (cfg_Limits cfg) \<le> int (length items) then (Inr (watchResult items ''item limit reached'' version False), said)
      else case watch_item E cfg action options ev of
        Inl e \<Rightarrow> (Inl e, said)
      | Inr entry \<Rightarrow>
         if MaxOutputBytes (cfg_Limits cfg) < used + int (length (json_marshal entry))
         then (Inr (watchResult items ''output limit reached'' (last_version version [ev]) True), said)
         else watch_loop E cfg action options rest ending (items @ [entry]) (used + int (length (json_marshal entry))) (last_version version [ev])
                (said @ [compactProgress entry 4096]))"
proof -
  obtain event_type conv where ev: "ev = (event_type, conv)" by (cases ev)
  show ?thesis
    by (cases "watch_shape E cfg action options event_type (watch_object conv)")
      (simp_all add: ev watch_loop.simps [of _ _ _ _ "(event_type, conv) # rest"] watch_item_def event_version_def last_version_def bindR_def Let_def
        del: json_marshal.simps)
qed

lemma watch_loop_prefix:
  assumes "watch_loop E cfg action options events ending items used version said = (Inr m, said')"
    and "int (length items) \<le> MaxListItems (cfg_Limits cfg)" "used \<le> MaxOutputBytes (cfg_Limits cfg)"
  shows "\<exists>n kept truncated. n \<le> length events \<and> map (watch_item E cfg action options) (take n events) = map Inr kept \<and>
    m = watchResult (items @ kept) (watch_ended cfg ending (length items + n) truncated) (last_version version (take (if truncated then Suc n else n) events)) truncated \<and>
    said' = said @ map (\<lambda>entry. compactProgress entry 4096) kept \<and>
    int (length items + n) \<le> MaxListItems (cfg_Limits cfg) \<and> used + entry_bytes kept \<le> MaxOutputBytes (cfg_Limits cfg) \<and>
    (if truncated then n < length events \<and>
        (\<exists>entry. watch_item E cfg action options (events ! n) = Inr entry \<and> MaxOutputBytes (cfg_Limits cfg) < used + entry_bytes (kept @ [entry]))
     else n = length events \<or> int (length items + n) = MaxListItems (cfg_Limits cfg))"
  using assms
proof (induction events arbitrary: items used version said)
  case Nil
  then show ?case
    by (intro exI [of _ 0] exI [of _ "[]"] exI [of _ False]) (auto simp: watch_loop.simps last_version_def watch_ended_def split: if_splits watchEnd.splits)
next
  case (Cons ev rest)
  note unfolded = Cons.prems(1) [unfolded watch_loop_step]
  show ?case
  proof (cases "MaxListItems (cfg_Limits cfg) \<le> int (length items)")
    case True
    then show ?thesis using unfolded Cons.prems(2,3)
      by (intro exI [of _ 0] exI [of _ "[]"] exI [of _ False]) (auto simp: last_version_def watch_ended_def)
  next
    case False
    then obtain entry where entry: "watch_item E cfg action options ev = Inr entry"
      using unfolded by (auto split: sum.splits)
    show ?thesis
    proof (cases "MaxOutputBytes (cfg_Limits cfg) < used + int (length (json_marshal entry))")
      case True
      then show ?thesis using unfolded False entry Cons.prems(2,3)
        by (intro exI [of _ 0] exI [of _ "[]"] exI [of _ True]) (auto simp: watch_ended_def simp del: json_marshal.simps)
    next
      case small: False
      from Cons.IH [of "items @ [entry]" "used + int (length (json_marshal entry))" "last_version version [ev]" "said @ [compactProgress entry 4096]"]
      obtain n kept truncated where *: "n \<le> length rest" "map (watch_item E cfg action options) (take n rest) = map Inr kept"
        "m = watchResult ((items @ [entry]) @ kept) (watch_ended cfg ending (length (items @ [entry]) + n) truncated) (last_version (last_version version [ev]) (take (if truncated then Suc n else n) rest)) truncated"
        "said' = (said @ [compactProgress entry 4096]) @ map (\<lambda>entry. compactProgress entry 4096) kept"
        "int (length (items @ [entry]) + n) \<le> MaxListItems (cfg_Limits cfg)"
        "used + int (length (json_marshal entry)) + entry_bytes kept \<le> MaxOutputBytes (cfg_Limits cfg)"
        "if truncated then n < length rest \<and> (\<exists>e. watch_item E cfg action options (rest ! n) = Inr e \<and>
            MaxOutputBytes (cfg_Limits cfg) < used + int (length (json_marshal entry)) + entry_bytes (kept @ [e]))
         else n = length rest \<or> int (length (items @ [entry]) + n) = MaxListItems (cfg_Limits cfg)"
        using unfolded False small entry by (auto simp del: json_marshal.simps)
      have "last_version (last_version version [ev]) evs = last_version version (ev # evs)" for evs
        by (simp add: last_version_def)
      then show ?thesis using * entry
        by (intro exI [of _ "Suc n"] exI [of _ "entry # kept"] exI [of _ truncated])
          (auto simp del: json_marshal.simps split: if_splits)
    qed
  qed
qed

lemma log_lines_concat: "log_lines data = (lines, tail) \<Longrightarrow> concat lines @ tail = data"
  by (induction data arbitrary: lines tail) (auto split: prod.splits if_splits list.splits)

lemma log_lines_nonempty: "log_lines data = (lines, tail) \<Longrightarrow> [] \<notin> set lines"
  by (induction data arbitrary: lines tail) (auto split: prod.splits if_splits list.splits)

text \<open>The raw lines that a followed log has sent fit the limits.\<close>

definition log_fits :: "Config \<Rightarrow> string list \<Rightarrow> bool" where
  "log_fits cfg raws = (int (length raws) \<le> MaxListItems (cfg_Limits cfg) \<and> int (length (concat raws)) \<le> MaxOutputBytes (cfg_Limits cfg))"

lemma follow_line_done:
  assumes "follow_line cfg raw (map normalizeLogLine sent) (int (length (concat sent))) said = LogsDone m said'"
    and "raw \<noteq> []" "log_fits cfg sent"
  shows "\<exists>new left. left \<noteq> [] \<and> concat new @ left = raw \<and> m = logs_map (map normalizeLogLine (sent @ new)) True \<and> log_fits cfg (sent @ new)"
proof (cases "MaxListItems (cfg_Limits cfg) \<le> int (length sent) \<or> MaxOutputBytes (cfg_Limits cfg) - int (length (concat sent)) \<le> 0")
  case True
  then show ?thesis using assms by (intro exI [of _ "[]"] exI [of _ raw]) (auto simp: follow_line_def Let_def split: if_splits)
next
  case False
  define k where "k = nat (MaxOutputBytes (cfg_Limits cfg) - int (length (concat sent)))"
  have "k < length raw" "m = logs_map (map normalizeLogLine sent @ [normalizeLogLine (take k raw)]) True"
    using False assms(1) by (auto simp: follow_line_def Let_def k_def split: if_splits)
  then show ?thesis using False assms(3)
    by (intro exI [of _ "[take k raw]"] exI [of _ "drop k raw"]) (auto simp: log_fits_def k_def)
qed

lemma follow_line_more:
  assumes "follow_line cfg raw (map normalizeLogLine sent) (int (length (concat sent))) said = MoreLines ls n said'" "log_fits cfg sent"
  shows "ls = map normalizeLogLine (sent @ [raw]) \<and> n = int (length (concat (sent @ [raw]))) \<and> log_fits cfg (sent @ [raw])"
  using assms by (auto simp: follow_line_def log_fits_def Let_def split: if_splits)

lemma follow_end_Inr: "follow_end err lines said = Inr (m, said') \<Longrightarrow> m = logs_map lines False"
  by (auto simp: follow_end_def split: option.splits if_splits)

lemma follow_loop_prefix:
  assumes "follow_loop cfg raws tail err (map normalizeLogLine sent) (int (length (concat sent))) said = Inr (m, said')"
    and "[] \<notin> set raws" "log_fits cfg sent"
  shows "\<exists>new left. concat new @ left = concat raws @ tail \<and> m = logs_map (map normalizeLogLine (sent @ new)) (left \<noteq> []) \<and> log_fits cfg (sent @ new)"
  using assms
proof (induction raws arbitrary: sent said)
  case Nil
  show ?case
  proof (cases "tail = []")
    case True
    then show ?thesis using Nil follow_end_Inr by (intro exI [of _ "[]"]) auto
  next
    case False
    show ?thesis
    proof (cases "follow_line cfg tail (map normalizeLogLine sent) (int (length (concat sent))) said")
      case (MoreLines ls n ns)
      from follow_line_more [OF this Nil.prems(3)] MoreLines False Nil.prems(1) show ?thesis
        by (intro exI [of _ "[tail]"] exI [of _ "[]"]) (auto dest: follow_end_Inr)
    next
      case (LogsDone m1 ns)
      from follow_line_done [OF this False Nil.prems(3)] LogsDone False Nil.prems(1) show ?thesis by fastforce
    qed
  qed
next
  case (Cons raw raws)
  show ?case
  proof (cases "follow_line cfg raw (map normalizeLogLine sent) (int (length (concat sent))) said")
    case (MoreLines ls n ns)
    note step = follow_line_more [OF this Cons.prems(3)]
    have "follow_loop cfg raws tail err (map normalizeLogLine (sent @ [raw])) (int (length (concat (sent @ [raw])))) ns = Inr (m, said')"
      using Cons.prems(1) MoreLines step by simp
    from Cons.IH [OF this] Cons.prems(2) step obtain new left where
      "concat new @ left = concat raws @ tail" "m = logs_map (map normalizeLogLine ((sent @ [raw]) @ new)) (left \<noteq> [])" "log_fits cfg ((sent @ [raw]) @ new)"
      by auto
    then show ?thesis by (intro exI [of _ "raw # new"] exI [of _ left]) simp
  next
    case (LogsDone m1 ns)
    then obtain new left where "left \<noteq> []" "concat new @ left = raw" "m = logs_map (map normalizeLogLine (sent @ new)) True" "log_fits cfg (sent @ new)"
      using follow_line_done [OF LogsDone] Cons.prems by auto
    then show ?thesis by (intro exI [of _ new] exI [of _ "left @ concat raws @ tail"]) auto
  qed
qed

section \<open>Properties\<close>



text \<open>
  Logs are a flagged prefix. A log result holds a prefix of the bytes of the log: as one text, or, when the log is followed, cut into lines without their line ends, at most
  the item limit of them. The bytes delivered are within the output limit, and the truncation flag is set exactly when bytes of the log are missing.
\<close>

theorem logs_exact:
  assumes "read_logs cfg input stream = Inr (m, said)" and "0 \<le> MaxListItems (cfg_Limits cfg)" "0 \<le> MaxOutputBytes (cfg_Limits cfg)"
  shows "\<exists>raws left. concat raws @ left = ls_bytes stream \<and> int (length (concat raws)) \<le> MaxOutputBytes (cfg_Limits cfg) \<and>
    m = (if ri_Follow input then logs_map (map normalizeLogLine raws) (left \<noteq> [])
         else [(''logs'', GStr (concat raws)), (''truncated'', GBool (left \<noteq> []))]) \<and>
    (ri_Follow input \<longrightarrow> int (length raws) \<le> MaxListItems (cfg_Limits cfg))"
proof -
  define limit where "limit = MaxOutputBytes (cfg_Limits cfg)"
  define data where "data = ls_bytes (limit_stream (limit + 1) stream)"
  have data: "data = take (nat (limit + 1)) (ls_bytes stream)"
    using assms(3) by (auto simp: data_def limit_stream_def limit_def)
  define rest where "rest = drop (nat (limit + 1)) (ls_bytes stream)"
  have split: "data @ rest = ls_bytes stream" by (simp add: data rest_def)
  have long: "rest = [] \<or> limit < int (length data)" using assms(3) by (auto simp: data rest_def limit_def)
  show ?thesis
  proof (cases "ri_Follow input")
    case False
    let ?k = "nat (min (int (length data)) limit)"
    have "m = [(''logs'', GStr (take ?k data)), (''truncated'', GBool (limit < int (length data)))]"
      using assms(1) False by (auto simp: read_logs_def data_def limit_def Let_def split: option.splits)
    moreover have "(drop ?k data @ rest \<noteq> []) = (limit < int (length data))" using long assms(3) by (auto simp: min_def limit_def)
    moreover have "take ?k data @ drop ?k data @ rest = ls_bytes stream" using split by (simp add: append_assoc [symmetric])
    ultimately show ?thesis using False assms(3)
      by (intro exI [of _ "[take ?k data]"] exI [of _ "drop ?k data @ rest"]) (simp add: limit_def)
  next
    case True
    obtain lines tail where lt: "log_lines data = (lines, tail)" by (cases "log_lines data")
    have "follow_loop cfg lines tail (ls_error (limit_stream (limit + 1) stream)) (map normalizeLogLine []) (int (length (concat ([] :: string list)))) []
        = Inr (m, said)"
      using assms(1) True lt by (simp add: read_logs_def Let_def data_def limit_def)
    from follow_loop_prefix [OF this log_lines_nonempty [OF lt]] assms(2,3) obtain raws left where
      r: "concat raws @ left = data" "m = logs_map (map normalizeLogLine raws) (left \<noteq> [])" "log_fits cfg raws"
      using log_lines_concat [OF lt] by (auto simp: log_fits_def)
    moreover have "left \<noteq> [] \<or> rest = []" using long r by (auto simp: log_fits_def limit_def)
    ultimately show ?thesis using True split
      by (intro exI [of _ raws] exI [of _ "left @ rest"]) (auto simp: log_fits_def)
  qed
qed

section \<open>Witnesses\<close>

definition read_capability :: Capability where
  "read_capability = sample_capability\<lparr>cap_Verb := ''get'', cap_Action := ''get''\<rparr>"

definition read_handles :: capabilityCodec where
  "read_handles = put_handle [] ''cap_r'' read_capability"

definition sample_read :: ReadInput where
  "sample_read =
     \<lparr>ri_CapabilityID = ''cap_r'', ri_Namespace = ''demo'', ri_Name = ''web'', ri_LabelSelector = [], ri_FieldSelector = [], ri_Cursor = [],
      ri_ResourceVersion = ''5'', ri_Limit = 0, ri_OutputMode = [], ri_OmitManagedFields = None, ri_OmitAnnotations = None, ri_FieldPaths = [],
      ri_Follow = True, ri_Container = [], ri_TailLines = None, ri_SinceSeconds = None\<rparr>"

definition sample_reader :: "unit readApi" where
  "sample_reader =
     \<lparr>r_authz = allow_all, r_get = (\<lambda>t n subs w. (Inr sample_deployment, w)), r_list = (\<lambda>t lo w. (Inr [], w)),
      r_watch = (\<lambda>t lo w. (Inr \<lparr>ws_events = [], ws_end = WatchClosed\<rparr>, w)), r_pod = (\<lambda>ns n w. (Inl Canceled, w)),
      r_logs = (\<lambda>ns n pl w. (Inr \<lparr>ls_bytes = [], ls_error = None\<rparr>, w))\<rparr>"

definition no_fields :: "unit fieldOps" where
  "no_fields = \<lparr>fo_Parse = (\<lambda>t. None), fo_Empty = (\<lambda>f. True), fo_RequiresExactMatch = (\<lambda>f n. None), fo_OneTermEqual = (\<lambda>n v. ()),
     fo_And = (\<lambda>f g. ()), fo_String = (\<lambda>f. [])\<rparr>"

definition sample_read_env :: readEnv where
  "sample_read_env = \<lparr>re_now = 0, re_parse_time = (\<lambda>t. None), re_parse_float = (\<lambda>t. (0, 0))\<rparr>"

definition run_sample_read :: "(gerr, gmap \<times> string list) res \<times> (requestAdmission option \<times> (unit \<times> readEvent list))" where
  "run_sample_read = read (\<lambda>t. t) no_fields sample_read_env sample_config (logged_read sample_reader) read_handles sample_read (None, ((), []))"

lemma read_capability_facts:
  "decode read_handles ''cap_r'' = Inr (read_capability\<lparr>cap_ID := ''cap_r''\<rparr>)"
  "AsAction (read_capability\<lparr>cap_ID := ''cap_r''\<rparr>) = prerequisiteGetAction sample_action"
  "defaultNamespace cfg (read_capability\<lparr>cap_ID := ''cap_r''\<rparr>) ''demo'' = ''demo''"
  "\<not> Mutating (prerequisiteGetAction sample_action)" "act_Action (prerequisiteGetAction sample_action) = ''get''"
  by (simp_all add: decode_def read_handles_def put_handle_def mput_def mget_def has_prefix_def read_capability_def sample_capability_def AsAction_def
      sample_action_def prerequisiteGetAction_def defaultNamespace_def Mutating_def)


definition tiny_config :: Config where
  "tiny_config = sample_config\<lparr>cfg_Spec := sample_spec\<lparr>spec_Limits := (spec_Limits sample_spec)\<lparr>MaxOutputBytes := 100\<rparr>\<rparr>\<rparr>"

definition full_output :: readOutputOptions where
  "full_output = \<lparr>ro_mode = ''full'', ro_omitManagedFields = True, ro_omitAnnotations = True, ro_fieldPaths = []\<rparr>"

definition gap_events :: "(string \<times> (gerr, gmap) res) list" where
  "gap_events = [(''ADDED'', Inr sample_deployment), (''MODIFIED'', Inr (mput sample_deployment ''metadata'' (GObj [(''resourceVersion'', GStr ''8'')])))]"

definition gap_entry :: gval where
  "gap_entry = watch_entry ''ADDED'' sample_deployment ''7''"

lemma gap_watch:
  "watch_loop sample_read_env tiny_config sample_action full_output gap_events WatchClosed [] 0 ''5'' [] =
     (Inr (watchResult [gap_entry] ''output limit reached'' ''8'' True), [compactProgress gap_entry 4096])"
  by code_simp


definition sample_log :: logStream where
  "sample_log = \<lparr>ls_bytes = ''ab'', ls_error = None\<rparr>"

lemma sample_log_read: "read_logs sample_config sample_read sample_log = Inr (logs_map [''ab''] False, [compactProgress (GStr ''ab'') 4096])"
  by code_simp

theorem logs_exact_witness:
  "\<exists>raws left. concat raws @ left = ''ab'' \<and> logs_map [''ab''] False = logs_map (map normalizeLogLine raws) (left \<noteq> [])"
proof -
  have "0 \<le> MaxListItems (cfg_Limits sample_config)" "0 \<le> MaxOutputBytes (cfg_Limits sample_config)" "ri_Follow sample_read"
    by (simp_all add: sample_fields sample_read_def)
  with logs_exact [OF sample_log_read] show ?thesis by (auto simp: sample_log_def)
qed

end
