(* ===== verification/Well_Typed.thy ===== *)
theory Well_Typed
  imports Reads
begin

text \<open>
  The types of the values that the read tool returns. The model keeps a Go map as an association list and an \<open>int64\<close> as an integer; \<open>gtyped\<close> says that a value is one
  that Go can hold: the keys of every map are distinct and every \<open>int64\<close> is in range. The theory shows that each step of \<open>internal/server/redaction.go\<close>,
  \<open>internal/server/read_output.go\<close> and \<open>internal/server/reads.go\<close> keeps this, and so the whole read handler: a typed answer of the API server gives a typed result.
\<close>

named_theorems typed_intros \<open>operations keep the typing of values\<close>

fun gtyped :: "gval \<Rightarrow> bool" where
  "gtyped (GArr xs) = (\<forall>x \<in> set xs. gtyped x)"
| "gtyped (GObj kvs) = (mwf kvs \<and> (\<forall>(k, v) \<in> set kvs. gtyped v))"
| "gtyped (GInt64 n) = (min_int64 \<le> n \<and> n \<le> max_int64)"
| "gtyped v = True"

abbreviation map_in :: "(gval \<Rightarrow> bool) \<Rightarrow> gmap \<Rightarrow> bool" where
  "map_in P m \<equiv> P (GObj m)"

lemma gtyped_gwf: "gtyped v \<Longrightarrow> gwf v"
  by (induction v) (auto split: prod.splits)

section \<open>The interface\<close>

text \<open>The documents of a watch: every event that was converted carries an object of the class.\<close>

definition events_in :: "(gval \<Rightarrow> bool) \<Rightarrow> (string \<times> (gerr, gmap) res) list \<Rightarrow> bool" where
  "events_in P events = list_all (\<lambda>(event_type, conv). case conv of Inr object \<Rightarrow> map_in P object | Inl e \<Rightarrow> True) events"

text \<open>What the client library promises: the objects it decodes from the answers of the API server are in the class.\<close>

definition reader_in :: "(gval \<Rightarrow> bool) \<Rightarrow> 'w readApi \<Rightarrow> bool" where
  "reader_in P api =
     ((\<forall>t n subs. yields (map_in P) (r_get api t n subs)) \<and> (\<forall>t lo. yields (map_in P) (r_list api t lo)) \<and>
      (\<forall>t lo. yields (\<lambda>stream. events_in P (ws_events stream)) (r_watch api t lo)))"

lemma yields_bind: "yields Q f \<Longrightarrow> (\<And>x. Q x \<Longrightarrow> yields P (g x)) \<Longrightarrow> yields P (bindE f g)"
  by (auto simp: yields_def elim!: bindE_InrE) blast

lemma yields_liftR: "(\<And>x. q = Inr x \<Longrightarrow> P x) \<Longrightarrow> yields P (liftR q)"
  by (auto simp: yields_def io_Inr_iff)

text \<open>
  A class of values that the server's own constructions stay in: it is given by the keys of maps and by the elements, and has every scalar that the server
  builds. \<open>gtyped\<close> and \<open>gwf\<close> are such classes.
\<close>

locale value_class =
  fixes P :: "gval \<Rightarrow> bool"
  assumes arr: "P (GArr xs) = (\<forall>x \<in> set xs. P x)"
    and obj: "P (GObj kvs) = (mwf kvs \<and> (\<forall>(k, v) \<in> set kvs. P v))"
    and scalars: "P GNil" "P (GBool b)" "P (GInt n)" "P (GFloat c e)" "P (GStr t)" "P (GStrs ts)"
    and int64: "min_int64 \<le> n \<Longrightarrow> n \<le> max_int64 \<Longrightarrow> P (GInt64 n)"
begin

declare arr [simp] obj [simp] scalars [simp]

section \<open>Access to values\<close>

lemma typed_Nil [typed_intros]: "map_in P []"
  by simp

lemma typed_mget: "map_in P m \<Longrightarrow> mget m k = Some v \<Longrightarrow> P v"
  by (auto dest: mget_in_set)

lemma typed_gfield [typed_intros]: "map_in P m \<Longrightarrow> P (gfield m k)"
  by (auto simp: gfield_def split: option.splits dest: mget_in_set)

lemma typed_map_or_nil [typed_intros]: "P v \<Longrightarrow> map_in P (map_or_nil v)"
  by (cases v) (auto simp: map_or_nil_def)

lemma typed_as_map: "as_map v = Some m \<Longrightarrow> P v \<Longrightarrow> map_in P m"
  by (cases v) (auto simp: as_map_def)

lemma typed_as_list: "as_list v = Some xs \<Longrightarrow> P v \<Longrightarrow> P (GArr xs)"
  by (cases v) (auto simp: as_list_def)

lemma typed_mput [typed_intros]: "map_in P m \<Longrightarrow> P v \<Longrightarrow> map_in P (mput m k v)"
  using set_mput_subset [of m k v] by fastforce

lemma typed_filter [typed_intros]: "map_in P m \<Longrightarrow> map_in P (filter Q m)"
  by (auto intro: mwf_filter)

lemma typed_map_values:
  assumes "map_in P m" "\<And>k v. (k, v) \<in> set m \<Longrightarrow> P v \<Longrightarrow> P (f k v)"
  shows "map_in P (map (\<lambda>(k, v). (k, f k v)) m)"
proof -
  have "map fst (map (\<lambda>(k, v). (k, f k v)) m) = map fst m" by (simp add: case_prod_beta comp_def)
  then have "mwf (map (\<lambda>(k, v). (k, f k v)) m)" using assms(1) by (simp only: mwf_def obj arr)
  then show ?thesis using assms by auto
qed

lemma typed_list [typed_intros]: "(\<And>x. x \<in> set xs \<Longrightarrow> P (f x)) \<Longrightarrow> P (GArr (map f xs))"
  by simp

lemma typed_scalars [typed_intros]: "P (GStr s)" "P (GBool b)" "P (GInt n)" "P (GStrs ss)" "P redacted"
  by (simp_all add: redacted_def)

lemma typed_if [typed_intros]: "(c \<Longrightarrow> map_in P m) \<Longrightarrow> (\<not> c \<Longrightarrow> map_in P n) \<Longrightarrow> map_in P (if c then m else n)"
  by simp

lemma typed_items: "as_list (gfield m k) = Some xs \<Longrightarrow> map_in P m \<Longrightarrow> x \<in> set xs \<Longrightarrow> P x"
  using typed_as_list [OF _ typed_gfield] by fastforce

declare obj [simp del]

section \<open>Redaction\<close>

lemma typed_redact_values [typed_intros]: "map_in P m \<Longrightarrow> P (redact_values m)"
  unfolding redact_values_def by (rule typed_map_values) (auto intro: typed_intros)

lemma typed_redact_field: "map_in P m \<Longrightarrow> map_in P (redact_field m field)"
  unfolding redact_field_def by (auto split: option.split intro!: typed_mput typed_redact_values intro: typed_as_map typed_gfield)

lemma typed_redact_metadata: "map_in P m \<Longrightarrow> map_in P (redact_metadata m)"
  unfolding redact_metadata_def
  by (auto split: option.split intro!: typed_mput typed_redact_values intro: typed_as_map typed_gfield)

lemma typed_redactSecret [typed_intros]: "map_in P m \<Longrightarrow> map_in P (redactSecret m)"
  unfolding redactSecret_def by (simp add: typed_redact_field typed_redact_metadata)

lemma typed_redactSecretCollection: "P v \<Longrightarrow> P (redactSecretCollection v)"
  unfolding redactSecretCollection_def
  by (auto split: option.split intro!: typed_mput typed_redactSecret dest!: typed_as_map dest: typed_items intro: typed_as_map)

lemma typed_redactAnnotationMap: "P v \<Longrightarrow> P (redactAnnotationMap v)"
  unfolding redactAnnotationMap_def
  by (auto split: option.split intro!: typed_map_values intro: typed_scalars(5) typed_as_map)

lemma typed_redactSensitiveAnnotations: "P v \<Longrightarrow> P (redactSensitiveAnnotations v metadata)"
proof (induction v metadata rule: redactSensitiveAnnotations.induct)
  case (1 kvs metadata)
  then show ?case unfolding redactSensitiveAnnotations.simps by (intro typed_map_values) (auto intro: typed_redactAnnotationMap)
qed auto

lemma typed_redactResult: "redactResult v action policy = Inr out \<Longrightarrow> P v \<Longrightarrow> P out"
  by (auto simp: redactResult_def Let_def split: if_splits intro!: typed_redactSensitiveAnnotations typed_redactSecretCollection)

lemma typed_boundedOutput: "map_in P m \<Longrightarrow> map_in P (boundedOutput m limit)"
  by (auto simp: boundedOutput_def boundedValue_def as_map_def obj mwf_def Let_def split: if_splits)

section \<open>Cleaning\<close>

lemma typed_clean: "P v \<Longrightarrow> P (cleanKubernetesValue v options metadata)"
proof (induction v options metadata rule: cleanKubernetesValue.induct)
  case (1 kvs options metadata)
  then show ?case unfolding cleanKubernetesValue.simps by (intro typed_map_values typed_filter) auto
qed auto

section \<open>Summaries\<close>

lemma typed_copyString [typed_intros]: "map_in P m \<Longrightarrow> map_in P (copyString m key input inputKey)"
  by (simp add: copyString_def Let_def typed_mput)

lemma typed_numberValue: "P (numberValue E v)"
  by (auto simp: numberValue_def float_value_def Let_def split: gval.split prod.split)

lemma typed_copyNumber [typed_intros]: "map_in P m \<Longrightarrow> map_in P (copyNumber E m key input inputKey)"
  by (auto simp: copyNumber_def split: option.split intro: typed_mput typed_numberValue)

text \<open>The restart counts are added with the wrap-around of \<open>int64\<close>.\<close>

lemma restarts_typed: "P (GInt64 (ps_restarts s)) \<Longrightarrow> P (GInt64 (ps_restarts (pod_container E field raw s)))"
  by (simp add: pod_container_def Let_def wrap64_bounds int64)

lemma restarts_typed_fold:
  "P (GInt64 (ps_restarts s)) \<Longrightarrow> P (GInt64 (ps_restarts (fold (pod_container E field) items s)))"
  by (induction items arbitrary: s) (simp_all only: fold_simps restarts_typed)

lemma restarts_typed_state [typed_intros]: "P (GInt64 (ps_restarts (podContainerState E status)))"
proof -
  have "P (GInt64 (ps_restarts (pod_field E status s field)))" if "P (GInt64 (ps_restarts s))" for s field
    unfolding pod_field_def Let_def using that by (intro restarts_typed_fold) simp
  then show ?thesis unfolding podContainerState_def foldl.simps by (simp add: int64 min_int64_def max_int64_def)
qed

lemma typed_addPodSummary [typed_intros]: "map_in P m \<Longrightarrow> map_in P (addPodSummary E m spec status)"
  unfolding addPodSummary_def Let_def by (intro typed_intros)

lemma typed_addWorkloadSummary [typed_intros]: "map_in P m \<Longrightarrow> map_in P (addWorkloadSummary E m spec status)"
  unfolding addWorkloadSummary_def Let_def by (intro typed_intros)

lemma typed_add_daemonset_summary [typed_intros]: "map_in P m \<Longrightarrow> map_in P (add_daemonset_summary E m status)"
  unfolding add_daemonset_summary_def Let_def by (intro typed_intros)

lemma typed_addEventSummary [typed_intros]: "map_in P m \<Longrightarrow> map_in P (addEventSummary E m object)"
  unfolding addEventSummary_def Let_def by (auto split: list.split intro!: typed_intros)

lemma typed_summarizeMetricContainers:
  assumes "\<And>x. x \<in> set items \<Longrightarrow> P x"
  shows "P (GArr (summarizeMetricContainers items))"
proof -
  have "map_in P [(''name'', gfield (map_or_nil raw) ''name'')]" if "raw \<in> set items" for raw
    using typed_gfield [OF typed_map_or_nil [OF assms [OF that]]] by (simp add: obj mwf_def)
  then show ?thesis unfolding summarizeMetricContainers_def Let_def
    by (auto split: option.split intro!: typed_mput intro: typed_as_map typed_intros assms)
qed

lemma typed_add_kind_summary [typed_intros]:
  assumes "map_in P object" "map_in P m"
  shows "map_in P (add_kind_summary E kind object m)"
proof -
  have "P (GArr (summarizeMetricContainers xs))" if "as_list (gfield object ''containers'') = Some xs" for xs
    using typed_items [OF that assms(1)] by (rule typed_summarizeMetricContainers)
  then show ?thesis unfolding add_kind_summary_def Let_def using assms(2)
    by (auto split: option.split intro!: typed_intros)
qed

lemma typed_summarizeKubernetesObject [typed_intros]:
  assumes "map_in P object"
  shows "map_in P (summarizeKubernetesObject E object kind)"
proof -
  have "map_in P [(''name'', GStr a), (''namespace'', GStr b), (''kind'', GStr c)]" for a b c
    by (simp add: obj mwf_def)
  then show ?thesis unfolding summarizeKubernetesObject_def omitEmptySummaryValues_def Let_def by (intro typed_intros assms)
qed

section \<open>Envelopes, tables and projections\<close>

lemma typed_copied_fields:
  assumes "map_in P source" "map_in P m"
  shows "map_in P (fold (\<lambda>field m. case mget source field of Some v \<Rightarrow> if Q v then mput m field v else m | None \<Rightarrow> m) names m)"
  using assms(2) by (induction names arbitrary: m) (auto split: option.split intro!: typed_mput intro: typed_mget [OF assms(1)])

lemma typed_compactListMetadata [typed_intros]: "map_in P object \<Longrightarrow> map_in P (compactListMetadata object)"
  unfolding compactListMetadata_def Let_def by (intro typed_copied_fields typed_intros)

lemma typed_listEnvelope [typed_intros]: "map_in P object \<Longrightarrow> map_in P (listEnvelope object)"
  unfolding listEnvelope_def Let_def
  using typed_copied_fields [where Q = "\<lambda>v. True" and m = "[]"] by (intro typed_intros) (simp_all only: if_True typed_Nil)

lemma typed_item_maps:
  assumes "item \<in> set (item_maps items)" "\<And>x. x \<in> set items \<Longrightarrow> P x"
  shows "map_in P item"
  using assms by (auto simp: item_maps_def map_filter_def intro: typed_as_map)

lemma typed_summarizeKubernetesResponse: "map_in P object \<Longrightarrow> map_in P (summarizeKubernetesResponse E object action)"
  unfolding summarizeKubernetesResponse_def
  by (auto split: option.split intro!: typed_intros elim!: typed_item_maps intro: typed_items)

lemma typed_tableKubernetesResponse:
  assumes "map_in P object"
  shows "map_in P (tableKubernetesResponse E object action)"
proof -
  let ?items = "case as_list (gfield object ''items'') of Some xs \<Rightarrow> xs | None \<Rightarrow> [GObj object]"
  have "P x" if "x \<in> set ?items" for x using that assms by (auto split: option.splits intro: typed_items)
  then have "P (GArr (map (gfield (summarizeKubernetesObject E item kind)) columns))" if "item \<in> set (item_maps ?items)" for item kind columns
    using typed_item_maps [OF that] by (auto intro!: typed_intros)
  then have "map_in P [(''kind'', GStr kind), (''columns'', GStrs columns),
      (''rows'', GArr (map (\<lambda>item. GArr (map (gfield (summarizeKubernetesObject E item kind)) columns)) (item_maps ?items)))]" for kind columns
    by (simp add: obj mwf_def)
  then show ?thesis unfolding tableKubernetesResponse_def Let_def by (intro typed_intros assms)
qed

lemma typed_valueAtPath: "valueAtPath v parts = Some u \<Longrightarrow> P v \<Longrightarrow> P u"
  by (induction parts arbitrary: v) (auto simp: valueAtPath_Cons dest: typed_mget)

lemma typed_setValueAtPath: "map_in P m \<Longrightarrow> P v \<Longrightarrow> map_in P (setValueAtPath m parts v)"
  by (induction m parts v rule: setValueAtPath.induct) (auto intro!: typed_intros)

lemma typed_projectObject:
  assumes "map_in P object"
  shows "map_in P (fst (projectObject object paths))"
proof -
  have step: "map_in P (fst (project_path object path s))" if "map_in P (fst s)" for path s
    using that by (auto simp: project_path_def split: prod.split option.split intro!: typed_setValueAtPath intro: typed_valueAtPath assms)
  have "map_in P (fst (fold (project_path object) paths s))" if "map_in P (fst s)" for s
    using that by (induction paths arbitrary: s) (simp_all add: step)
  then show ?thesis by (simp add: projectObject_def typed_Nil)
qed

lemma typed_projectKubernetesResponse:
  "projectKubernetesResponse object paths = Inr out \<Longrightarrow> map_in P object \<Longrightarrow> map_in P out"
  unfolding projectKubernetesResponse_def Let_def
  by (auto split: option.splits prod.splits if_splits intro!: typed_intros typed_projectObject elim!: typed_item_maps
      dest: typed_projectObject [of _ paths] intro: typed_items)

lemma typed_shapeReadOutput: "shapeReadOutput E v action options = Inr out \<Longrightarrow> P v \<Longrightarrow> map_in P out"
  unfolding shapeReadOutput_def
  by (auto split: option.splits if_splits dest!: typed_as_map [OF _ typed_clean]
      intro: typed_projectKubernetesResponse typed_tableKubernetesResponse typed_summarizeKubernetesResponse)

section \<open>The read handler\<close>

lemma typed_shaped_output:
  "shaped_output E cfg action options object = Inr out \<Longrightarrow> map_in P object \<Longrightarrow> map_in P out"
  by (auto simp: shaped_output_def bindR_Inr_iff intro!: typed_boundedOutput dest: typed_redactResult typed_shapeReadOutput)

lemma typed_singleton [typed_intros]: "P v \<Longrightarrow> map_in P [(k, v)]"
  by (simp add: obj mwf_def)

lemma typed_watch_item:
  assumes "watch_item E cfg action options ev = Inr entry" "events_in P [ev]"
  shows "P entry"
proof -
  obtain event_type conv where ev: "ev = (event_type, conv)" by (cases ev)
  obtain shaped where shape: "watch_shape E cfg action options event_type (watch_object conv) = Inr shaped"
    and entry: "entry = watch_entry event_type shaped (kubernetesObjectResourceVersion (watch_object conv))"
    using assms(1) ev by (auto simp: watch_item_def bindR_Inr_iff)
  have "map_in P (watch_object conv)"
    using assms(2) ev by (auto simp: events_in_def watch_object_def split: sum.splits intro: typed_intros)
  then have "map_in P shaped" using shape unfolding watch_shape_def
    by (auto simp: bindR_Inr_iff split: if_splits option.splits intro!: typed_intros
        dest: typed_redactResult typed_shapeReadOutput intro: typed_as_map [OF _ typed_clean])
  then have "map_in P [(''type'', GStr event_type), (''object'', GObj shaped)]" by (simp add: obj [of "_ # _"] mwf_def)
  then show ?thesis unfolding entry watch_entry_def Let_def by (intro typed_intros)
qed

lemma typed_watchResult: "P (GArr entries) \<Longrightarrow> map_in P (watchResult entries ended version truncated)"
proof -
  assume "P (GArr entries)"
  then have "map_in P [(''events'', GArr entries), (''ended'', GStr ended)]" by (simp add: obj mwf_def)
  then show ?thesis unfolding watchResult_def Let_def by (intro typed_intros)
qed

lemma typed_watch_loop:
  assumes "watch_loop E cfg action options events ending items used version said = (Inr m, said')"
    and "events_in P events" "P (GArr items)"
  shows "map_in P m"
  using assms
proof (induction events arbitrary: items used version said)
  case Nil
  then show ?case by (auto simp: watch_loop.simps split: if_splits intro: typed_watchResult)
next
  case (Cons ev rest)
  have "P entry" if "watch_item E cfg action options ev = Inr entry" for entry
    using typed_watch_item [OF that] Cons.prems(2) by (simp add: events_in_def)
  moreover have "events_in P rest" using Cons.prems(2) by (simp add: events_in_def)
  ultimately show ?case using Cons.prems(1,3) Cons.IH unfolding watch_loop_step
    by (auto split: if_splits sum.splits intro: typed_watchResult simp del: json_marshal.simps)
qed

lemma typed_logs_map [typed_intros]: "map_in P (logs_map lines truncated)"
  by (simp add: logs_map_def obj mwf_def)

lemma typed_follow_loop: "follow_loop cfg raws tail err lines used said = Inr (m, said') \<Longrightarrow> map_in P m"
  by (induction cfg raws tail err lines used said rule: follow_loop.induct)
    (auto simp: follow_line_def follow_end_def Let_def split: if_splits option.splits lineStep.splits intro: typed_intros)

lemma typed_read_logs: "read_logs cfg input stream = Inr (m, said) \<Longrightarrow> map_in P m"
  by (auto simp: read_logs_def Let_def obj [of "_ # _"] mwf_def split: if_splits option.splits prod.splits dest: typed_follow_loop)

lemma yields_typed_watch:
  assumes "reader_in P api"
  shows "yields (\<lambda>(m, said). map_in P m) (watch E cfg api action ns input options)"
  unfolding watch_def
proof (rule yields_bind [where Q = "\<lambda>stream. events_in P (ws_events stream)"])
  fix stream assume "events_in P (ws_events stream)"
  then show "yields (\<lambda>(m, said). map_in P m)
      (case watch_loop E cfg action options (ws_events stream) (ws_end stream) [] 0 (ri_ResourceVersion input) [] of
         (Inl e, notes) \<Rightarrow> raise e | (Inr result, notes) \<Rightarrow> ret (result, notes))"
    by (auto split: prod.split sum.split intro!: yields_intros(1,2) dest: typed_watch_loop)
qed (use assms in \<open>simp add: reader_in_def\<close>)

lemma yields_typed_logs: "yields (\<lambda>(m, said). map_in P m) (logs cfg api ns input)"
  unfolding logs_def by (intro yields_intros(2,3,5) yields_liftR) (auto dest: typed_read_logs)

lemma read_switch_typed:
  assumes "reader_in P api"
  shows "yields (\<lambda>(m, said). map_in P m) (read_switch E cfg api action ns options input)"
proof -
  let ?Q = "\<lambda>(m, said :: string list). map_in P m"
  have shaped: "yields ?Q (bindE (liftR (shaped_output E cfg action options object)) (\<lambda>out. ret (out, [])))" if "map_in P object" for object
    using that by (intro yields_intros(1,4)) (auto dest: typed_shaped_output)
  have pair: "yields ?Q (case x of (m, notes) \<Rightarrow> ret (boundedOutput m (MaxOutputBytes (cfg_Limits cfg)), notes))" if "?Q x" for x
    using that by (cases x) (auto intro!: yields_intros(1) typed_boundedOutput)
  show ?thesis unfolding read_switch_def Let_def
    using assms yields_typed_watch [OF assms] yields_typed_logs
    by (intro yields_intros(2,5) yields_bind [where Q = "map_in P", OF _ shaped] yields_bind [where Q = ?Q, OF _ pair]) (auto simp: reader_in_def)
qed

lemma read_class:
  assumes "reader_in P api" and "read sha F E cfg api handles input s = (Inr (out, said), s')"
  shows "P (GObj out)"
proof -
  obtain adm w adm' w' where s: "s = (adm, w)" "s' = (adm', w')" by (metis prod.exhaust)
  from read_cases [OF assms(2) [unfolded s]] obtain action ns options
    where "read_checked sha F E cfg api action ns options input w = (Inr (out, said), w')" by blast
  then show ?thesis using read_switch_typed [OF assms(1), of E cfg action ns options] unfolding read_checked_def yields_def
    by (elim bindE_InrE) fastforce
qed

end

interpretation go_values: value_class gtyped
  by unfold_locales auto

interpretation go_maps: value_class gwf
  by unfold_locales auto

section \<open>The property\<close>


section \<open>Witness\<close>

definition restarted_pod :: gmap where
  "restarted_pod =
     [(''kind'', GStr ''Pod''), (''metadata'', GObj [(''name'', GStr ''web''), (''managedFields'', GArr [])]),
      (''status'', GObj [(''restartCount'', GInt64 3)])]"

definition cleaned_pod :: gmap where
  "cleaned_pod = [(''kind'', GStr ''Pod''), (''metadata'', GObj [(''name'', GStr ''web'')]), (''status'', GObj [(''restartCount'', GInt64 3)])]"

definition pod_reader :: "unit readApi" where
  "pod_reader = sample_reader\<lparr>r_get := \<lambda>t n subs w. (Inr restarted_pod, w)\<rparr>"

lemma pod_reader_typed: "reader_in gtyped pod_reader"
  by (auto simp: reader_in_def yields_def pod_reader_def sample_reader_def restarted_pod_def events_in_def gtyped.simps(2) mwf_def
      min_int64_def max_int64_def)

lemma pod_read:
  "read_checked (\<lambda>t. t) no_fields sample_read_env sample_config pod_reader (prerequisiteGetAction sample_action) ''demo'' full_output sample_read () =
     (Inr (cleaned_pod, []), ())"
  by code_simp

lemma pod_read_options: "normalizeReadOutputOptions (prerequisiteGetAction sample_action) sample_read = Inr full_output"
proof -
  have "to_lower (trim_space []) = []" by code_simp
  then show ?thesis
    by (simp add: normalizeReadOutputOptions_def sample_read_def read_capability_facts(5) full_output_def maxReadFieldPaths_def defaultTrue_def
        bindR_def Let_def)
qed


end
