(* ===== verification/Audit_Log.thy ===== *)
theory Audit_Log
  imports Operations Identity
begin

text \<open>
  The security audit (\<open>internal/server/audit.go\<close>) and the metrics it keeps: one line with attributes per authentication, refused
  request and tool call, and the counters beside it.

  A line is the list of its attributes in order. The metrics of the calls to Kubernetes (\<open>internal/server/upstream.go\<close>) are kept in the same record.
\<close>

section \<open>Telemetry\<close>

text \<open>The counters by metric and labels, the observed durations, and the audit lines, the oldest first.\<close>

record telemetry =
  tel_counts :: "((string \<times> string list) \<times> int) list"
  tel_observed :: "(string \<times> string list \<times> duration) list"
  tel_log :: "gmap list"

definition inc :: "string \<Rightarrow> string list \<Rightarrow> telemetry \<Rightarrow> telemetry" where
  "inc metric labels t =
     t\<lparr>tel_counts := mput (tel_counts t) (metric, labels) ((case mget (tel_counts t) (metric, labels) of None \<Rightarrow> 0 | Some n \<Rightarrow> n) + 1)\<rparr>"

definition observe :: "string \<Rightarrow> string list \<Rightarrow> duration \<Rightarrow> telemetry \<Rightarrow> telemetry" where
  "observe metric labels d t = t\<lparr>tel_observed := tel_observed t @ [(metric, labels, d)]\<rparr>"

text \<open>The stage of a call to the API server by its path, and the metrics of one call. A response is its status.\<close>

definition upstream_stage :: "string \<Rightarrow> string" where
  "upstream_stage path =
     (let slashes = length (filter (\<lambda>c. c = CHR ''/'') path) in
      if has_suffix path ''/tokenreviews'' then ''authentication''
      else if has_suffix path ''/selfsubjectaccessreviews'' then ''authorization''
      else if has_prefix path ''/openapi/'' then ''openapi''
      else if path = ''/api'' \<or> path = ''/apis'' \<or> (has_prefix path ''/api/'' \<and> slashes = 2) \<or> (has_prefix path ''/apis/'' \<and> slashes \<le> 3) then ''discovery''
      else ''resource'')"

definition upstream_RoundTrip :: "string \<Rightarrow> duration \<Rightarrow> (gerr, int) res \<Rightarrow> telemetry \<Rightarrow> (gerr, int) res \<times> telemetry" where
  "upstream_RoundTrip path took response t =
     (let result = (case response of Inl e \<Rightarrow> ''error'' | Inr status \<Rightarrow> if 400 \<le> status then ''error'' else ''ok'') in
      (response, inc ''supek8smcp_upstream_requests_total'' [upstream_stage path, result]
         (observe ''supek8smcp_stage_duration_seconds'' [upstream_stage path] took t)))"

section \<open>Audit lines\<close>

definition auditSchemaVersion :: string where
  "auditSchemaVersion = ''v1''"

record auditTarget =
  tgt_Action :: string
  tgt_APIGroup :: string
  tgt_APIVersion :: string
  tgt_Resource :: string
  tgt_Namespace :: string
  tgt_Name :: string
  tgt_Streaming :: bool

definition no_target :: auditTarget where
  "no_target = \<lparr>tgt_Action = [], tgt_APIGroup = [], tgt_APIVersion = [], tgt_Resource = [], tgt_Namespace = [], tgt_Name = [], tgt_Streaming = False\<rparr>"

definition attr_if :: "string \<Rightarrow> string \<Rightarrow> gmap" where
  "attr_if key text_value = (if text_value \<noteq> [] then [(key, GStr text_value)] else [])"

text \<open>The attributes of the actor: the first 16 digits of the hashed identity, never the token.\<close>

definition actor_attributes :: "(string \<Rightarrow> string) \<Rightarrow> Principal option \<Rightarrow> gmap" where
  "actor_attributes sha caller =
     (case caller of
        None \<Rightarrow> []
      | Some p \<Rightarrow> [(''actor_username'', GStr (pr_Username p)), (''actor_uid'', GStr (pr_UID p)), (''actor_subject'', GStr (take 16 (IdentityKey sha p)))])"

definition target_attributes :: "auditTarget \<Rightarrow> gmap" where
  "target_attributes target =
     attr_if ''action'' (tgt_Action target) @ attr_if ''api_group'' (tgt_APIGroup target) @ attr_if ''api_version'' (tgt_APIVersion target)
     @ attr_if ''resource'' (tgt_Resource target) @ attr_if ''target_namespace'' (tgt_Namespace target) @ attr_if ''target_name'' (tgt_Name target)
     @ (if tgt_Streaming target then [(''streaming'', GBool True)] else [])"

definition emitAudit ::
  "(string \<Rightarrow> string) \<Rightarrow> Config \<Rightarrow> Principal option \<Rightarrow> string \<Rightarrow> string \<Rightarrow> auditTarget \<Rightarrow> string \<Rightarrow> string \<Rightarrow> duration \<Rightarrow> gmap \<Rightarrow> telemetry \<Rightarrow> telemetry" where
  "emitAudit sha cfg caller event tool target decision reason took extra t =
     t\<lparr>tel_log := tel_log t @
       [[(''audit_schema'', GStr auditSchemaVersion), (''event'', GStr event), (''decision'', GStr decision), (''reason'', GStr reason),
         (''server_namespace'', GStr (cfg_Namespace cfg)), (''server_name'', GStr (cfg_Name cfg)), (''mode'', GStr (mode_text (cfg_Mode cfg))),
         (''duration_ms'', GInt64 (quot took 1000000))]
        @ actor_attributes sha caller @ attr_if ''tool'' tool @ target_attributes target @ extra]\<rparr>"

section \<open>Records\<close>

definition recordAuthentication :: "(string \<Rightarrow> string) \<Rightarrow> Config \<Rightarrow> Principal option \<Rightarrow> string \<Rightarrow> string \<Rightarrow> duration \<Rightarrow> telemetry \<Rightarrow> telemetry" where
  "recordAuthentication sha cfg caller decision reason took t =
     emitAudit sha cfg caller ''authentication'' [] no_target decision reason took []
       (inc ''supek8smcp_audit_events_total'' [''authentication'', [], decision, reason]
         (inc ''supek8smcp_authentication_attempts_total'' [decision, reason] t))"

text \<open>The duration is read from the clock twice.\<close>

definition recordTool ::
  "(string \<Rightarrow> string) \<Rightarrow> Config \<Rightarrow> Principal \<Rightarrow> string \<Rightarrow> auditTarget \<Rightarrow> duration \<Rightarrow> duration \<Rightarrow> gerr option \<Rightarrow> telemetry \<Rightarrow> telemetry" where
  "recordTool sha cfg caller tool target took took' err t =
     (case auditOutcome err of (decision, reason) \<Rightarrow>
       let result = (if decision = ''deny'' then ''denied'' else if err \<noteq> None then ''error'' else ''ok'') in
       emitAudit sha cfg (Some caller) ''tool_call'' tool target decision reason took' []
         (inc ''supek8smcp_audit_events_total'' [''tool_call'', tool, decision, reason]
           (observe ''supek8smcp_tool_duration_seconds'' [tool] took
             (inc ''supek8smcp_tool_calls_total'' [tool, result] t))))"

definition recordRateLimit :: "(string \<Rightarrow> string) \<Rightarrow> Config \<Rightarrow> Principal option \<Rightarrow> string \<Rightarrow> duration \<Rightarrow> telemetry \<Rightarrow> telemetry" where
  "recordRateLimit sha cfg caller reason took t =
     emitAudit sha cfg caller ''request'' [] no_target ''deny'' ''rate_limited'' took [(''rate_limit_reason'', GStr reason)]
       (inc ''supek8smcp_audit_events_total'' [''request'', [], ''deny'', ''rate_limited'']
         (inc ''supek8smcp_rate_limit_rejections_total'' [reason] t))"

section \<open>Targets\<close>

definition auditTargetForCapability :: "Config \<Rightarrow> capabilityCodec \<Rightarrow> string \<Rightarrow> string \<Rightarrow> string \<Rightarrow> auditTarget" where
  "auditTargetForCapability cfg handles h_id namespace name =
     (case decode handles h_id of
        Inl _ \<Rightarrow> no_target\<lparr>tgt_Namespace := namespace, tgt_Name := name\<rparr>
      | Inr capability \<Rightarrow>
         \<lparr>tgt_Action = cap_Action capability, tgt_APIGroup = cap_Group capability, tgt_APIVersion = cap_Version capability,
          tgt_Resource = (if cap_Subresource capability \<noteq> [] then cap_Resource capability @ ''/'' @ cap_Subresource capability else cap_Resource capability),
          tgt_Namespace = (if namespace = [] then defaultNamespace cfg capability namespace else namespace), tgt_Name = name, tgt_Streaming = False\<rparr>)"

definition auditTargetForPlan :: "unstructuredOps \<Rightarrow> Config \<Rightarrow> capabilityCodec \<Rightarrow> PlanInput \<Rightarrow> auditTarget" where
  "auditTargetForPlan U cfg handles input =
     auditTargetForCapability cfg handles (pin_CapabilityID input) (pin_Namespace input)
       (if pin_Name input = [] then (case pin_Object input of Some object \<Rightarrow> NestedName U object | None \<Rightarrow> []) else pin_Name input)"

definition stringValue :: "gmap \<Rightarrow> string \<Rightarrow> string" where
  "stringValue kvs key = trim_space (case gfield kvs key of GStr s \<Rightarrow> s | _ \<Rightarrow> [])"

definition auditTargetFromSummary :: "gmap \<Rightarrow> auditTarget" where
  "auditTargetFromSummary summary =
     \<lparr>tgt_Action = stringValue summary ''action'', tgt_APIGroup = stringValue summary ''group'', tgt_APIVersion = stringValue summary ''version'',
      tgt_Resource = stringValue summary ''resource'', tgt_Namespace = stringValue summary ''namespace'', tgt_Name = stringValue summary ''name'',
      tgt_Streaming = False\<rparr>"

section \<open>Lemmas\<close>

lemma telemetry_log [simp]: "tel_log (inc metric labels t) = tel_log t" "tel_log (observe metric labels d t) = tel_log t"
  by (simp_all add: inc_def observe_def)

lemma record_appends:
  "\<exists>line. tel_log (recordAuthentication sha cfg caller decision reason took t) = tel_log t @ [line] \<and>
     mget line ''event'' = Some (GStr ''authentication'') \<and> mget line ''decision'' = Some (GStr decision) \<and> mget line ''reason'' = Some (GStr reason)"
  "\<exists>line. tel_log (recordRateLimit sha cfg caller reason took t) = tel_log t @ [line] \<and>
     mget line ''event'' = Some (GStr ''request'') \<and> mget line ''decision'' = Some (GStr ''deny'') \<and> mget line ''reason'' = Some (GStr ''rate_limited'')"
  "\<exists>line. tel_log (recordTool sha cfg p tool target took took' err t) = tel_log t @ [line] \<and>
     mget line ''event'' = Some (GStr ''tool_call'') \<and> mget line ''decision'' = Some (GStr (fst (auditOutcome err))) \<and>
     mget line ''reason'' = Some (GStr (snd (auditOutcome err)))"
  by (auto simp: recordAuthentication_def recordRateLimit_def recordTool_def emitAudit_def mget_def Let_def split: prod.splits)

end
