(* ===== verification/Manual.thy ===== *)
theory Manual
  imports Server_Config
begin

text \<open>
  The built-in manual (\<open>internal/server/manual.go\<close>): the static guides of the tools and the \<open>k8s.help\<close> tool that serves them.
\<close>

section \<open>Names and types\<close>

definition toolHelp :: string where
  "toolHelp = ''k8s.help''"

definition toolSearch :: string where
  "toolSearch = ''k8s.search''"

definition toolDescribe :: string where
  "toolDescribe = ''k8s.describe''"

definition toolRead :: string where
  "toolRead = ''k8s.read''"

definition toolPlan :: string where
  "toolPlan = ''k8s.plan''"

definition toolCommit :: string where
  "toolCommit = ''k8s.commit''"

lemmas tool_names = toolHelp_def toolSearch_def toolDescribe_def toolRead_def toolPlan_def toolCommit_def

record ToolManualInput =
  inp_Name :: string
  inp_Required :: bool
  inp_Description :: string

record ToolManual =
  man_Name :: string
  man_Purpose :: string
  man_Available :: bool
  man_Modes :: "AccessMode list"
  man_Inputs :: "ToolManualInput list"
  man_Steps :: "string list"
  man_Returns :: "string list"
  man_Safety :: "string list"
  man_Example :: gmap

record ToolManualSummary =
  sum_Name :: string
  sum_Purpose :: string
  sum_Available :: bool
  sum_DetailsRequest :: "(string \<times> string) list"

record HelpOutput =
  help_Mode :: AccessMode
  help_Usage :: string
  help_Workflow :: "string list"
  help_Tools :: "ToolManualSummary list"
  help_Manual :: "ToolManual option"

definition allAccessModes :: "AccessMode list" where
  "allAccessModes = [ModeReadOnly, ModeSafeWrite, ModeDangerous]"

definition writeAccessModes :: "AccessMode list" where
  "writeAccessModes = [ModeSafeWrite, ModeDangerous]"

section \<open>The guides\<close>

definition toolManuals :: "ToolManual list" where
  "toolManuals =
    [
     \<lparr>man_Name = toolHelp, man_Purpose = ''Load this built-in manual as a compact index or one detailed tool guide.'',
      man_Available = False, man_Modes = allAccessModes,
      man_Inputs =
       [\<lparr>inp_Name = ''tool'', inp_Required = False, inp_Description = ''Exact tool name from the index. Omit it to list the manual topics.''\<rparr>],
      man_Steps =
       [''Call without arguments to get a compact index and current-mode availability.'',
        ''Call again with one exact tool name to load only that detailed guide.''],
      man_Returns =
       [''The current server mode and either the compact index or one detailed manual.''],
      man_Safety =
       [''The manual is static and does not access the Kubernetes API, but the MCP request still requires Kubernetes bearer authentication.''],
      man_Example = [(''tool'', GStr toolRead)]\<rparr>,
     \<lparr>man_Name = toolSearch, man_Purpose = ''Discover short-lived Kubernetes capability handles allowed by server policy and the caller's Kubernetes RBAC.'',
      man_Available = False, man_Modes = allAccessModes,
      man_Inputs =
       [\<lparr>inp_Name = ''query'', inp_Required = False, inp_Description = ''Optional kind, resource, API group, category, or action text.''\<rparr>,
        \<lparr>inp_Name = ''action'', inp_Required = False, inp_Description = ''Optional exact logical action or Kubernetes verb filter.''\<rparr>,
        \<lparr>inp_Name = ''exactKind'', inp_Required = False, inp_Description = ''Optional exact kind filter, for example Pod.''\<rparr>,
        \<lparr>inp_Name = ''exactResource'', inp_Required = False, inp_Description = ''Optional exact plural resource or resource/subresource filter, for example pods or pods/log.''\<rparr>,
        \<lparr>inp_Name = ''apiGroup'', inp_Required = False, inp_Description = ''Optional exact API group; use core for the core API group.''\<rparr>,
        \<lparr>inp_Name = ''version'', inp_Required = False, inp_Description = ''Optional exact API version, for example v1.''\<rparr>,
        \<lparr>inp_Name = ''namespace'', inp_Required = False, inp_Description = ''Namespace used for scope and RBAC filtering.''\<rparr>,
        \<lparr>inp_Name = ''name'', inp_Required = False, inp_Description = ''Optional resource name; supply it when the Kubernetes Role limits access with resourceNames.''\<rparr>,
        \<lparr>inp_Name = ''cursor'', inp_Required = False, inp_Description = ''Opaque nextCursor from the previous search response.''\<rparr>,
        \<lparr>inp_Name = ''limit'', inp_Required = False, inp_Description = ''Maximum results for this page, bounded by server limits.''\<rparr>],
      man_Steps =
       [''Search before every describe, read, or plan workflow.'',
        ''Choose a capability whose action matches the intended operation.'',
        ''Pass its capability id unchanged to the next tool and follow nextCursor when present.''],
      man_Returns =
       [''Authorized capability summaries with compact opaque cap_ handles and an optional nextCursor.''],
      man_Safety =
       [''Results are already intersected with mode, scope, policy, and Kubernetes RBAC.'',
        ''A missing capability can mean insufficient policy or RBAC; it does not prove the Kubernetes resource is absent.''],
      man_Example = [(''exactKind'', GStr ''Deployment''), (''exactResource'', GStr ''deployments''), (''apiGroup'', GStr ''apps''), (''version'', GStr ''v1''), (''action'', GStr ''get''), (''namespace'', GStr ''platform''), (''limit'', GInt 20)]\<rparr>,
     \<lparr>man_Name = toolDescribe, man_Purpose = ''Load a bounded OpenAPI v3 schema fragment for one capability.'',
      man_Available = False, man_Modes = allAccessModes,
      man_Inputs =
       [\<lparr>inp_Name = ''capabilityId'', inp_Required = True, inp_Description = ''Opaque cap_ handle returned by k8s.search.''\<rparr>,
        \<lparr>inp_Name = ''namespace'', inp_Required = False, inp_Description = ''Namespace used for authorization; defaults to the first configured scope when applicable.''\<rparr>,
        \<lparr>inp_Name = ''name'', inp_Required = False, inp_Description = ''Optional resource name used for authorization.''\<rparr>,
        \<lparr>inp_Name = ''fieldPath'', inp_Required = False, inp_Description = ''Optional dot-separated field path such as spec.template.spec.''\<rparr>,
        \<lparr>inp_Name = ''depth'', inp_Required = False, inp_Description = ''Schema expansion depth from 1 to 6; defaults to 2.''\<rparr>],
      man_Steps =
       [''Obtain the capability from k8s.search.'',
        ''Start with a shallow schema and request a fieldPath or greater depth only when needed.''],
      man_Returns =
       [''The selected capability and a bounded schema fragment, or an explicit unavailable marker when no structural schema exists.''],
      man_Safety =
       [''Describe performs policy and Kubernetes authorization checks but does not read or mutate a resource instance.'',
        ''fieldPath resolves local $ref, allOf, oneOf, and anyOf branches before expansion; schema expansion is capped at 10,000 nodes and reports truncation when the budget is reached.''],
      man_Example = [(''capabilityId'', GStr ''<from-k8s.search>''), (''namespace'', GStr ''platform''), (''fieldPath'', GStr ''spec.template.spec''), (''depth'', GInt 2)]\<rparr>,
     \<lparr>man_Name = toolRead, man_Purpose = ''Execute one authorized get, list, watch, or Pod logs capability.'',
      man_Available = False, man_Modes = allAccessModes,
      man_Inputs =
       [\<lparr>inp_Name = ''capabilityId'', inp_Required = True, inp_Description = ''Read capability id returned by k8s.search.''\<rparr>,
        \<lparr>inp_Name = ''namespace'', inp_Required = False, inp_Description = ''Target namespace for namespaced resources.''\<rparr>,
        \<lparr>inp_Name = ''name'', inp_Required = False, inp_Description = ''Required for get and Pod logs; for list/watch it is also used to satisfy resourceNames-restricted Roles.''\<rparr>,
        \<lparr>inp_Name = ''labelSelector'', inp_Required = False, inp_Description = ''Kubernetes label selector for list or watch.''\<rparr>,
        \<lparr>inp_Name = ''fieldSelector'', inp_Required = False, inp_Description = ''Kubernetes field selector for list or watch.''\<rparr>,
        \<lparr>inp_Name = ''cursor'', inp_Required = False, inp_Description = ''Kubernetes continue token returned by a previous list.''\<rparr>,
        \<lparr>inp_Name = ''resourceVersion'', inp_Required = False, inp_Description = ''Resource version from a list or prior watch response used to resume a watch without an event gap.''\<rparr>,
        \<lparr>inp_Name = ''limit'', inp_Required = False, inp_Description = ''Requested list page size; the effective Kubernetes page is also capped at 8 items.''\<rparr>,
        \<lparr>inp_Name = ''outputMode'', inp_Required = False, inp_Description = ''summary, table, or full. List and watch default to summary; get defaults to full.''\<rparr>,
        \<lparr>inp_Name = ''omitManagedFields'', inp_Required = False, inp_Description = ''Defaults to true; explicitly set false only when metadata.managedFields is required.''\<rparr>,
        \<lparr>inp_Name = ''omitAnnotations'', inp_Required = False, inp_Description = ''Defaults to true; explicitly set false only when annotations are required. Credential-like annotation content is still redacted.''\<rparr>,
        \<lparr>inp_Name = ''fieldPaths'', inp_Required = False, inp_Description = ''Optional object-relative dot paths projected from one object or every list item; incompatible with table mode.''\<rparr>,
        \<lparr>inp_Name = ''follow'', inp_Required = False, inp_Description = ''Stream Pod logs when true; this requires Dangerous mode.''\<rparr>,
        \<lparr>inp_Name = ''container'', inp_Required = False, inp_Description = ''Container name for Pod logs; when omitted, get permission on the Pod is required to select its default-container annotation or first regular container.''\<rparr>,
        \<lparr>inp_Name = ''tailLines'', inp_Required = False, inp_Description = ''Optional number of recent log lines.''\<rparr>,
        \<lparr>inp_Name = ''sinceSeconds'', inp_Required = False, inp_Description = ''Optional relative Pod log start time.''\<rparr>],
      man_Steps =
       [''Search for the exact get, list, watch, or logs capability.'',
        ''Supply the namespace and action-specific filters or name.'',
        ''Use summary or table for normal list inspection; request full or fieldPaths only when the compact result is insufficient.'',
        ''Use returned list cursors instead of increasing limits; resume later watches from the returned resourceVersion.''],
      man_Returns =
       [''A bounded compact summary/table, projected or full Kubernetes object/list, watch events, or Pod log lines.''],
      man_Safety =
       [''Secret output follows sensitiveReads policy and is redacted by default.'',
        ''For list/watch with name, the server adds a matching metadata.name field selector and rejects a conflicting selector.'',
        ''annotations and managedFields are omitted recursively by default; credential-like annotations are redacted even when annotations are explicitly requested.'',
        ''follow=true is available only in Dangerous mode and remains bounded by streamTimeout, maxListItems, and maxOutputBytes.''],
      man_Example = [(''capabilityId'', GStr ''<list-capability-from-k8s.search>''), (''namespace'', GStr ''platform''), (''outputMode'', GStr ''table''), (''limit'', GInt 8)]\<rparr>,
     \<lparr>man_Name = toolPlan, man_Purpose = ''Authorize and preview one write, scale, restart, exec, or attach operation without committing it.'',
      man_Available = False, man_Modes = writeAccessModes,
      man_Inputs =
       [\<lparr>inp_Name = ''capabilityId'', inp_Required = True, inp_Description = ''Write capability id returned by k8s.search.''\<rparr>,
        \<lparr>inp_Name = ''namespace'', inp_Required = False, inp_Description = ''Target namespace for namespaced resources.''\<rparr>,
        \<lparr>inp_Name = ''name'', inp_Required = False, inp_Description = ''Existing target name; create may take it from object.metadata.name.''\<rparr>,
        \<lparr>inp_Name = ''object'', inp_Required = False, inp_Description = ''Complete Kubernetes object for create, update, or server-side apply.''\<rparr>,
        \<lparr>inp_Name = ''patch'', inp_Required = False, inp_Description = ''Merge object or JSON Patch array for a patch capability.''\<rparr>,
        \<lparr>inp_Name = ''patchType'', inp_Required = False, inp_Description = ''merge or json; defaults to merge.''\<rparr>,
        \<lparr>inp_Name = ''replicas'', inp_Required = False, inp_Description = ''Desired replica count for scale.''\<rparr>,
        \<lparr>inp_Name = ''command'', inp_Required = False, inp_Description = ''Bounded command for Dangerous exec.''\<rparr>,
        \<lparr>inp_Name = ''container'', inp_Required = False, inp_Description = ''Container for exec or attach; when omitted, the default-container annotation or first regular container is selected during planning.''\<rparr>,
        \<lparr>inp_Name = ''stdin'', inp_Required = False, inp_Description = ''Bounded stdin for Dangerous attach.''\<rparr>,
        \<lparr>inp_Name = ''timeoutSeconds'', inp_Required = False, inp_Description = ''Requested exec or attach timeout, capped by server policy.''\<rparr>,
        \<lparr>inp_Name = ''gracePeriodSeconds'', inp_Required = False, inp_Description = ''Optional grace period for delete.''\<rparr>,
        \<lparr>inp_Name = ''force'', inp_Required = False, inp_Description = ''Force server-side apply; Dangerous mode only.''\<rparr>],
      man_Steps =
       [''Search for the exact write capability and inspect its schema when constructing an object.'',
        ''Call plan once and review operation, preview, and warnings.'',
        ''Show the preview and confirmation code to the human, then stop all write-tool calls.'',
        ''Wait until the human repeats the code in a later user message; never copy the code from this tool response directly into k8s.commit.''],
      man_Returns =
       [''A one-time planId, expiry, safe operation summary, bounded preview, warnings, and a six-digit human confirmation challenge.''],
      man_Safety =
       [''Plan does not persist the requested change; Kubernetes dry-run and policy checks still apply.'',
        ''Write capabilities require get permission on the base resource because planning and commit preconditions read the target before mutation.'',
        ''SafeWrite blocks dangerous actions and unsafe payloads; exec, attach, delete, force apply, and cluster writes require Dangerous mode and explicit policy scope.'',
        ''Do not log, cache, share, or retry a planId as though it were idempotent.'',
        ''The model can see the code, so this workflow depends on model compliance and is not cryptographic proof of human approval.''],
      man_Example = [(''capabilityId'', GStr ''<patch-capability-from-k8s.search>''), (''namespace'', GStr ''platform''), (''name'', GStr ''web''), (''patchType'', GStr ''merge''), (''patch'', GObj [(''metadata'', GObj [(''labels'', GObj [(''managed-by'', GStr ''mcp'')])])])]\<rparr>,
     \<lparr>man_Name = toolCommit, man_Purpose = ''Consume one unexpired plan and execute it after rechecking identity, policy, RBAC, and resource preconditions.'',
      man_Available = False, man_Modes = writeAccessModes,
      man_Inputs =
       [\<lparr>inp_Name = ''planId'', inp_Required = True, inp_Description = ''One-time id returned by k8s.plan.''\<rparr>,
        \<lparr>inp_Name = ''confirmationCode'', inp_Required = True, inp_Description = ''Exact six-digit code repeated by the human in a later user message.''\<rparr>],
      man_Steps =
       [''Review the k8s.plan response before committing.'',
        ''Do not call this tool until the human repeats the plan's code in a later user message.'',
        ''Commit once, within two minutes, with that code and the same authenticated Kubernetes identity.'',
        ''If commit is rejected or the target changed, search and create a new plan instead of replaying the old id.''],
      man_Returns =
       [''A safe operation summary and bounded execution result.''],
      man_Safety =
       [''Commit can persist a mutation or run Dangerous exec/attach; treat it as the execution boundary.'',
        ''Plans and confirmation codes are one-time and identity-bound. Policy, RBAC, generation, UID, and resourceVersion preconditions are rechecked.'',
        ''A missing code is rejected; malformed codes do not count as attempts, while five well-formed incorrect codes invalidate the plan.'',
        ''Because the model receives the code, server-side verification cannot prove that a human supplied it; use an external approval gateway when strong separation of duties is required.''],
      man_Example = [(''planId'', GStr ''<from-k8s.plan>''), (''confirmationCode'', GStr ''<repeated-by-human>'')]\<rparr>
    ]"

section \<open>Help\<close>

definition manualAvailable :: "ToolManual \<Rightarrow> AccessMode \<Rightarrow> bool" where
  "manualAvailable manual mode = list_ex (\<lambda>allowed. allowed = mode) (man_Modes manual)"

definition help_index :: "AccessMode \<Rightarrow> HelpOutput" where
  "help_index mode =
     \<lparr>help_Mode = mode,
      help_Usage = ''Call k8s.help again with one detailsRequest to load only that guide. available reflects the current server mode.'',
      help_Workflow =
        [''Discover an authorized capability with k8s.search.'',
         ''Use k8s.describe only when schema detail is needed.'',
         ''Use k8s.read for reads, or k8s.plan then k8s.commit for writes.''],
      help_Tools = map (\<lambda>manual. \<lparr>sum_Name = man_Name manual, sum_Purpose = man_Purpose manual, sum_Available = manualAvailable manual mode,
        sum_DetailsRequest = [(''tool'', man_Name manual)]\<rparr>) toolManuals,
      help_Manual = None\<rparr>"

text \<open>\<open>help\<close> of the \<open>App\<close>: the index, or the first guide with the requested name.\<close>

definition app_help :: "Config \<Rightarrow> string \<Rightarrow> (gerr, HelpOutput) res" where
  "app_help cfg tool =
     (let requested = trim_space tool in
      if requested = [] then Inr (help_index (cfg_Mode cfg))
      else (case find (\<lambda>manual. man_Name manual = requested) toolManuals of
        Some manual \<Rightarrow>
          Inr \<lparr>help_Mode = cfg_Mode cfg,
               help_Usage = ''Use the manual fields as guidance, then call the named tool with an action-appropriate capability.'',
               help_Workflow = [], help_Tools = [], help_Manual = Some (manual\<lparr>man_Available := manualAvailable manual (cfg_Mode cfg)\<rparr>)\<rparr>
      | None \<Rightarrow> Inl (policyError ''invalid_input'' ''tool must be an exact supported name from the k8s.help index'')))"

section \<open>Lemmas\<close>

lemma manual_names: "map man_Name toolManuals = [toolHelp, toolSearch, toolDescribe, toolRead, toolPlan, toolCommit]"
  by (simp add: toolManuals_def)

lemma manual_modes: "map (\<lambda>manual. (man_Name manual, man_Modes manual)) toolManuals =
    [(toolHelp, allAccessModes), (toolSearch, allAccessModes), (toolDescribe, allAccessModes), (toolRead, allAccessModes),
     (toolPlan, writeAccessModes), (toolCommit, writeAccessModes)]"
  by (simp add: toolManuals_def)

lemma manual_distinct: "distinct (map man_Name toolManuals)"
  unfolding manual_names by (simp add: tool_names)

end
