(* ===== verification/Tools.thy ===== *)
theory Tools
  imports Audit_Log Manual Reads
begin

text \<open>
  The tools of the server (\<open>newMCPServer\<close> and \<open>decodeCommitInput\<close> in \<open>internal/server/run.go\<close>): which ones a mode registers, the handlers around the
  operations, and the audit record each call leaves.

  The state is the part of the \<open>App\<close> that tools change. The codec of the catalog and the one of the server are the same object, so handles are looked up in the
  codec of the catalog. The clients are those of the caller.
\<close>

section \<open>State and inputs\<close>

record 'w app =
  ap_plans :: PlanStore
  ap_admission :: "requestAdmission option"
  ap_catalog :: catalogCache
  ap_schemas :: schemaCache
  ap_tel :: telemetry
  ap_world :: 'w

record 'w clients =
  cl_catalog :: "'w catalogApi"
  cl_authz :: "'w authzApi"
  cl_schema :: "'w schemaApi"
  cl_read :: "'w readApi"
  cl_kube :: "'w kube"

text \<open>What is fixed for a server, and what the environment delivers to one call.\<close>

record 'f toolbox =
  tb_cfg :: Config
  tb_sha :: "string \<Rightarrow> string"
  tb_sign :: "string \<Rightarrow> string"
  tb_versions :: groupVersions
  tb_fields :: "'f fieldOps"
  tb_objects :: unstructuredOps

record callEnv =
  ce_env :: environment
  ce_read :: readEnv
  ce_took :: duration
  ce_took' :: duration

text \<open>
  The arguments of \<open>k8s.commit\<close>: nothing, a text that is no JSON, or a decoded JSON value. The fields of an object come in the order of the text, repeated keys included.
\<close>

datatype commitArguments = NoArguments | NotJSON | NullArguments | ObjectArguments gmap | OtherArguments

datatype toolInput =
    HelpCall string
  | SearchCall SearchInput
  | DescribeCall DescribeInput
  | ReadCall ReadInput
  | PlanCall PlanInput
  | CommitCall commitArguments

datatype toolOutput =
    HelpResult HelpOutput
  | SearchResult "Capability list" string
  | DescribeResult Capability gval
  | ReadResult gmap "string list"
  | PlanResult PlanOutput
  | CommitResult CommitOutput

section \<open>Commit arguments\<close>

text \<open>
  \<open>json.Unmarshal\<close> into \<open>CommitInput\<close>: keys match without regard to case, later fields overwrite earlier ones, null leaves the field, and the first
  field with a value of another type is reported at the end.
\<close>

definition set_commit_field :: "string \<times> gval \<Rightarrow> CommitInput \<times> string option \<Rightarrow> CommitInput \<times> string option" where
  "set_commit_field = (\<lambda>(key, v) (input, bad).
     if equal_fold key ''planId'' then
       (case v of GStr s \<Rightarrow> (input\<lparr>cin_PlanID := s\<rparr>, bad) | GNil \<Rightarrow> (input, bad) | _ \<Rightarrow> (input, if bad = None then Some ''planId'' else bad))
     else if equal_fold key ''confirmationCode'' then
       (case v of GStr s \<Rightarrow> (input\<lparr>cin_ConfirmationCode := s\<rparr>, bad) | GNil \<Rightarrow> (input, bad)
        | _ \<Rightarrow> (input, if bad = None then Some ''confirmationCode'' else bad))
     else (input, bad))"

definition invalid_arguments :: gerr where
  "invalid_arguments = policyError ''invalid_input'' ''k8s.commit arguments must match the published schema''"

definition invalid_code :: gerr where
  "invalid_code = policyError ''invalid_confirmation'' ''confirmation code must be exactly six digits''"

text \<open>The map that the arguments decode to keeps the last of repeated keys.\<close>

definition decodeCommitInput :: "commitArguments \<Rightarrow> (gerr, CommitInput) res" where
  "decodeCommitInput arguments =
     (let none = \<lparr>cin_PlanID = [], cin_ConfirmationCode = []\<rparr> in
      case arguments of
        NoArguments \<Rightarrow> Inr none
      | NotJSON \<Rightarrow> Inl invalid_arguments
      | OtherArguments \<Rightarrow> Inl invalid_arguments
      | NullArguments \<Rightarrow> Inr none
      | ObjectArguments kvs \<Rightarrow>
         (case fold set_commit_field kvs (none, None) of
            (input, Some field) \<Rightarrow> Inl (if field = ''confirmationCode'' then invalid_code else invalid_arguments)
          | (input, None) \<Rightarrow>
             (case map_of (rev kvs) ''confirmationCode'' of
                None \<Rightarrow> Inr input
              | Some v \<Rightarrow>
                 let code = (case v of GStr s \<Rightarrow> s | _ \<Rightarrow> []) in
                 if validConfirmationCode code then Inr input else Inl invalid_code)))"

section \<open>Handlers\<close>

definition record_call ::
  "'f toolbox \<Rightarrow> callEnv \<Rightarrow> Principal \<Rightarrow> string \<Rightarrow> auditTarget \<Rightarrow> gerr option \<Rightarrow> 'w app \<Rightarrow> 'w app" where
  "record_call T E caller tool target err s =
     s\<lparr>ap_tel := recordTool (tb_sha T) (tb_cfg T) caller tool target (ce_took E) (ce_took' E) err (ap_tel s)\<rparr>"

definition help_tool :: "'f toolbox \<Rightarrow> callEnv \<Rightarrow> Principal \<Rightarrow> string \<Rightarrow> 'w app \<Rightarrow> (gerr, toolOutput) res \<times> 'w app" where
  "help_tool T E caller input s =
     (let r = app_help (tb_cfg T) input
      in (bindR r (\<lambda>out. Inr (HelpResult out)), record_call T E caller toolHelp no_target (err_of r) s))"

text \<open>A search waits (\<open>None\<close>) while another request refreshes the catalog.\<close>

definition search_tool :: "'f toolbox \<Rightarrow> callEnv \<Rightarrow> 'w clients \<Rightarrow> Principal \<Rightarrow> SearchInput \<Rightarrow> 'w app \<Rightarrow> ((gerr, toolOutput) res \<times> 'w app) option" where
  "search_tool T E cl caller input s =
     (case search (tb_sha T) (tb_sign T) (tb_versions T) (tb_cfg T) (cl_catalog cl) (cl_authz cl) (env_now (ce_env E)) (env_later (ce_env E)) input (ap_catalog s, ap_world s) of
        None \<Rightarrow> None
      | Some (r, (c, w)) \<Rightarrow>
         Some (bindR r (\<lambda>(found, next_cursor). Inr (SearchResult found next_cursor)),
               record_call T E caller toolSearch no_target (err_of r) (s\<lparr>ap_catalog := c, ap_world := w\<rparr>)))"

definition describe_tool :: "'f toolbox \<Rightarrow> callEnv \<Rightarrow> 'w clients \<Rightarrow> Principal \<Rightarrow> DescribeInput \<Rightarrow> 'w app \<Rightarrow> (gerr, toolOutput) res \<times> 'w app" where
  "describe_tool T E cl caller input s =
     (case describe (tb_sha T) (tb_cfg T) (cl_authz cl) (cl_schema cl) (env_now (ce_env E)) (env_later (ce_env E)) caller (cc_codec (ap_catalog s)) input
           (ap_schemas s, ap_world s) of (r, (c, w)) \<Rightarrow>
        (bindR r (\<lambda>(capability, schema). Inr (DescribeResult capability schema)),
         record_call T E caller toolDescribe
           (auditTargetForCapability (tb_cfg T) (cc_codec (ap_catalog s)) (di_CapabilityID input) (di_Namespace input) (di_Name input))
           (err_of r) (s\<lparr>ap_schemas := c, ap_world := w\<rparr>)))"

definition read_tool :: "'f toolbox \<Rightarrow> callEnv \<Rightarrow> 'w clients \<Rightarrow> Principal \<Rightarrow> ReadInput \<Rightarrow> 'w app \<Rightarrow> (gerr, toolOutput) res \<times> 'w app" where
  "read_tool T E cl caller input s =
     (case read (tb_sha T) (tb_fields T) (ce_read E) (tb_cfg T) (cl_read cl) (cc_codec (ap_catalog s)) input (ap_admission s, ap_world s) of (r, (adm, w)) \<Rightarrow>
        let target = auditTargetForCapability (tb_cfg T) (cc_codec (ap_catalog s)) (ri_CapabilityID input) (ri_Namespace input) (ri_Name input) in
        (bindR r (\<lambda>(out, notes). Inr (ReadResult out notes)),
         record_call T E caller toolRead (target\<lparr>tgt_Streaming := ri_Follow input \<or> tgt_Action target = ''watch''\<rparr>)
           (err_of r) (s\<lparr>ap_admission := adm, ap_world := w\<rparr>)))"

definition write_state :: "'w app \<Rightarrow> 'w appState" where
  "write_state s = \<lparr>st_plans = ap_plans s, st_admission = ap_admission s, st_world = ap_world s\<rparr>"

definition put_write_state :: "'w appState \<Rightarrow> 'w app \<Rightarrow> 'w app" where
  "put_write_state t s = s\<lparr>ap_plans := st_plans t, ap_admission := st_admission t, ap_world := st_world t\<rparr>"

definition plan_tool :: "'f toolbox \<Rightarrow> callEnv \<Rightarrow> 'w clients \<Rightarrow> Principal \<Rightarrow> PlanInput \<Rightarrow> 'w app \<Rightarrow> (gerr, toolOutput) res \<times> 'w app" where
  "plan_tool T E cl caller input s =
     (case plan (ce_env E) (tb_objects T) (tb_cfg T) (cc_codec (ap_catalog s)) (cl_kube cl) (SubjectKey (tb_sha T) caller) input (write_state s) of (r, t) \<Rightarrow>
        let planned = auditTargetFromSummary (case r of Inr out \<Rightarrow> po_Operation out | Inl e \<Rightarrow> []);
            target = (if tgt_Action planned = [] then auditTargetForPlan (tb_objects T) (tb_cfg T) (cc_codec (ap_catalog s)) input else planned) in
        (bindR r (\<lambda>out. Inr (PlanResult out)), record_call T E caller toolPlan target (err_of r) (put_write_state t s)))"

definition commit_tool :: "'f toolbox \<Rightarrow> callEnv \<Rightarrow> 'w clients \<Rightarrow> Principal \<Rightarrow> commitArguments \<Rightarrow> 'w app \<Rightarrow> (gerr, toolOutput) res \<times> 'w app" where
  "commit_tool T E cl caller arguments s =
     (case decodeCommitInput arguments of
        Inl e \<Rightarrow> (Inl e, record_call T E caller toolCommit no_target (Some e) s)
      | Inr input \<Rightarrow>
         (case commit (ce_env E) (tb_objects T) (tb_cfg T) (cl_kube cl) (SubjectKey (tb_sha T) caller) input (write_state s) of ((out, err), t) \<Rightarrow>
            let target = auditTargetFromSummary (co_Operation out) in
            (case err of Some e \<Rightarrow> Inl e | None \<Rightarrow> Inr (CommitResult out),
             record_call T E caller toolCommit (target\<lparr>tgt_Streaming := tgt_Action target = ''exec'' \<or> tgt_Action target = ''attach''\<rparr>)
               err (put_write_state t s))))"

section \<open>Registration and dispatch\<close>

definition registered_tools :: "Config \<Rightarrow> string list" where
  "registered_tools cfg = [toolHelp, toolSearch, toolDescribe, toolRead] @ (if cfg_Mode cfg \<noteq> ModeReadOnly then [toolPlan, toolCommit] else [])"

definition tool_name :: "toolInput \<Rightarrow> string" where
  "tool_name input = (case input of HelpCall _ \<Rightarrow> toolHelp | SearchCall _ \<Rightarrow> toolSearch | DescribeCall _ \<Rightarrow> toolDescribe | ReadCall _ \<Rightarrow> toolRead
     | PlanCall _ \<Rightarrow> toolPlan | CommitCall _ \<Rightarrow> toolCommit)"

datatype 'w callOutcome = NotRegistered | StillWaiting | Finished "(gerr, toolOutput) res" "'w app"

text \<open>The MCP library calls the handler that is registered under a name, and none for another name.\<close>

definition call_tool :: "'f toolbox \<Rightarrow> callEnv \<Rightarrow> 'w clients \<Rightarrow> Principal \<Rightarrow> toolInput \<Rightarrow> 'w app \<Rightarrow> 'w callOutcome" where
  "call_tool T E cl caller input s =
     (if tool_name input \<notin> set (registered_tools (tb_cfg T)) then NotRegistered
      else (case input of
         HelpCall topic \<Rightarrow> (case help_tool T E caller topic s of (r, s') \<Rightarrow> Finished r s')
       | SearchCall x \<Rightarrow> (case search_tool T E cl caller x s of None \<Rightarrow> StillWaiting | Some (r, s') \<Rightarrow> Finished r s')
       | DescribeCall x \<Rightarrow> (case describe_tool T E cl caller x s of (r, s') \<Rightarrow> Finished r s')
       | ReadCall x \<Rightarrow> (case read_tool T E cl caller x s of (r, s') \<Rightarrow> Finished r s')
       | PlanCall x \<Rightarrow> (case plan_tool T E cl caller x s of (r, s') \<Rightarrow> Finished r s')
       | CommitCall x \<Rightarrow> (case commit_tool T E cl caller x s of (r, s') \<Rightarrow> Finished r s')))"

section \<open>Lemmas\<close>

lemma mget_append: "mget (xs @ ys) key = (case mget xs key of Some v \<Rightarrow> Some v | None \<Rightarrow> mget ys key)"
  by (auto simp: mget_def map_add_def split: option.splits)

lemma mget_attr_if: "mget (attr_if key v) key' = (if key = key' \<and> v \<noteq> [] then Some (GStr v) else None)"
  by (simp add: attr_if_def mget_def)

lemma recordTool_line:
  "\<exists>line. tel_log (recordTool sha cfg caller tool target took took' err t) = tel_log t @ [line] \<and>
     mget line ''event'' = Some (GStr ''tool_call'') \<and> mget line ''decision'' = Some (GStr (fst (auditOutcome err))) \<and>
     mget line ''reason'' = Some (GStr (snd (auditOutcome err))) \<and> mget line ''actor_username'' = Some (GStr (pr_Username caller)) \<and>
     (tool \<noteq> [] \<longrightarrow> mget line ''tool'' = Some (GStr tool)) \<and>
     (tgt_Action target \<noteq> [] \<longrightarrow> mget line ''action'' = Some (GStr (tgt_Action target))) \<and>
     (tgt_Resource target \<noteq> [] \<longrightarrow> mget line ''resource'' = Some (GStr (tgt_Resource target))) \<and>
     (tgt_Namespace target \<noteq> [] \<longrightarrow> mget line ''target_namespace'' = Some (GStr (tgt_Namespace target))) \<and>
     (tgt_Name target \<noteq> [] \<longrightarrow> mget line ''target_name'' = Some (GStr (tgt_Name target)))"
proof -
  have pair: "mget [(k, v)] k' = (if k = k' then Some v else None)" for k k' :: string and v :: gval by (simp add: mget_def)
  have cons: "mget ((k, v) # kvs) k' = (if k = k' then Some v else mget kvs k')" for k k' :: string and v :: gval and kvs by (simp add: mget_def)
  show ?thesis
    by (simp add: recordTool_def emitAudit_def actor_attributes_def target_attributes_def Let_def case_prod_unfold mget_append mget_attr_if cons)
qed

lemma err_of_map [simp]: "err_of (bindR r (\<lambda>x. Inr (f x))) = err_of r" "err_of (bindR r2 (\<lambda>(x, y). Inr (g x y))) = err_of r2"
  by (cases r; simp) (cases r2; auto)

lemma bindR_Inr_eq: "(bindR r (\<lambda>x. Inr (f x)) = Inr y) = (\<exists>x. r = Inr x \<and> y = f x)"
  by (cases r) auto

lemma tool_names_nonempty [simp]: "toolHelp \<noteq> []" "toolSearch \<noteq> []" "toolDescribe \<noteq> []" "toolRead \<noteq> []" "toolPlan \<noteq> []" "toolCommit \<noteq> []"
  by (simp_all add: tool_names)

lemma find_distinct: "distinct (map f xs) \<Longrightarrow> x \<in> set xs \<Longrightarrow> find (\<lambda>y. f y = f x) xs = Some x"
  by (induction xs) (auto simp: rev_image_eqI)

lemma tool_names_trimmed: "list_all (\<lambda>name. trim_space name = name) [toolHelp, toolSearch, toolDescribe, toolRead, toolPlan, toolCommit]"
  by code_simp

text \<open>The audit target of a call, and what every handler does to the telemetry.\<close>

lemma call_tool_records:
  assumes "call_tool T E cl caller input s = Finished r s'"
  shows "\<exists>target. ap_tel s' = recordTool (tb_sha T) (tb_cfg T) caller (tool_name input) target (ce_took E) (ce_took' E) (err_of r) (ap_tel s) \<and>
    (\<forall>out. r = Inr (CommitResult out) \<longrightarrow> (\<exists>str. target = (auditTargetFromSummary (co_Operation out))\<lparr>tgt_Streaming := str\<rparr>)) \<and>
    (\<forall>out. r = Inr (PlanResult out) \<longrightarrow> tgt_Action (auditTargetFromSummary (po_Operation out)) \<noteq> [] \<longrightarrow> target = auditTargetFromSummary (po_Operation out))"
proof (cases input)
  case (HelpCall topic)
  then show ?thesis using assms
    by (auto simp: call_tool_def help_tool_def record_call_def tool_name_def Let_def bindR_Inr_eq split: if_splits)
next
  case (SearchCall x)
  then show ?thesis using assms
    by (auto simp: call_tool_def search_tool_def record_call_def tool_name_def Let_def bindR_Inr_iff split: if_splits option.splits prod.splits)
next
  case (DescribeCall x)
  then show ?thesis using assms
    by (auto simp: call_tool_def describe_tool_def record_call_def tool_name_def Let_def bindR_Inr_iff split: if_splits prod.splits)
next
  case (ReadCall x)
  then show ?thesis using assms
    by (auto simp: call_tool_def read_tool_def record_call_def tool_name_def Let_def bindR_Inr_iff split: if_splits prod.splits)
next
  case (PlanCall x)
  then show ?thesis using assms
    by (auto simp: call_tool_def plan_tool_def record_call_def put_write_state_def tool_name_def Let_def bindR_Inr_eq split: if_splits prod.splits)
next
  case (CommitCall x)
  then show ?thesis using assms
    by (auto simp: call_tool_def commit_tool_def record_call_def put_write_state_def tool_name_def Let_def
        split: if_splits prod.splits sum.splits option.splits)
qed

section \<open>Properties\<close>


text \<open>
  Property C21 (a read-only server cannot write). In the mode ReadOnly no tool call uses the client that plans and commits write with, whatever
  that client does, and no call changes the stored plans.
\<close>

theorem readonly_isolated:
  assumes "cfg_Mode (tb_cfg T) = ModeReadOnly"
  shows "call_tool T E (cl\<lparr>cl_kube := K\<rparr>) caller input s = call_tool T E cl caller input s \<and>
    (\<forall>r s'. call_tool T E cl caller input s = Finished r s' \<longrightarrow> ap_plans s' = ap_plans s)"
proof -
  have plan_commit: "toolPlan \<notin> set (registered_tools (tb_cfg T))" "toolCommit \<notin> set (registered_tools (tb_cfg T))"
    using assms by (simp_all add: registered_tools_def tool_names)
  show ?thesis
  proof (cases input)
    case (SearchCall x)
    then show ?thesis by (auto simp: call_tool_def search_tool_def record_call_def split: option.splits prod.splits)
  qed (use plan_commit in \<open>auto simp: call_tool_def tool_name_def help_tool_def describe_tool_def read_tool_def record_call_def Let_def split: prod.splits\<close>)
qed

text \<open>
  The manual tells what is registered. With a valid configuration, the tools that the index of \<open>k8s.help\<close> marks as available are exactly the tools the server registers, in the same order,
  and the request that the index gives for a tool's details returns the guide of that tool with the same availability.
\<close>

theorem manual_matches_tools:
  assumes "Validate cfg = None"
  shows "map sum_Name (filter sum_Available (help_Tools (help_index (cfg_Mode cfg)))) = registered_tools cfg \<and>
    (\<forall>entry \<in> set (help_Tools (help_index (cfg_Mode cfg))). \<exists>request out manual. sum_DetailsRequest entry = [(''tool'', request)] \<and>
       app_help cfg request = Inr out \<and> help_Manual out = Some manual \<and> man_Name manual = sum_Name entry \<and> man_Available manual = sum_Available entry)"
proof (intro conjI ballI)
  have "cfg_Mode cfg \<in> {ModeReadOnly, ModeSafeWrite, ModeDangerous}" using assms by (rule Validate_None(3))
  then show "map sum_Name (filter sum_Available (help_Tools (help_index (cfg_Mode cfg)))) = registered_tools cfg"
    by (auto simp: help_index_def toolManuals_def manualAvailable_def allAccessModes_def writeAccessModes_def registered_tools_def)
next
  fix entry assume "entry \<in> set (help_Tools (help_index (cfg_Mode cfg)))"
  then obtain manual where manual: "manual \<in> set toolManuals"
    "entry = \<lparr>sum_Name = man_Name manual, sum_Purpose = man_Purpose manual, sum_Available = manualAvailable manual (cfg_Mode cfg),
        sum_DetailsRequest = [(''tool'', man_Name manual)]\<rparr>"
    by (auto simp: help_index_def)
  then have "man_Name manual \<in> set [toolHelp, toolSearch, toolDescribe, toolRead, toolPlan, toolCommit]"
    unfolding manual_names [symmetric] by simp
  then have "trim_space (man_Name manual) = man_Name manual" "man_Name manual \<noteq> []"
    using tool_names_trimmed by (auto simp: list_all_iff)
  then show "\<exists>request out manual. sum_DetailsRequest entry = [(''tool'', request)] \<and>
       app_help cfg request = Inr out \<and> help_Manual out = Some manual \<and> man_Name manual = sum_Name entry \<and> man_Available manual = sum_Available entry"
    using manual find_distinct [OF manual_distinct manual(1)] by (simp add: app_help_def)
qed

section \<open>Witnesses\<close>

definition sample_tools :: "unit toolbox" where
  "sample_tools = \<lparr>tb_cfg = sample_config, tb_sha = (\<lambda>t. t), tb_sign = sample_sign, tb_versions = sample_versions, tb_fields = no_fields, tb_objects = sample_ops\<rparr>"

definition sample_call :: callEnv where
  "sample_call = \<lparr>ce_env = sample_env, ce_read = sample_read_env, ce_took = 0, ce_took' = 0\<rparr>"

definition sample_clients :: "unit clients" where
  "sample_clients =
     \<lparr>cl_catalog = \<lparr>ca_ctx_err = (\<lambda>w. None), ca_client = (\<lambda>w. (Inr (), w)), ca_discover = (\<lambda>w. (sample_discovery, w))\<rparr>, cl_authz = allow_all,
      cl_schema = \<lparr>sa_ctx_err = (\<lambda>w. None), sa_client = (\<lambda>p w. (Inr (), w)), sa_spec = (\<lambda>p g v w. (Inr [], w))\<rparr>, cl_read = sample_reader, cl_kube = sample_kube\<rparr>"

definition sample_state_app :: "unit app" where
  "sample_state_app =
     \<lparr>ap_plans = sample_store, ap_admission = None, ap_catalog = newCatalogCache read_handles, ap_schemas = newSchemaCache,
      ap_tel = \<lparr>tel_counts = [], tel_observed = [], tel_log = []\<rparr>, ap_world = ()\<rparr>"


definition readonly_tools :: "unit toolbox" where
  "readonly_tools = sample_tools\<lparr>tb_cfg := sample_config\<lparr>cfg_Spec := sample_spec\<lparr>spec_Mode := ModeReadOnly\<rparr>\<rparr>\<rparr>"

theorem readonly_isolated_witness:
  "call_tool readonly_tools sample_call (sample_clients\<lparr>cl_kube := sample_kube\<lparr>k_do := (\<lambda>req w. (Inl Canceled, w))\<rparr>\<rparr>) alice (CommitCall NotJSON) sample_state_app =
   call_tool readonly_tools sample_call sample_clients alice (CommitCall NotJSON) sample_state_app"
proof -
  have "cfg_Mode (tb_cfg readonly_tools) = ModeReadOnly" by (simp add: readonly_tools_def)
  from readonly_isolated [OF this] show ?thesis by blast
qed

theorem manual_matches_tools_witness:
  "map sum_Name (filter sum_Available (help_Tools (help_index ModeSafeWrite))) = [toolHelp, toolSearch, toolDescribe, toolRead, toolPlan, toolCommit]"
  using manual_matches_tools [OF sample_config_valid] by (simp add: sample_fields registered_tools_def)

end
