(* ===== verification/Gateway.thy ===== *)
theory Gateway
  imports Audit_Log
begin

text \<open>
  The HTTP side of the server: the authentication middleware of \<open>internal/server/auth.go\<close>, the request bodies of \<open>http.go\<close>, and from \<open>run.go\<close> the
  construction of the server and its routes.

  The middleware is cut where it gives up control: entering, waiting for a slot, authenticating, and each lock that it takes.
  \<open>authenticationMiddleware\<close> composes these steps for one request; \<open>gate_step\<close> interleaves the steps of any number of requests.
  Paths are clean (the router of the standard library redirects others). The MCP transport is a parameter.
\<close>

section \<open>State\<close>

record httpRequest =
  hr_Method :: string
  hr_Path :: string
  hr_Origin :: string
  hr_Authorization :: string
  hr_Body :: string
  hr_BodyError :: "gerr option"

text \<open>What a gateway is built with, and what its requests share. The slots are the elements in the semaphore.\<close>

record ('l, 'w) gateway =
  ge_sha :: "string \<Rightarrow> string"
  ge_cfg :: Config
  ge_tb :: "'l tokenBucket"
  ge_api :: "'w authApi"
  ge_authenticator :: Authenticator

record ('l, 'w) gateState =
  g_global :: "'l option"
  g_slots :: int
  g_limiter :: "'l identityRateLimiter"
  g_admission :: "requestAdmission option"
  g_tel :: telemetry
  g_world :: 'w

abbreviation stage :: "string \<Rightarrow> duration \<Rightarrow> telemetry \<Rightarrow> telemetry" where
  "stage name \<equiv> observe ''supek8smcp_stage_duration_seconds'' [name]"

text \<open>
  \<open>NewApp\<close>: the validated configuration, the authenticator and the empty tables. The limiter of all requests has the rate and the burst of one
  identity times the number of slots; the validated bounds keep the int32 product exact. The registration of metrics is in \<open>Upstream\<close>, the tables of the tools are in \<open>Tools\<close>.
\<close>

definition NewApp ::
  "(string \<Rightarrow> string) \<Rightarrow> 'l tokenBucket \<Rightarrow> 'w authApi \<Rightarrow> restConfig \<Rightarrow> gerr option \<Rightarrow> Config \<Rightarrow> 'w \<Rightarrow> (gerr, ('l, 'w) gateway \<times> ('l, 'w) gateState) res" where
  "NewApp sha tb api base codec_error cfg w =
     (case Validate cfg of
        Some e \<Rightarrow> Inl (Wrapped ''validate server configuration'' e)
      | None \<Rightarrow>
         let l = cfg_Limits cfg in
         bindR (NewAuthenticator api base (RequestTimeout l) (max (RequestTimeout l) (max (StreamTimeout l) (ExecTimeout l)))) (\<lambda>(authenticator, reviewer).
         case codec_error of
           Some e \<Rightarrow> Inl e
         | None \<Rightarrow>
            Inr (\<lparr>ge_sha = sha, ge_cfg = cfg, ge_tb = tb, ge_api = api, ge_authenticator = authenticator\<rparr>,
                 \<lparr>g_global = Some (newLimiter tb (RequestsPerMinute l * MaxConcurrent l) (Burst l * MaxConcurrent l)),
                  g_slots = 0, g_limiter = newIdentityRateLimiter (RequestsPerMinute l) (Burst l),
                  g_admission = Some (newRequestAdmission (MaxConcurrent l)),
                  g_tel = \<lparr>tel_counts = [], tel_observed = [], tel_log = []\<rparr>, g_world = w\<rparr>)))"

section \<open>The steps of the middleware\<close>

definition bearer_prefix :: string where
  "bearer_prefix = ''Bearer ''"

definition bearer_token :: "httpRequest \<Rightarrow> string" where
  "bearer_token req = trim_space (trim_prefix (hr_Authorization req) bearer_prefix)"

definition bearer_challenge :: "string \<Rightarrow> (string \<times> string) list" where
  "bearer_challenge suffix = [(''WWW-Authenticate'', ''Bearer realm='' @ [dquote] @ ''kubernetes'' @ [dquote] @ suffix)]"

definition retry_after :: "int \<Rightarrow> (string \<times> string) list" where
  "retry_after seconds = [(''Retry-After'', itoa seconds)]"

definition authentication_failed ::
  "('l, 'w) gateway \<Rightarrow> string \<Rightarrow> string \<Rightarrow> duration \<Rightarrow> ('l, 'w) gateState \<Rightarrow> ('l, 'w) gateState" where
  "authentication_failed G decision reason took s = s\<lparr>g_tel := recordAuthentication (ge_sha G) (ge_cfg G) None decision reason took (g_tel s)\<rparr>"

definition rate_limited ::
  "('l, 'w) gateway \<Rightarrow> Principal option \<Rightarrow> string \<Rightarrow> duration \<Rightarrow> ('l, 'w) gateState \<Rightarrow> ('l, 'w) gateState" where
  "rate_limited G caller reason took s = s\<lparr>g_tel := recordRateLimit (ge_sha G) (ge_cfg G) caller reason took (g_tel s)\<rparr>"

text \<open>The checks before the semaphore: the result is a response, or the token.\<close>

definition gate_enter ::
  "('l, 'w) gateway \<Rightarrow> instant \<Rightarrow> duration \<Rightarrow> httpRequest \<Rightarrow> (('l, 'w) gateState, httpResponse, string) io" where
  "gate_enter G now took req s =
     (if hr_Origin req \<noteq> [] then
        (Inl (writeStructuredHTTPError [] 403 ''browser_origin'' ''browser Origin requests are not accepted'' False),
         authentication_failed G ''deny'' ''browser_origin'' took s)
      else if \<not> has_prefix (hr_Authorization req) bearer_prefix \<or> length (hr_Authorization req) \<le> length bearer_prefix then
        (Inl (writeStructuredHTTPError (bearer_challenge []) 401 ''missing_bearer'' ''Kubernetes bearer token required'' False),
         authentication_failed G ''deny'' ''missing_bearer'' took s)
      else (case g_global s of
         None \<Rightarrow> (Inr (bearer_token req), s)
       | Some l \<Rightarrow>
          (case allowN (ge_tb G) now l of (ok, l') \<Rightarrow>
             if ok then (Inr (bearer_token req), s\<lparr>g_global := Some l'\<rparr>)
             else (Inl (writeStructuredHTTPError (retry_after 1) 429 ''global_rate'' ''server authentication request budget exceeded'' True),
                   rate_limited G None ''global_rate'' took (s\<lparr>g_global := Some l'\<rparr>)))))"

definition gate_timeout :: "('l, 'w) gateway \<Rightarrow> duration \<Rightarrow> duration \<Rightarrow> ('l, 'w) gateState \<Rightarrow> httpResponse \<times> ('l, 'w) gateState" where
  "gate_timeout G queued took s =
     (writeStructuredHTTPError (retry_after 1) 503 ''concurrency_timeout'' ''server concurrency limit reached'' True,
      authentication_failed G ''error'' ''concurrency_timeout'' took (s\<lparr>g_tel := stage ''queue'' queued (g_tel s)\<rparr>))"

definition gate_acquire :: "duration \<Rightarrow> ('l, 'w) gateState \<Rightarrow> ('l, 'w) gateState" where
  "gate_acquire queued s = s\<lparr>g_slots := g_slots s + 1, g_tel := stage ''queue'' queued (g_tel s)\<rparr>"

definition gate_release :: "('l, 'w) gateState \<Rightarrow> ('l, 'w) gateState" where
  "gate_release s = s\<lparr>g_slots := g_slots s - 1\<rparr>"

definition gate_authenticate ::
  "('l, 'w) gateway \<Rightarrow> duration \<Rightarrow> string \<Rightarrow> (('l, 'w) gateState, httpResponse, Principal) io" where
  "gate_authenticate G took token s =
     (case Authenticate (ge_api G) (ge_authenticator G) token (g_world s) of
        (Inl err, w) \<Rightarrow>
          (if ae_reason err \<noteq> ''invalid_token''
           then (Inl (writeStructuredHTTPError [] 503 (ae_reason err) ''Kubernetes authentication service unavailable'' True),
                 authentication_failed G ''error'' (ae_reason err) took (s\<lparr>g_world := w\<rparr>))
           else (Inl (writeStructuredHTTPError (bearer_challenge ('', error='' @ [dquote] @ ''invalid_token'' @ [dquote])) 401 ''invalid_token''
                        ''invalid Kubernetes bearer token'' False),
                 authentication_failed G ''deny'' ''invalid_token'' took (s\<lparr>g_world := w\<rparr>)))
      | (Inr caller, w) \<Rightarrow>
          (Inr caller, s\<lparr>g_world := w,
             g_tel := recordAuthentication (ge_sha G) (ge_cfg G) (Some caller) ''allow'' ''authenticated'' took (g_tel s)\<rparr>))"

definition gate_rate ::
  "('l, 'w) gateway \<Rightarrow> instant \<Rightarrow> duration \<Rightarrow> Principal \<Rightarrow> (('l, 'w) gateState, httpResponse, unit) io" where
  "gate_rate G now took caller s =
     (case Allow (ge_tb G) (IdentityKey (ge_sha G) caller) now (g_limiter s) of ((ok, reason), l) \<Rightarrow>
        if ok then (Inr (), s\<lparr>g_limiter := l\<rparr>)
        else (Inl (writeStructuredHTTPError (retry_after (RetryAfterSeconds l)) 429 reason ''authenticated identity rate limit exceeded'' True),
              rate_limited G (Some caller) reason took (s\<lparr>g_limiter := l\<rparr>)))"

definition gate_admit ::
  "('l, 'w) gateway \<Rightarrow> duration \<Rightarrow> Principal \<Rightarrow> (('l, 'w) gateState, httpResponse, unit) io" where
  "gate_admit G took caller s =
     (case g_admission s of
        None \<Rightarrow> (Inr (), s)
      | Some a \<Rightarrow>
         (case acquireIdentity (IdentityKey (ge_sha G) caller) a of (ok, a') \<Rightarrow>
            if ok then (Inr (), s\<lparr>g_admission := Some a'\<rparr>)
            else (Inl (writeStructuredHTTPError (retry_after 1) 429 ''identity_concurrency'' ''identity concurrency limit reached'' True),
                  rate_limited G (Some caller) ''identity_concurrency'' took (s\<lparr>g_admission := Some a'\<rparr>))))"

definition gate_leave :: "('l, 'w) gateway \<Rightarrow> Principal \<Rightarrow> ('l, 'w) gateState \<Rightarrow> ('l, 'w) gateState" where
  "gate_leave G caller s = s\<lparr>g_admission := map_option (releaseIdentity (IdentityKey (ge_sha G) caller)) (g_admission s)\<rparr>"

text \<open>
  The middleware for one request. \<open>expired\<close> says that the time limit of the queue ended before a slot was free;
  \<open>None\<close> that the request is still waiting.
\<close>

definition authenticationMiddleware ::
  "('l, 'w) gateway \<Rightarrow> instant \<Rightarrow> duration \<Rightarrow> duration \<Rightarrow> bool \<Rightarrow> (Principal \<Rightarrow> ('l, 'w) gateState \<Rightarrow> httpResponse \<times> ('l, 'w) gateState) \<Rightarrow> httpRequest \<Rightarrow>
   ('l, 'w) gateState \<Rightarrow> (httpResponse \<times> ('l, 'w) gateState) option" where
  "authenticationMiddleware G now queued took expired next_handler req s =
     (case gate_enter G now took req s of
        (Inl r, s1) \<Rightarrow> Some (r, s1)
      | (Inr token, s1) \<Rightarrow>
         if expired then Some (gate_timeout G queued took s1)
         else if MaxConcurrent (cfg_Limits (ge_cfg G)) \<le> g_slots s1 then None
         else (case bindE (gate_authenticate G took token) (\<lambda>caller.
                      bindE (gate_rate G now took caller) (\<lambda>_.
                      bindE (gate_admit G took caller) (\<lambda>_. ret caller))) (gate_acquire queued s1) of
             (Inl r, s2) \<Rightarrow> Some (r, gate_release s2)
           | (Inr caller, s2) \<Rightarrow> (case next_handler caller s2 of (r, s3) \<Rightarrow> Some (r, gate_release (gate_leave G caller s3)))))"

section \<open>Bodies and routes\<close>

datatype bodyError = TooLarge | ReadFailed gerr

text \<open>\<open>io.ReadAll\<close> of a body behind \<open>http.MaxBytesReader\<close>.\<close>

definition max_bytes_read :: "int \<Rightarrow> httpRequest \<Rightarrow> (bodyError, string) res" where
  "max_bytes_read limit req =
     (if limit < int (length (hr_Body req)) then Inl TooLarge
      else (case hr_BodyError req of Some e \<Rightarrow> Inl (ReadFailed e) | None \<Rightarrow> Inr (hr_Body req)))"

definition json_space :: "char list" where
  "json_space = [CHR '' '', char_of (9 :: nat), char_of (13 :: nat), char_of (10 :: nat)]"

text \<open>\<open>prepareMCPRequestBody\<close>: a response, or the body that the transport reads; \<open>None\<close> leaves it as it is.\<close>

definition prepareMCPRequestBody :: "string \<Rightarrow> (bodyError, string) res \<Rightarrow> (httpResponse, string option) res" where
  "prepareMCPRequestBody http_method body =
     (if http_method \<noteq> ''POST'' then Inr None
      else (case body of
         Inl TooLarge \<Rightarrow> Inl (writeStructuredHTTPError [] 413 ''request_too_large'' ''MCP request body exceeds maxInputBytes'' False)
       | Inl (ReadFailed e) \<Rightarrow> Inl (writeStructuredHTTPError [] 400 ''invalid_request'' ''cannot read MCP request body'' False)
       | Inr data \<Rightarrow>
          (case dropWhile (\<lambda>c. c \<in> set json_space) data of
             c # rest \<Rightarrow> if c = CHR ''['' then Inl (writeStructuredHTTPError [] 400 ''invalid_request'' ''JSON-RPC batches are not supported'' False)
                         else Inr (Some data)
           | [] \<Rightarrow> Inr (Some data))))"

definition serveStatelessSessionClose :: "string \<Rightarrow> httpResponse option" where
  "serveStatelessSessionClose http_method =
     (if http_method = ''DELETE'' then Some \<lparr>http_Status = 204, http_Headers = [], http_Error = None\<rparr> else None)"

type_synonym ('l, 'w) transport = "Principal \<Rightarrow> httpRequest \<Rightarrow> string option \<Rightarrow> ('l, 'w) gateState \<Rightarrow> httpResponse \<times> ('l, 'w) gateState"

definition mcp_handler :: "Config \<Rightarrow> ('l, 'w) transport \<Rightarrow> httpRequest \<Rightarrow> Principal \<Rightarrow> ('l, 'w) gateState \<Rightarrow> httpResponse \<times> ('l, 'w) gateState" where
  "mcp_handler cfg transport req caller s =
     (case prepareMCPRequestBody (hr_Method req) (max_bytes_read (MaxInputBytes (cfg_Limits cfg)) req) of
        Inl r \<Rightarrow> (r, s)
      | Inr body \<Rightarrow> transport caller req body s)"

definition serve_mcp ::
  "('l, 'w) gateway \<Rightarrow> ('l, 'w) transport \<Rightarrow> instant \<Rightarrow> duration \<Rightarrow> duration \<Rightarrow> bool \<Rightarrow> httpRequest \<Rightarrow> ('l, 'w) gateState \<Rightarrow> (httpResponse \<times> ('l, 'w) gateState) option" where
  "serve_mcp G transport now queued took expired req s =
     (if hr_Path req \<noteq> ''/mcp'' then Some (writeStructuredHTTPError [] 404 ''not_found'' ''endpoint not found'' False, s)
      else (case serveStatelessSessionClose (hr_Method req) of
         Some r \<Rightarrow> Some (r, s)
       | None \<Rightarrow> authenticationMiddleware G now queued took expired (mcp_handler (ge_cfg G) transport req) req s))"

definition serve_readyz :: "(string \<Rightarrow> (gerr, string) res) \<Rightarrow> ('l, 'w) gateway \<Rightarrow> 'w \<Rightarrow> httpResponse \<times> 'w" where
  "serve_readyz readFile G w =
     (case Ready readFile (ge_api G) (ge_authenticator G) w of
        (Inl e, w') \<Rightarrow> (writeStructuredHTTPError [] 503 ''tokenreview_unavailable'' ''delegated authentication is unavailable'' True, w')
      | (Inr _, w') \<Rightarrow> (\<lparr>http_Status = 200, http_Headers = [], http_Error = None\<rparr>, w'))"

section \<open>Interleaved requests\<close>

text \<open>Where a request is: waiting for a slot with its token, holding one, authenticated, within its rate, served, and served with a stream.\<close>

datatype phase =
    Waiting string
  | Holding string
  | Known string Principal
  | Rated string Principal
  | Serving string Principal
  | Streaming string Principal

fun holds_slot :: "phase \<Rightarrow> bool" where
  "holds_slot (Waiting token) = False"
| "holds_slot _ = True"

text \<open>The identity that a request occupies in the admission.\<close>

fun served_as :: "('l, 'w) gateway \<Rightarrow> string \<Rightarrow> phase \<Rightarrow> bool" where
  "served_as G identity (Serving token caller) = (IdentityKey (ge_sha G) caller = identity)"
| "served_as G identity (Streaming token caller) = (IdentityKey (ge_sha G) caller = identity)"
| "served_as G identity _ = False"

fun streams_now :: "phase \<Rightarrow> bool" where
  "streams_now (Streaming token caller) = True"
| "streams_now _ = False"

text \<open>A principal that Kubernetes reviewed: the review of the token, in some world, was positive and named it.\<close>

definition reviewed :: "('l, 'w) gateway \<Rightarrow> string \<Rightarrow> Principal \<Rightarrow> bool" where
  "reviewed G token caller = (\<exists>w w'. Authenticate (ge_api G) (ge_authenticator G) token w = (Inr caller, w'))"

inductive gate_step :: "('l, 'w) gateway \<Rightarrow> ('l, 'w) gateState \<times> phase multiset \<Rightarrow> ('l, 'w) gateState \<times> phase multiset \<Rightarrow> bool" for G where
  refused: "gate_enter G now took req s = (Inl r, s') \<Longrightarrow> gate_step G (s, F) (s', F)"
| entered: "gate_enter G now took req s = (Inr token, s') \<Longrightarrow> gate_step G (s, F) (s', add_mset (Waiting token) F)"
| expired: "gate_timeout G queued took s = (r, s') \<Longrightarrow> gate_step G (s, add_mset (Waiting token) F) (s', F)"
| acquired: "g_slots s < MaxConcurrent (cfg_Limits (ge_cfg G)) \<Longrightarrow>
    gate_step G (s, add_mset (Waiting token) F) (gate_acquire queued s, add_mset (Holding token) F)"
| rejected: "gate_authenticate G took token s = (Inl r, s') \<Longrightarrow> gate_step G (s, add_mset (Holding token) F) (gate_release s', F)"
| authenticated: "gate_authenticate G took token s = (Inr caller, s') \<Longrightarrow>
    gate_step G (s, add_mset (Holding token) F) (s', add_mset (Known token caller) F)"
| throttled: "gate_rate G now took caller s = (Inl r, s') \<Longrightarrow> gate_step G (s, add_mset (Known token caller) F) (gate_release s', F)"
| rated: "gate_rate G now took caller s = (Inr u, s') \<Longrightarrow> gate_step G (s, add_mset (Known token caller) F) (s', add_mset (Rated token caller) F)"
| crowded: "gate_admit G took caller s = (Inl r, s') \<Longrightarrow> gate_step G (s, add_mset (Rated token caller) F) (gate_release s', F)"
| admitted: "gate_admit G took caller s = (Inr u, s') \<Longrightarrow> gate_step G (s, add_mset (Rated token caller) F) (s', add_mset (Serving token caller) F)"
| works: "gate_step G (s, F) (s\<lparr>g_world := w, g_tel := t\<rparr>, F)"
| stream: "acquireStream (g_admission s) = (Inr u, a) \<Longrightarrow>
    gate_step G (s, add_mset (Serving token caller) F) (s\<lparr>g_admission := a\<rparr>, add_mset (Streaming token caller) F)"
| stream_end: "gate_step G (s, add_mset (Streaming token caller) F) (s\<lparr>g_admission := map_option releaseStream (g_admission s)\<rparr>, add_mset (Serving token caller) F)"
| left: "gate_step G (s, add_mset (Serving token caller) F) (gate_release (gate_leave G caller s), F)"

abbreviation gate_steps where
  "gate_steps G \<equiv> (gate_step G)\<^sup>*\<^sup>*"

section \<open>Lemmas: interleaved requests\<close>

text \<open>
  The invariant: slots are the requests that hold one, the admission is one that its own operations reach with the identities that are being
  served and the streams that are open, and principals were reviewed.
\<close>

fun reviewed_phase :: "('l, 'w) gateway \<Rightarrow> phase \<Rightarrow> bool" where
  "reviewed_phase G (Known token caller) = reviewed G token caller"
| "reviewed_phase G (Rated token caller) = reviewed G token caller"
| "reviewed_phase G (Serving token caller) = reviewed G token caller"
| "reviewed_phase G (Streaming token caller) = reviewed G token caller"
| "reviewed_phase G _ = True"

definition gate_inv :: "('l, 'w) gateway \<Rightarrow> ('l, 'w) gateState \<times> phase multiset \<Rightarrow> bool" where
  "gate_inv G = (\<lambda>(s, F).
     g_slots s = int (size (filter_mset holds_slot F)) \<and> g_slots s \<le> MaxConcurrent (cfg_Limits (ge_cfg G)) \<and>
     (\<forall>p \<in># F. reviewed_phase G p) \<and>
     (\<exists>a. g_admission s = Some a \<and>
        admission_run (MaxConcurrent (cfg_Limits (ge_cfg G))) a (\<lambda>identity. size (filter_mset (served_as G identity) F)) (size (filter_mset streams_now F))))"

lemma gate_frames:
  "gate_enter G now took req s = (q, s') \<Longrightarrow> g_slots s' = g_slots s \<and> g_admission s' = g_admission s"
  "gate_timeout G queued took s = (r, s') \<Longrightarrow> g_slots s' = g_slots s \<and> g_admission s' = g_admission s"
  "gate_authenticate G took token s = (q2, s') \<Longrightarrow> g_slots s' = g_slots s \<and> g_admission s' = g_admission s"
  "gate_rate G now took caller s = (q3, s') \<Longrightarrow> g_slots s' = g_slots s \<and> g_admission s' = g_admission s"
  "gate_admit G took caller s = (q4, s') \<Longrightarrow> g_slots s' = g_slots s"
  by (auto simp: gate_enter_def gate_timeout_def gate_authenticate_def gate_rate_def gate_admit_def authentication_failed_def rate_limited_def
      split: if_splits option.splits prod.splits sum.splits)

lemma gate_authenticate_reviewed: "gate_authenticate G took token s = (Inr caller, s') \<Longrightarrow> reviewed G token caller"
  by (auto simp: gate_authenticate_def reviewed_def split: prod.splits sum.splits if_splits)

lemma gate_admit_Some:
  assumes "gate_admit G took caller s = (q, s')" "g_admission s = Some a"
  shows "\<exists>a'. g_admission s' = Some a' \<and> acquireIdentity (IdentityKey (ge_sha G) caller) a = (q = Inr (), a')"
  using assms by (auto simp: gate_admit_def rate_limited_def split: prod.splits if_splits)

lemma gate_step_inv:
  assumes "gate_step G x y" "gate_inv G x"
  shows "gate_inv G y"
  using assms
proof (cases rule: gate_step.cases)
  case (crowded took caller s r s' token F)
  then obtain a a' where a: "g_admission s = Some a" "g_admission s' = Some a'" "acquireIdentity (IdentityKey (ge_sha G) caller) a = (False, a')"
    "admission_run (MaxConcurrent (cfg_Limits (ge_cfg G))) a (\<lambda>identity. size (filter_mset (served_as G identity) F)) (size (filter_mset streams_now F))"
    using assms(2) gate_admit_Some [of G took caller s "Inl r" s'] by (auto simp: gate_inv_def)
  then show ?thesis using crowded assms(2) admission_run.refuse [OF a(4,3)] gate_frames(5) [of G took caller s]
    by (auto simp: gate_inv_def gate_release_def)
next
  case (admitted took caller s u s' token F)
  then obtain a a' where a: "g_admission s = Some a" "g_admission s' = Some a'" "acquireIdentity (IdentityKey (ge_sha G) caller) a = (True, a')"
    "admission_run (MaxConcurrent (cfg_Limits (ge_cfg G))) a (\<lambda>identity. size (filter_mset (served_as G identity) F)) (size (filter_mset streams_now F))"
    using assms(2) gate_admit_Some [of G took caller s "Inr u" s'] by (auto simp: gate_inv_def)
  have "(\<lambda>identity. size (filter_mset (served_as G identity) (add_mset (Serving token caller) F))) =
      (\<lambda>identity. size (filter_mset (served_as G identity) F))(IdentityKey (ge_sha G) caller := Suc (size (filter_mset (served_as G (IdentityKey (ge_sha G) caller)) F)))"
    by auto
  then show ?thesis using admitted a assms(2) admission_run.acquire [OF a(4,3)] gate_frames(5) [of G took caller s]
    by (auto simp: gate_inv_def)
next
  case (left s token caller F)
  then obtain a where a: "g_admission s = Some a" and
    run: "admission_run (MaxConcurrent (cfg_Limits (ge_cfg G))) a (\<lambda>identity. size (filter_mset (served_as G identity) (add_mset (Serving token caller) F)))
      (size (filter_mset streams_now F))"
    using assms(2) by (auto simp: gate_inv_def)
  have "(\<lambda>identity. size (filter_mset (served_as G identity) (add_mset (Serving token caller) F)))
      (IdentityKey (ge_sha G) caller := size (filter_mset (served_as G (IdentityKey (ge_sha G) caller)) (add_mset (Serving token caller) F)) - 1) =
      (\<lambda>identity. size (filter_mset (served_as G identity) F))" by auto
  then show ?thesis using left a assms(2) admission_run.release [OF run, of "IdentityKey (ge_sha G) caller"]
    by (auto simp: gate_inv_def gate_release_def gate_leave_def)
next
  case (stream s u a token caller F)
  then obtain a0 a1 where a: "g_admission s = Some a0" "a = Some a1" "acquireStream (Some a0) = (Inr (), Some a1)" and
    run: "admission_run (MaxConcurrent (cfg_Limits (ge_cfg G))) a0 (\<lambda>identity. size (filter_mset (served_as G identity) (add_mset (Serving token caller) F)))
      (size (filter_mset streams_now F))"
    using assms(2) by (auto simp: gate_inv_def acquireStream_def split: if_splits)
  have "(\<lambda>identity. size (filter_mset (served_as G identity) (add_mset (Streaming token caller) F))) =
      (\<lambda>identity. size (filter_mset (served_as G identity) (add_mset (Serving token caller) F)))" by auto
  then show ?thesis using stream a assms(2) admission_run.stream [OF run a(3)] by (auto simp: gate_inv_def)
next
  case (stream_end s token caller F)
  then obtain a where a: "g_admission s = Some a" and
    run: "admission_run (MaxConcurrent (cfg_Limits (ge_cfg G))) a (\<lambda>identity. size (filter_mset (served_as G identity) (add_mset (Streaming token caller) F)))
      (Suc (size (filter_mset streams_now F)))"
    using assms(2) by (auto simp: gate_inv_def)
  have "(\<lambda>identity. size (filter_mset (served_as G identity) (add_mset (Streaming token caller) F))) =
      (\<lambda>identity. size (filter_mset (served_as G identity) (add_mset (Serving token caller) F)))" by auto
  then show ?thesis using stream_end a assms(2) admission_run.stream_end [OF run] by (auto simp: gate_inv_def)
qed (auto simp: gate_inv_def gate_acquire_def gate_release_def dest: gate_frames gate_authenticate_reviewed)

interpretation gate_steps: step_invariant "gate_step G" "gate_inv G" for G
  by unfold_locales (rule gate_step_inv)

lemma NewApp_inv: "NewApp sha tb api base ce cfg w = Inr (G, s) \<Longrightarrow> Validate cfg = None \<and> ge_cfg G = cfg \<and> gate_inv G (s, {#})"
  using Validate_None(17) [of cfg]
  by (auto simp: NewApp_def gate_inv_def Let_def bindR_Inr_iff intro: admission_run.start split: option.splits if_splits)

text \<open>How many steps a request still has before it; every request has a step that brings it nearer to its end.\<close>

fun steps_left :: "phase \<Rightarrow> nat" where
  "steps_left (Waiting token) = 1"
| "steps_left (Holding token) = 4"
| "steps_left (Known token caller) = 3"
| "steps_left (Rated token caller) = 2"
| "steps_left (Serving token caller) = 1"
| "steps_left (Streaming token caller) = 2"

lemma gate_progress: "\<exists>s' F'. gate_step G (s, add_mset p F) (s', F') \<and> (F' = F \<or> (\<exists>q. F' = add_mset q F \<and> steps_left q < steps_left p))"
proof (cases p)
  case (Waiting token)
  have "gate_step G (s, add_mset p F) (snd (gate_timeout G queued took s), F)" for queued took
    unfolding Waiting by (rule gate_step.expired [OF surjective_pairing])
  then show ?thesis by blast
next
  case (Holding token)
  obtain q s' where "gate_authenticate G 0 token s = (q, s')" by (metis prod.exhaust)
  then show ?thesis unfolding Holding using gate_step.rejected [of G 0 token s] gate_step.authenticated [of G 0 token s]
    by (cases q) (fastforce simp: exI)+
next
  case (Known token caller)
  obtain q s' where "gate_rate G 0 0 caller s = (q, s')" by (metis prod.exhaust)
  then show ?thesis unfolding Known using gate_step.throttled [of G 0 0 caller s] gate_step.rated [of G 0 0 caller s]
    by (cases q) (fastforce simp: exI)+
next
  case (Rated token caller)
  obtain q s' where "gate_admit G 0 caller s = (q, s')" by (metis prod.exhaust)
  then show ?thesis unfolding Rated using gate_step.crowded [of G 0 caller s] gate_step.admitted [of G 0 caller s]
    by (cases q) (fastforce simp: exI)+
next
  case (Serving token caller)
  then show ?thesis using gate_step.left by blast
next
  case (Streaming token caller)
  have "steps_left (Serving token caller) < steps_left p" by (simp add: Streaming)
  then show ?thesis using gate_step.stream_end [of G s token caller F] unfolding Streaming by blast
qed

lemma gate_drain: "\<exists>s'. gate_steps G (s, F) (s', {#})"
proof (induction "sum_mset (image_mset steps_left F)" arbitrary: s F rule: less_induct)
  case less
  show ?case
  proof (cases F)
    case empty
    then show ?thesis by blast
  next
    case (add p E)
    from gate_progress obtain s' F' where step: "gate_step G (s, F) (s', F')"
      and F': "F' = E \<or> (\<exists>q. F' = add_mset q E \<and> steps_left q < steps_left p)" unfolding add by blast
    have "0 < steps_left p" by (cases p) auto
    then have "sum_mset (image_mset steps_left F') < sum_mset (image_mset steps_left F)" using F' by (auto simp: add)
    from less.hyps [OF this] step show ?thesis by (blast intro: converse_rtranclp_into_rtranclp)
  qed
qed

section \<open>Lemmas: one request\<close>

text \<open>The audit after a refusal: the new lines end with one that is not a permission.\<close>

definition denial_logged :: "('l, 'w) gateState \<Rightarrow> ('l, 'w) gateState \<Rightarrow> bool" where
  "denial_logged s s' = (\<exists>lines line. tel_log (g_tel s') = tel_log (g_tel s) @ lines @ [line] \<and>
     mget line ''decision'' \<in> {Some (GStr ''deny''), Some (GStr ''error'')})"

definition refusal :: "('l, 'w) gateState \<Rightarrow> httpResponse \<Rightarrow> ('l, 'w) gateState \<Rightarrow> bool" where
  "refusal s r s' = (http_Status r \<in> {401, 403, 429, 503} \<and> http_Error r \<noteq> None \<and> g_admission s' = g_admission s \<and> denial_logged s s')"

lemma failed_simps [simp]:
  "g_slots (authentication_failed G d c took s) = g_slots s" "g_admission (authentication_failed G d c took s) = g_admission s"
  "g_slots (rate_limited G p c took s) = g_slots s" "g_admission (rate_limited G p c took s) = g_admission s"
  by (simp_all add: authentication_failed_def rate_limited_def)

lemma failed_logged:
  "tel_log (g_tel s) = tel_log (g_tel s0) @ lines \<Longrightarrow> d \<in> {''deny'', ''error''} \<Longrightarrow> denial_logged s0 (authentication_failed G d c took s)"
  "tel_log (g_tel s) = tel_log (g_tel s0) @ lines \<Longrightarrow> denial_logged s0 (rate_limited G p c took s)"
  using record_appends(1) [of "ge_sha G" "ge_cfg G" None d c took "g_tel s"] record_appends(2) [of "ge_sha G" "ge_cfg G" p c took "g_tel s"]
  by (auto simp: denial_logged_def authentication_failed_def rate_limited_def)

lemma http_error_simps [simp]:
  "http_Status (writeStructuredHTTPError hs status code message retry) = status" "\<exists>y. http_Error (writeStructuredHTTPError hs status code message retry) = Some y"
  by (simp_all add: writeStructuredHTTPError_def)

lemma gate_enter_cases:
  assumes "gate_enter G now took req s = (q, s1)"
  shows "(\<exists>r. q = Inl r \<and> refusal s r s1 \<and> g_slots s1 = g_slots s) \<or>
    (q = Inr (bearer_token req) \<and> hr_Origin req = [] \<and> has_prefix (hr_Authorization req) bearer_prefix \<and>
     g_slots s1 = g_slots s \<and> g_admission s1 = g_admission s \<and> g_tel s1 = g_tel s \<and> g_limiter s1 = g_limiter s \<and> g_world s1 = g_world s)"
  using assms failed_logged(1) [of s s "[]" "''deny''"]
  by (auto simp: gate_enter_def refusal_def split: if_splits option.splits prod.splits
      intro!: failed_logged(2) [where lines = "[]"])

lemma gate_timeout_refusal: "gate_timeout G queued took s = (r, s') \<Longrightarrow> refusal s r s' \<and> g_slots s' = g_slots s"
  by (auto simp: gate_timeout_def refusal_def intro!: failed_logged(1) [where lines = "[]"])

lemma gate_authenticate_cases:
  assumes "gate_authenticate G took token s = (q, s1)"
  shows "(\<exists>r. q = Inl r \<and> refusal s r s1) \<or>
    (\<exists>caller line. q = Inr caller \<and> reviewed G token caller \<and> g_admission s1 = g_admission s \<and> g_limiter s1 = g_limiter s \<and>
       tel_log (g_tel s1) = tel_log (g_tel s) @ [line] \<and> mget line ''event'' = Some (GStr ''authentication'') \<and> mget line ''decision'' = Some (GStr ''allow''))"
proof (cases "Authenticate (ge_api G) (ge_authenticator G) token (g_world s)")
  case (Pair q0 w)
  show ?thesis
  proof (cases q0)
    case (Inl err)
    then show ?thesis using assms Pair
      by (auto simp: gate_authenticate_def refusal_def split: if_splits intro!: failed_logged(1) [where lines = "[]"])
  next
    case (Inr caller)
    then have "reviewed G token caller" using Pair by (auto simp: reviewed_def)
    then show ?thesis using assms Pair Inr record_appends(1) [of "ge_sha G" "ge_cfg G" "Some caller" "''allow''" "''authenticated''" took "g_tel s"]
      by (auto simp: gate_authenticate_def)
  qed
qed

text \<open>The three locks of a request, after it has its slot.\<close>

definition gate_pass ::
  "('l, 'w) gateway \<Rightarrow> instant \<Rightarrow> duration \<Rightarrow> string \<Rightarrow> (('l, 'w) gateState, httpResponse, Principal) io" where
  "gate_pass G now took token =
     bindE (gate_authenticate G took token) (\<lambda>caller. bindE (gate_rate G now took caller) (\<lambda>_. bindE (gate_admit G took caller) (\<lambda>_. ret caller)))"

definition passed :: "('l, 'w) gateway \<Rightarrow> instant \<Rightarrow> string \<Rightarrow> Principal \<Rightarrow> ('l, 'w) gateState \<Rightarrow> ('l, 'w) gateState \<Rightarrow> bool" where
  "passed G now token caller s s' =
     (reviewed G token caller \<and> fst (Allow (ge_tb G) (IdentityKey (ge_sha G) caller) now (g_limiter s)) = (True, []) \<and>
      (\<forall>a. g_admission s = Some a \<longrightarrow> (\<exists>a'. g_admission s' = Some a' \<and> acquireIdentity (IdentityKey (ge_sha G) caller) a = (True, a'))) \<and>
      (\<exists>line. tel_log (g_tel s') = tel_log (g_tel s) @ [line] \<and> mget line ''event'' = Some (GStr ''authentication'') \<and> mget line ''decision'' = Some (GStr ''allow'')))"

lemma Allow_reason: "Allow tb subject now l = ((True, reason), l') \<Longrightarrow> reason = []"
  by (auto simp: Allow_def Let_def split: if_splits prod.splits)

lemma acquire_identity_refused: "acquireIdentity identity a = (False, a') \<Longrightarrow> a' = a"
  by (auto simp: acquireIdentity_def split: if_splits)

lemma gate_pass_cases:
  assumes "gate_pass G now took token s = (q, s')"
  shows "g_slots s' = g_slots s \<and> ((\<exists>r. q = Inl r \<and> refusal s r s') \<or> (\<exists>caller. q = Inr caller \<and> passed G now token caller s s'))"
proof -
  obtain q1 s1 where a: "gate_authenticate G took token s = (q1, s1)" by (metis prod.exhaust)
  note a' = gate_authenticate_cases [OF a] gate_frames(3) [OF a]
  show ?thesis
  proof (cases q1)
    case (Inl r)
    then show ?thesis using assms a a' by (auto simp: gate_pass_def io_simps)
  next
    case (Inr caller)
    then obtain line where k: "reviewed G token caller" "g_admission s1 = g_admission s" "g_limiter s1 = g_limiter s"
      "tel_log (g_tel s1) = tel_log (g_tel s) @ [line]" "mget line ''event'' = Some (GStr ''authentication'')" "mget line ''decision'' = Some (GStr ''allow'')"
      using a' by auto
    obtain ok reason l where al: "Allow (ge_tb G) (IdentityKey (ge_sha G) caller) now (g_limiter s) = ((ok, reason), l)" by (metis prod.exhaust)
    note run = assms [unfolded gate_pass_def]
    show ?thesis
    proof (cases ok)
      case False
      have "denial_logged s (rate_limited G (Some caller) reason took (s1\<lparr>g_limiter := l\<rparr>))"
        using k(4) by (intro failed_logged(2)) simp
      then show ?thesis using run a a'(2) Inr k al False by (auto simp: io_simps gate_rate_def refusal_def)
    next
      case True
      then have "reason = []" using al Allow_reason by fastforce
      have rated: "gate_rate G now took caller s1 = (Inr (), s1\<lparr>g_limiter := l\<rparr>)" using al True k by (simp add: gate_rate_def)
      obtain q2 s2 where ad: "gate_admit G took caller (s1\<lparr>g_limiter := l\<rparr>) = (q2, s2)" by (metis prod.exhaust)
      have denied: "denial_logged s (rate_limited G (Some caller) ''identity_concurrency'' took (s1\<lparr>g_limiter := l, g_admission := x\<rparr>))" for x
        using k(4) by (intro failed_logged(2)) simp
      show ?thesis
      proof (cases q2)
        case Inl2: (Inl r)
        then show ?thesis using run a a'(2) Inr rated ad k denied
          by (auto simp: io_simps gate_admit_def refusal_def dest!: acquire_identity_refused split: option.splits prod.splits if_splits)
      next
        case Inr2: (Inr u)
        then show ?thesis using run a a'(2) Inr rated ad k al True \<open>reason = []\<close>
          by (auto simp: io_simps gate_admit_def passed_def split: option.splits prod.splits if_splits)
      qed
    qed
  qed
qed

section \<open>Properties\<close>

text \<open>
  Property C20 (concurrency of the whole gateway). However the steps of any number of requests interleave, in a server built from a validated configuration at most
  \<open>maxConcurrent\<close> requests are past the queue, no identity has more than half of the slots (rounded up) in service, one slot is kept free of streams, and every
  request that is past authentication acts for the principal that Kubernetes returned for its own token. When all requests have ended, no slot and no identity is left occupied.
\<close>

theorem gateway_bounded:
  assumes "NewApp sha tb api base ce cfg w = Inr (G, s0)" and "gate_steps G (s0, {#}) (s, F)"
  shows "int (size (filter_mset holds_slot F)) \<le> MaxConcurrent (cfg_Limits cfg) \<and>
    int (size (filter_mset (served_as G identity) F)) \<le> (MaxConcurrent (cfg_Limits cfg) + 1) div 2 \<and>
    int (size (filter_mset streams_now F)) \<le> MaxConcurrent (cfg_Limits cfg) - 1 \<and>
    (\<forall>p \<in># F. reviewed_phase G p) \<and>
    (F = {#} \<longrightarrow> g_slots s = 0 \<and> (\<exists>a. g_admission s = Some a \<and> mget (identities a) identity = None \<and> streams a = 0))"
proof -
  note init = NewApp_inv [OF assms(1)]
  have inv: "gate_inv G (s, F)" using gate_steps.reached [OF assms(2)] init by blast
  have conc: "1 \<le> MaxConcurrent (cfg_Limits cfg)" using init Validate_None(17) by blast
  obtain a where a: "g_admission s = Some a"
    "admission_inv (MaxConcurrent (cfg_Limits cfg)) a (\<lambda>identity. size (filter_mset (served_as G identity) F)) (size (filter_mset streams_now F))"
    using inv init by (auto simp: gate_inv_def dest: admission_run_inv)
  have b: "int (size (filter_mset (served_as G identity) F)) \<le> perIdentity a" "perIdentity a = max 1 (quot (MaxConcurrent (cfg_Limits cfg) + 1) 2)"
    "int (size (filter_mset streams_now F)) \<le> max 0 (MaxConcurrent (cfg_Limits cfg) - 1)" "streams a = int (size (filter_mset streams_now F))"
    "identity_count a identity = int (size (filter_mset (served_as G identity) F))" "mget (identities a) identity \<noteq> Some 0"
    using a(2) unfolding admission_inv_def by auto
  have "mget (identities a) identity = None" if "F = {#}"
    using b(5,6) that by (auto simp: identity_count_def split: option.splits)
  then show ?thesis using inv init a(1) b conc by (auto simp: gate_inv_def quot_nonneg)
qed


text \<open>
  Property C3 (who is served). A request is either refused with an error response (401, 403, 429 or 503), or handed to the tools exactly once, as the principal that Kubernetes returned for
  the token of its own \<open>Authorization\<close> header, and only if it has no \<open>Origin\<close> header, its identity is within its rate and an identity slot was free. What a refusal does never
  depends on the tools. Either way the slot is given back; a refused request leaves the admission as it was and a denial in the audit, a served one starts
  with its authentication in the audit.
\<close>

theorem request_served_as_itself:
  assumes "authenticationMiddleware G now queued took expired next_handler req s = Some (r, s')"
  shows "(refusal s r s' \<and> g_slots s' = g_slots s \<and> (\<forall>other. authenticationMiddleware G now queued took expired other req s = Some (r, s'))) \<or>
    (\<exists>caller s1 s2 s3. hr_Origin req = [] \<and> has_prefix (hr_Authorization req) bearer_prefix \<and> g_slots s < MaxConcurrent (cfg_Limits (ge_cfg G)) \<and>
       g_slots s1 = g_slots s + 1 \<and> g_limiter s1 = g_limiter s \<and> g_admission s1 = g_admission s \<and> passed G now (bearer_token req) caller s1 s2 \<and>
       next_handler caller s2 = (r, s3) \<and> s' = gate_release (gate_leave G caller s3))"
proof -
  obtain q s1 where e: "gate_enter G now took req s = (q, s1)" by (metis prod.exhaust)
  show ?thesis
  proof (cases q)
    case (Inl r0)
    then show ?thesis using assms e gate_enter_cases [OF e] by (auto simp: authenticationMiddleware_def)
  next
    case (Inr token)
    then have entered: "token = bearer_token req" "hr_Origin req = []" "has_prefix (hr_Authorization req) bearer_prefix"
      "g_slots s1 = g_slots s" "g_admission s1 = g_admission s" "g_tel s1 = g_tel s" "g_limiter s1 = g_limiter s"
      using gate_enter_cases [OF e] by auto
    have mw: "authenticationMiddleware G now queued took expired h req s =
        (if expired then Some (gate_timeout G queued took s1)
         else if MaxConcurrent (cfg_Limits (ge_cfg G)) \<le> g_slots s1 then None
         else (case gate_pass G now took token (gate_acquire queued s1) of
             (Inl r, s2) \<Rightarrow> Some (r, gate_release s2)
           | (Inr caller, s2) \<Rightarrow> (case h caller s2 of (r, s3) \<Rightarrow> Some (r, gate_release (gate_leave G caller s3)))))" for h
      by (simp add: authenticationMiddleware_def e Inr gate_pass_def)
    have frame: "refusal s1 x y \<Longrightarrow> refusal s x y" for x y using entered by (simp add: refusal_def denial_logged_def)
    show ?thesis
    proof (cases expired)
      case True
      then show ?thesis using assms mw frame entered gate_timeout_refusal [of G queued took s1 r s'] by auto
    next
      case False
      obtain q2 s2 where p: "gate_pass G now took token (gate_acquire queued s1) = (q2, s2)" by (metis prod.exhaust)
      have acq: "g_slots (gate_acquire queued s1) = g_slots s + 1" "g_limiter (gate_acquire queued s1) = g_limiter s"
        "g_admission (gate_acquire queued s1) = g_admission s" "tel_log (g_tel (gate_acquire queued s1)) = tel_log (g_tel s)"
        using entered by (simp_all add: gate_acquire_def)
      show ?thesis
      proof (cases q2)
        case (Inl r0)
        then have "refusal (gate_acquire queued s1) r0 s2" "g_slots s2 = g_slots s + 1" using gate_pass_cases [OF p] acq by auto
        then have "refusal s r0 (gate_release s2)" "g_slots (gate_release s2) = g_slots s"
          using acq by (simp_all add: refusal_def denial_logged_def gate_release_def)
        then show ?thesis using assms mw False p Inl by (auto split: if_splits)
      next
        case (Inr caller)
        then show ?thesis using assms mw [of next_handler] False p gate_pass_cases [OF p] acq entered
          by (fastforce split: if_splits prod.splits)
      qed
    qed
  qed
qed

section \<open>Witnesses\<close>

definition sample_app :: "(int, unit) gateway \<times> (int, unit) gateState" where
  "sample_app =
     (\<lparr>ge_sha = (\<lambda>t. t), ge_cfg = sample_config, ge_tb = sample_bucket, ge_api = sample_auth, ge_authenticator = sample_authenticator\<rparr>,
      \<lparr>g_global = Some 80, g_slots = 0, g_limiter = newIdentityRateLimiter 120 20, g_admission = Some (newRequestAdmission 4),
       g_tel = \<lparr>tel_counts = [], tel_observed = [], tel_log = []\<rparr>, g_world = ()\<rparr>)"

definition sample_request :: httpRequest where
  "sample_request = \<lparr>hr_Method = ''POST'', hr_Path = ''/mcp'', hr_Origin = [], hr_Authorization = ''Bearer t'', hr_Body = ''{}'', hr_BodyError = None\<rparr>"

lemma sample_NewApp: "NewApp (\<lambda>t. t) sample_bucket sample_auth sample_rest None sample_config () = Inr (fst sample_app, snd sample_app)"
  by (simp add: NewApp_def sample_config_valid NewAuthenticator_def sample_auth_def sample_fields sample_app_def sample_authenticator_def sample_bucket_def
      wrap64_def Let_def bindR_def)

lemma sample_token: "bearer_token sample_request = ''t''"
  by code_simp

lemma sample_enter: "\<exists>s. gate_enter (fst sample_app) 0 0 sample_request (snd sample_app) = (Inr ''t'', s) \<and> g_slots s = 0"
  using sample_token by (simp add: gate_enter_def sample_app_def sample_request_def bearer_prefix_def sample_bucket_def has_prefix_def)

lemma sample_gate_run: "\<exists>s. gate_steps (fst sample_app) (snd sample_app, {#}) (s, {#Holding ''t''#})"
proof -
  obtain s where s: "gate_enter (fst sample_app) 0 0 sample_request (snd sample_app) = (Inr ''t'', s)" "g_slots s = 0"
    using sample_enter by blast
  have slots: "g_slots s < MaxConcurrent (cfg_Limits (ge_cfg (fst sample_app)))" using s(2) by (simp add: sample_app_def sample_fields)
  from gate_step.entered [OF s(1), of "{#}"] gate_step.acquired [OF slots, of "''t''" "{#}" 0]
  show ?thesis by (meson r_into_rtranclp rtranclp.rtrancl_into_rtrancl)
qed

theorem gateway_bounded_witness:
  "\<exists>s. gate_steps (fst sample_app) (snd sample_app, {#}) (s, {#Holding ''t''#}) \<and> int (size (filter_mset holds_slot {#Holding ''t''#})) \<le> 4"
proof -
  obtain s where s: "gate_steps (fst sample_app) (snd sample_app, {#}) (s, {#Holding ''t''#})" using sample_gate_run by blast
  with gateway_bounded [OF sample_NewApp s, of "''alice''"] show ?thesis by (auto simp: sample_fields)
qed


definition accepted :: "Principal \<Rightarrow> (int, unit) gateState \<Rightarrow> httpResponse \<times> (int, unit) gateState" where
  "accepted caller s = (\<lparr>http_Status = 200, http_Headers = [(''User'', pr_Username caller)], http_Error = None\<rparr>, s)"

theorem request_served_as_itself_witness:
  "\<exists>r s' s1 s2. authenticationMiddleware (fst sample_app) 0 0 0 False accepted sample_request (snd sample_app) = Some (r, s') \<and> http_Status r = 200 \<and>
     passed (fst sample_app) 0 ''t'' alice s1 s2"
proof -
  have "map_option (\<lambda>out. http_Status (fst out)) (authenticationMiddleware (fst sample_app) 0 0 0 False accepted sample_request (snd sample_app)) = Some 200"
    by code_simp
  then obtain r s' where r: "authenticationMiddleware (fst sample_app) 0 0 0 False accepted sample_request (snd sample_app) = Some (r, s')" "http_Status r = 200"
    by auto
  have who: "passed (fst sample_app) 0 token caller s1 s2 \<Longrightarrow> token = ''t'' \<Longrightarrow> caller = alice" for token caller s1 s2
    using alice_authenticated by (simp add: passed_def reviewed_def sample_app_def)
  have "\<not> refusal (snd sample_app) r s'" using r(2) by (simp add: refusal_def)
  then obtain caller s1 s2 where "passed (fst sample_app) 0 ''t'' caller s1 s2"
    using request_served_as_itself [OF r(1)] sample_token by metis
  with who r show ?thesis by blast
qed

end
