(* ===== verification/Upstream.thy ===== *)
theory Upstream
  imports Tools Gateway
begin

text \<open>
  The rest of \<open>internal/server/upstream.go\<close> and the metrics that the caches and \<open>NewApp\<close> keep: the registry, the counters of the catalog and the schema cache,
  the gauges, and the transport that ties the requests of a discovery client to the context of a tool call.

  The metered functions are \<open>catalogCache.list\<close> and \<open>schemaCache.load\<close> with their metric calls; \<open>Catalog\<close> and \<open>Schema\<close> have them without, and the lemmas
  here show that the metrics change nothing else. A gauge is read as a number of nanoseconds, bytes or elements.
\<close>

section \<open>The registry\<close>

datatype metricKind = CounterVec | HistogramVec

definition newRuntimeMetrics :: "(string \<times> metricKind \<times> string list) list" where
  "newRuntimeMetrics =
     [(''supek8smcp_stage_duration_seconds'', HistogramVec, [''stage'']),
      (''supek8smcp_upstream_requests_total'', CounterVec, [''stage'', ''result'']),
      (''supek8smcp_cache_requests_total'', CounterVec, [''cache'', ''result''])]"

definition app_metrics :: "(string \<times> metricKind \<times> string list) list" where
  "app_metrics =
     [(''supek8smcp_tool_calls_total'', CounterVec, [''tool'', ''result'']),
      (''supek8smcp_tool_duration_seconds'', HistogramVec, [''tool'']),
      (''supek8smcp_authentication_attempts_total'', CounterVec, [''decision'', ''reason'']),
      (''supek8smcp_rate_limit_rejections_total'', CounterVec, [''reason'']),
      (''supek8smcp_audit_events_total'', CounterVec, [''event'', ''tool'', ''decision'', ''reason''])]"

text \<open>The gauges of \<open>NewApp\<close>, read from the state of the tools, the gateway and the clock.\<close>

definition app_gauges :: "instant \<Rightarrow> 'w app \<Rightarrow> ('l, 'v) gateState \<Rightarrow> (string \<times> int) list" where
  "app_gauges now a g =
     [(''supek8smcp_schema_cache_bytes'', sc_bytes (ap_schemas a)),
      (''supek8smcp_active_streams'', case ap_admission a of Some adm \<Rightarrow> streams adm | None \<Rightarrow> 0),
      (''supek8smcp_active_requests'', g_slots g),
      (''supek8smcp_plan_store_bytes'', usedBytes (ap_plans a)),
      (''supek8smcp_catalog_age_seconds'', if is_zero_time (cc_loadedAt (ap_catalog a)) then 0 else time_sub now (cc_loadedAt (ap_catalog a))),
      (''supek8smcp_catalog_degraded'', if \<not> is_zero_time (cc_retryAt (ap_catalog a)) then 1 else 0)]"

abbreviation registry :: "(string \<times> metricKind \<times> string list) list" where
  "registry \<equiv> newRuntimeMetrics @ app_metrics"

text \<open>\<open>WithLabelValues\<close> panics unless there is a value for each label; \<open>MustRegister\<close> panics when a name is registered twice.\<close>

definition fits :: "metricKind \<Rightarrow> string \<Rightarrow> string list \<Rightarrow> bool" where
  "fits kind metric labels = (case mget registry metric of Some (k, names) \<Rightarrow> k = kind \<and> length labels = length names | None \<Rightarrow> False)"

definition labelled :: "telemetry \<Rightarrow> bool" where
  "labelled t =
     (list_all (\<lambda>((metric, labels), n). fits CounterVec metric labels) (tel_counts t) \<and>
      list_all (\<lambda>(metric, labels, d). fits HistogramVec metric labels) (tel_observed t))"

section \<open>The metrics of the caches\<close>

text \<open>\<open>runtimeMetrics\<close> may be nil; then nothing is counted.\<close>

definition metrics_cache :: "string \<Rightarrow> string \<Rightarrow> telemetry option \<Rightarrow> telemetry option" where
  "metrics_cache name result m = map_option (inc ''supek8smcp_cache_requests_total'' [name, result]) m"

definition metrics_observe :: "string \<Rightarrow> duration \<Rightarrow> telemetry option \<Rightarrow> telemetry option" where
  "metrics_observe stage_name took m = map_option (observe ''supek8smcp_stage_duration_seconds'' [stage_name] took) m"

definition catalog_fresh :: "instant \<Rightarrow> catalogCache \<Rightarrow> bool" where
  "catalog_fresh now c = (time_sub now (cc_loadedAt c) < cc_cacheTime c \<and> \<not> is_zero_time (cc_loadedAt c))"

definition metered_catalog_list ::
  "(string \<Rightarrow> string) \<Rightarrow> groupVersions \<Rightarrow> 'w catalogApi \<Rightarrow> instant \<Rightarrow> instant \<Rightarrow> duration \<Rightarrow> catalogCache \<times> telemetry option \<times> 'w \<Rightarrow>
   ((gerr, Capability list) res \<times> (catalogCache \<times> telemetry option \<times> 'w)) option" where
  "metered_catalog_list sign G api now now' took = (\<lambda>(c, m, w).
     case ca_ctx_err api w of
       Some e \<Rightarrow> Some (Inl e, (c, m, w))
     | None \<Rightarrow>
        (case catalog_peek now c of
           (Serve r, c1) \<Rightarrow> Some (r, (c1, metrics_cache ''catalog'' (if catalog_fresh now c then ''hit'' else ''backoff'') m, w))
         | (WaitRefresh, c1) \<Rightarrow> None
         | (StartRefresh, c1) \<Rightarrow>
            (let m1 = metrics_cache ''catalog'' ''miss'' m; finish = metrics_observe ''catalog_refresh'' took in
             case ca_client api w of
               (Inl e, w1) \<Rightarrow> Some (Inl e, (catalog_done c1, finish m1, w1))
             | (Inr _, w1) \<Rightarrow>
                (case ca_discover api w1 of (d, w2) \<Rightarrow>
                   case ca_ctx_err api w2 of
                     Some e \<Rightarrow> Some (Inl e, (catalog_done c1, finish m1, w2))
                   | None \<Rightarrow>
                      (case catalog_refresh sign G now' d c1 of (r, c2) \<Rightarrow>
                         Some (r, (catalog_done c2, finish (if d_err d \<noteq> None then metrics_cache ''catalog'' ''refresh_error'' m1 else m1), w2)))))))"

definition metered_load_schema ::
  "(string \<Rightarrow> string) \<Rightarrow> 'w schemaApi \<Rightarrow> instant \<Rightarrow> instant \<Rightarrow> duration \<Rightarrow> Principal \<Rightarrow> string \<Rightarrow> string \<Rightarrow>
   (schemaCache \<times> telemetry option \<times> 'w, gerr, gmap) io" where
  "metered_load_schema sha api now now' took caller g v = (\<lambda>(c, m, w).
     let key = schema_key sha caller g v;
         (hit, c1) = (if pr_Token caller \<noteq> [] then schema_lookup now key c else (None, c))
     in case hit of
          Some entry \<Rightarrow> (Inr (se_document entry), (c1, metrics_cache ''schema'' ''hit'' m, w))
        | None \<Rightarrow>
           (let m1 = metrics_observe ''schema_load'' took (metrics_cache ''schema'' ''miss'' m) in
            case fetch_schema api caller g v w of
              (Inl e, w') \<Rightarrow> (Inl e, (c1, m1, w'))
            | (Inr document, w') \<Rightarrow>
               (Inr document, (if pr_Token caller \<noteq> [] then schema_store now' key document c1 else c1, m1, w'))))"

section \<open>The context of a tool call\<close>

text \<open>
  \<open>discoveryForContext\<close>: a principal with a configuration of its own gets a client whose transport is wrapped for this context; one without shares its client. The
  configuration, the client and the context are values of any type, as is the function that builds a client.
\<close>

definition discoveryForContext :: "('x \<Rightarrow> 'c \<Rightarrow> 'c) \<Rightarrow> ('c \<Rightarrow> (gerr, 'd) res) \<Rightarrow> 'd \<Rightarrow> 'c option \<Rightarrow> 'x \<Rightarrow> (gerr, 'd) res" where
  "discoveryForContext wrap_config newClient shared discoveryConfig ctx =
     (case discoveryConfig of None \<Rightarrow> Inr shared | Some config \<Rightarrow> newClient (wrap_config ctx config))"

text \<open>
  One request of such a client. \<open>ct_watch\<close> tells that the function registered by \<open>context.AfterFunc\<close> on the tool call's context is still pending,
  \<open>ct_cancelled\<close> that the context of the request is cancelled.
\<close>

datatype callPhase = InFlight | Delivered | FailedWith gerr | BodyClosed

record contextCall =
  ct_phase :: callPhase
  ct_watch :: bool
  ct_cancelled :: bool

definition ct_release :: "contextCall \<Rightarrow> contextCall" where
  "ct_release c = c\<lparr>ct_watch := False, ct_cancelled := True\<rparr>"

text \<open>\<open>contextTransport.RoundTrip\<close> up to the inner transport: a context that has ended refuses the request.\<close>

definition context_send :: "gerr option \<Rightarrow> (gerr, contextCall) res" where
  "context_send ctx_err = (case ctx_err of Some e \<Rightarrow> Inl e | None \<Rightarrow> Inr \<lparr>ct_phase = InFlight, ct_watch = True, ct_cancelled = False\<rparr>)"

text \<open>The rest of it, with what the inner transport returned.\<close>

definition context_receive :: "gerr option \<Rightarrow> contextCall \<Rightarrow> contextCall" where
  "context_receive err c = (case err of Some e \<Rightarrow> (ct_release c)\<lparr>ct_phase := FailedWith e\<rparr> | None \<Rightarrow> c\<lparr>ct_phase := Delivered\<rparr>)"

definition context_Close :: "contextCall \<Rightarrow> contextCall" where
  "context_Close c = (ct_release c)\<lparr>ct_phase := BodyClosed\<rparr>"

text \<open>The steps of a request, and those that others take: the tool call ends and the registered function runs, or the request's own context ends.\<close>

inductive context_step :: "contextCall \<Rightarrow> contextCall \<Rightarrow> bool" where
  Receive: "ct_phase c = InFlight \<Longrightarrow> context_step c (context_receive err c)"
| Close: "ct_phase c \<in> {Delivered, BodyClosed} \<Longrightarrow> context_step c (context_Close c)"
| ToolDone: "ct_watch c \<Longrightarrow> context_step c (c\<lparr>ct_watch := False, ct_cancelled := True\<rparr>)"
| RequestDone: "context_step c (c\<lparr>ct_cancelled := True\<rparr>)"

inductive_cases context_stepE: "context_step c c'"

section \<open>Lemmas: the context of a tool call\<close>

lemmas context_defs = context_receive_def context_Close_def ct_release_def

definition context_inv :: "contextCall \<Rightarrow> bool" where
  "context_inv c =
     ((ct_watch c \<or> ct_cancelled c) \<and> (case ct_phase c of FailedWith e \<Rightarrow> \<not> ct_watch c \<and> ct_cancelled c | BodyClosed \<Rightarrow> \<not> ct_watch c \<and> ct_cancelled c | _ \<Rightarrow> True))"

lemma context_inv_step: "context_step c c' \<Longrightarrow> context_inv c \<Longrightarrow> context_inv c'"
  by (erule context_stepE) (auto simp: context_inv_def context_defs split: callPhase.splits option.splits)

interpretation context_steps: step_invariant context_step context_inv
  by unfold_locales (rule context_inv_step)

section \<open>Lemmas: the metrics change nothing else\<close>

lemma metered_catalog_same:
  "map_option (\<lambda>(r, (c, m, w)). (r, (c, w))) (metered_catalog_list sign G api now now' took (c, m, w)) = catalog_list sign G api now now' (c, w)"
  by (auto simp: metered_catalog_list_def catalog_list_def Let_def split: option.split prod.split catalogStep.split sum.split)

lemma metered_schema_same:
  "(case metered_load_schema sha api now now' took caller g v (c, m, w) of (r, (c, m, w)) \<Rightarrow> (r, (c, w))) = load_schema sha api now now' caller g v (c, w)"
  by (auto simp: metered_load_schema_def load_schema_def Let_def split: option.split prod.split sum.split)

section \<open>The telemetry that a server can reach\<close>

text \<open>The calls that write metrics and audit lines, in any order: the audit records, the wait for a slot, the upstream transport and the caches.\<close>

inductive telemetry_run :: "telemetry \<Rightarrow> bool" where
  Start: "telemetry_run \<lparr>tel_counts = [], tel_observed = [], tel_log = []\<rparr>"
| Authentication: "telemetry_run t \<Longrightarrow> telemetry_run (recordAuthentication sha cfg caller decision reason took t)"
| RateLimit: "telemetry_run t \<Longrightarrow> telemetry_run (recordRateLimit sha cfg caller reason took t)"
| Tool: "telemetry_run t \<Longrightarrow> telemetry_run (recordTool sha cfg p tool target took took' err t)"
| Queue: "telemetry_run t \<Longrightarrow> telemetry_run (stage ''queue'' took t)"
| Upstream: "telemetry_run t \<Longrightarrow> telemetry_run (snd (upstream_RoundTrip path took response t))"
| Cache: "telemetry_run t \<Longrightarrow> metrics_cache name result (Some t) = Some t' \<Longrightarrow> telemetry_run t'"
| Observe: "telemetry_run t \<Longrightarrow> metrics_observe stage_name took (Some t) = Some t' \<Longrightarrow> telemetry_run t'"

text \<open>The sum of a metric over all labels, the number of its observations, and the number of audit lines of an event.\<close>

definition count_of :: "string \<Rightarrow> telemetry \<Rightarrow> int" where
  "count_of metric t = (\<Sum>((m, labels), n) \<leftarrow> tel_counts t. if m = metric then n else 0)"

definition observations :: "string \<Rightarrow> telemetry \<Rightarrow> int" where
  "observations metric t = int (length (filter (\<lambda>(m, labels, d). m = metric) (tel_observed t)))"

definition lines_of :: "string \<Rightarrow> telemetry \<Rightarrow> int" where
  "lines_of event t = int (length (filter (\<lambda>line. mget line ''event'' = Some (GStr event)) (tel_log t)))"

lemma count_mput:
  "(\<Sum>((m, labels), n) \<leftarrow> mput cs (m', labels') v. if m = metric then n else 0) =
   (\<Sum>((m, labels), n) \<leftarrow> cs. if m = metric then n else (0 :: int)) +
   (if m' = metric then v - (case mget cs (m', labels') of None \<Rightarrow> 0 | Some n \<Rightarrow> n) else 0)"
  by (induction cs) (auto simp: mput_def mget_def split: option.splits)

lemma count_of_simps [simp]:
  "count_of metric (inc m labels t) = count_of metric t + (if m = metric then 1 else 0)"
  "count_of metric (observe m labels d t) = count_of metric t"
  "observations metric (inc m labels t) = observations metric t"
  "observations metric (observe m labels d t) = observations metric t + (if m = metric then 1 else 0)"
  "lines_of event (inc m labels t) = lines_of event t" "lines_of event (observe m labels d t) = lines_of event t"
  by (simp_all add: count_of_def observations_def lines_of_def inc_def observe_def count_mput split: option.split)

lemma emitAudit_simps [simp]:
  "count_of metric (emitAudit sha cfg caller event tool target decision reason took extra t) = count_of metric t"
  "observations metric (emitAudit sha cfg caller event tool target decision reason took extra t) = observations metric t"
  "lines_of ev (emitAudit sha cfg caller event tool target decision reason took extra t) = lines_of ev t + (if event = ev then 1 else 0)"
  "labelled (emitAudit sha cfg caller event tool target decision reason took extra t) = labelled t"
  "length (tel_log (emitAudit sha cfg caller event tool target decision reason took extra t)) = Suc (length (tel_log t))"
  by (simp_all add: emitAudit_def count_of_def observations_def lines_of_def labelled_def mget_def)

lemma labelled_inc: "fits CounterVec m labels \<Longrightarrow> labelled t \<Longrightarrow> labelled (inc m labels t)"
  using set_mput_subset [of "tel_counts t" "(m, labels)"] by (fastforce simp: labelled_def inc_def list_all_iff)

lemma labelled_observe: "fits HistogramVec m labels \<Longrightarrow> labelled t \<Longrightarrow> labelled (observe m labels d t)"
  by (simp add: labelled_def observe_def)

lemma fits_registry [simp]:
  "fits HistogramVec ''supek8smcp_stage_duration_seconds'' [a]" "fits CounterVec ''supek8smcp_upstream_requests_total'' [a, b]"
  "fits CounterVec ''supek8smcp_cache_requests_total'' [a, b]" "fits CounterVec ''supek8smcp_tool_calls_total'' [a, b]"
  "fits HistogramVec ''supek8smcp_tool_duration_seconds'' [a]" "fits CounterVec ''supek8smcp_authentication_attempts_total'' [a, b]"
  "fits CounterVec ''supek8smcp_rate_limit_rejections_total'' [a]" "fits CounterVec ''supek8smcp_audit_events_total'' [a, b, c, d]"
  by (simp_all add: fits_def newRuntimeMetrics_def app_metrics_def mget_def)

lemmas recorders = recordAuthentication_def recordRateLimit_def recordTool_def upstream_RoundTrip_def metrics_cache_def metrics_observe_def Let_def

lemma telemetry_labelled: "telemetry_run t \<Longrightarrow> labelled t"
  by (induction rule: telemetry_run.induct)
    (auto simp: recorders labelled_def [of "\<lparr>tel_counts = _, tel_observed = _, tel_log = _\<rparr>"] split: prod.split intro!: labelled_inc labelled_observe)

text \<open>The counters and the audit are written together.\<close>

definition accounts :: "telemetry \<Rightarrow> bool" where
  "accounts t =
     (count_of ''supek8smcp_audit_events_total'' t = int (length (tel_log t)) \<and>
      count_of ''supek8smcp_tool_calls_total'' t = lines_of ''tool_call'' t \<and> observations ''supek8smcp_tool_duration_seconds'' t = lines_of ''tool_call'' t \<and>
      count_of ''supek8smcp_authentication_attempts_total'' t = lines_of ''authentication'' t \<and>
      count_of ''supek8smcp_rate_limit_rejections_total'' t = lines_of ''request'' t)"

lemma telemetry_accounts: "telemetry_run t \<Longrightarrow> accounts t"
proof (induction rule: telemetry_run.induct)
  case Start
  then show ?case by (simp add: accounts_def count_of_def observations_def lines_of_def)
qed (auto simp: accounts_def recorders split: prod.split)

section \<open>The handlers stay within it\<close>

lemma metrics_run:
  "telemetry_run t \<Longrightarrow> \<exists>t'. metrics_cache name result (Some t) = Some t' \<and> telemetry_run t'"
  "telemetry_run t \<Longrightarrow> \<exists>t'. metrics_observe stage_name took (Some t) = Some t' \<and> telemetry_run t'"
  by (auto simp: metrics_cache_def metrics_observe_def intro: telemetry_run.intros(7,8) [unfolded metrics_cache_def metrics_observe_def])

lemma cache_run_steps:
  "telemetry_run t \<Longrightarrow> telemetry_run (inc ''supek8smcp_cache_requests_total'' [name, result] t)"
  "telemetry_run t \<Longrightarrow> telemetry_run (observe ''supek8smcp_stage_duration_seconds'' [stage_name] took t)"
  using metrics_run [of t] by (auto simp: metrics_cache_def metrics_observe_def)

lemma metered_catalog_run:
  "metered_catalog_list sign G api now now' took (c, Some t, w) = Some (r, (c', m', w')) \<Longrightarrow> telemetry_run t \<Longrightarrow> \<exists>t'. m' = Some t' \<and> telemetry_run t'"
  by (auto simp: metered_catalog_list_def metrics_cache_def metrics_observe_def Let_def
      split: option.splits prod.splits catalogStep.splits sum.splits if_splits intro!: cache_run_steps)

lemma metered_schema_run:
  "metered_load_schema sha api now now' took caller g v (c, Some t, w) = (r, (c', m', w')) \<Longrightarrow> telemetry_run t \<Longrightarrow> \<exists>t'. m' = Some t' \<and> telemetry_run t'"
  by (auto simp: metered_load_schema_def metrics_cache_def metrics_observe_def Let_def
      split: option.splits prod.splits sum.splits if_splits intro!: cache_run_steps)

lemma call_tool_run: "call_tool T E cl caller input s = Finished r s' \<Longrightarrow> telemetry_run (ap_tel s) \<Longrightarrow> telemetry_run (ap_tel s')"
  using call_tool_records [of T E cl caller input s r s'] telemetry_run.Tool by metis

lemma gate_run:
  "gate_enter G now took req s = (a, s') \<Longrightarrow> telemetry_run (g_tel s) \<Longrightarrow> telemetry_run (g_tel s')"
  "gate_timeout G queued took s = (resp, s') \<Longrightarrow> telemetry_run (g_tel s) \<Longrightarrow> telemetry_run (g_tel s')"
  "gate_authenticate G took token s = (b, s') \<Longrightarrow> telemetry_run (g_tel s) \<Longrightarrow> telemetry_run (g_tel s')"
  "gate_rate G now took caller s = (c, s') \<Longrightarrow> telemetry_run (g_tel s) \<Longrightarrow> telemetry_run (g_tel s')"
  "gate_admit G took caller s = (d, s') \<Longrightarrow> telemetry_run (g_tel s) \<Longrightarrow> telemetry_run (g_tel s')"
  "telemetry_run (g_tel s) \<Longrightarrow> telemetry_run (g_tel (gate_acquire queued s))"
  by (auto simp: gate_enter_def gate_timeout_def gate_authenticate_def gate_rate_def gate_admit_def gate_acquire_def authentication_failed_def rate_limited_def
      split: if_splits option.splits prod.splits sum.splits intro!: telemetry_run.intros(2,3,5))

lemma gate_leave_run [simp]: "g_tel (gate_release s) = g_tel s" "g_tel (gate_leave G caller s) = g_tel s"
  by (simp_all add: gate_release_def gate_leave_def)

lemma middleware_run:
  assumes "authenticationMiddleware G now queued took expired handler req s = Some (resp, s')" "telemetry_run (g_tel s)"
    and handler: "\<And>caller s r s'. handler caller s = (r, s') \<Longrightarrow> telemetry_run (g_tel s) \<Longrightarrow> telemetry_run (g_tel s')"
  shows "telemetry_run (g_tel s')"
proof -
  obtain a s1 where enter: "gate_enter G now took req s = (a, s1)" by (metis prod.exhaust)
  note s1 = gate_run(1) [OF enter assms(2)]
  let ?steps = "\<lambda>token. bindE (gate_authenticate G took token) (\<lambda>caller. bindE (gate_rate G now took caller) (\<lambda>_. bindE (gate_admit G took caller) (\<lambda>_. ret caller)))"
  have steps: "telemetry_run (g_tel s2)" if "?steps token (gate_acquire queued s1) = (q, s2)" for token q s2
    using that gate_run(6) [OF s1, of queued] by (auto simp: io_simps split: prod.splits sum.splits dest: gate_run(3,4,5))
  show ?thesis using assms(1) enter s1 steps handler
    by (auto simp: authenticationMiddleware_def split: sum.splits prod.splits if_splits dest: gate_run(2))
qed

section \<open>Properties\<close>

text \<open>
  Property C23 (the metrics agree with the audit). Whatever requests, tool calls and calls to Kubernetes a server handles, every metric is written with exactly the labels it was registered
  with, so that no metric call panics, and no two metrics or gauges of the server share a name. The counters add up with the audit log: as many audit events as lines, as many tool calls and tool durations as
  lines for tool calls, as many authentication attempts as lines for authentications, and as many rejections as lines for refused requests. One request that passes the
  middleware leaves the telemetry in such a state when its handler does, and so does every tool call.
\<close>

theorem metrics_agree_with_audit:
  assumes "telemetry_run (g_tel s)" "telemetry_run (ap_tel a)"
    and handler: "\<And>caller req body s r s'. transport caller req body s = (r, s') \<Longrightarrow> telemetry_run (g_tel s) \<Longrightarrow> telemetry_run (g_tel s')"
    and "serve_mcp G transport now queued took expired req s = Some (resp, s')"
    and "call_tool T E cl caller input a = Finished r a'"
  shows "labelled (g_tel s') \<and> accounts (g_tel s') \<and> labelled (ap_tel a') \<and> accounts (ap_tel a') \<and>
    distinct (map fst registry @ map fst (app_gauges now a' s'))"
proof -
  have "telemetry_run (g_tel s')" using assms(4) assms(1) handler
    by (auto simp: serve_mcp_def mcp_handler_def split: if_splits option.splits sum.splits elim!: middleware_run)
  moreover have "telemetry_run (ap_tel a')" by (rule call_tool_run [OF assms(5,2)])
  moreover have "distinct (map fst registry @ map fst (app_gauges now a' s'))" by (simp add: newRuntimeMetrics_def app_metrics_def app_gauges_def)
  ultimately show ?thesis by (simp only: telemetry_labelled telemetry_accounts simp_thms)
qed

text \<open>
  Discovery ends with the tool call. A discovery or OpenAPI request is not sent when the context of the tool call has ended. While a request is in flight or its response is
  being read, either the end of the tool call will still cancel it, or it is cancelled; once the tool call has ended it is cancelled. When the request has failed or the body was closed, the registration on the
  tool call's context is gone and the request's context is released, in whatever order the call ends, the request is cancelled and the body is closed, also more than once.
\<close>

theorem context_call_released:
  assumes "context_send ctx_err = Inr c0" "context_step\<^sup>*\<^sup>* c0 c"
  shows "ctx_err = None \<and> (ct_watch c \<or> ct_cancelled c) \<and>
    (ct_phase c = BodyClosed \<or> (\<exists>e. ct_phase c = FailedWith e) \<longrightarrow> \<not> ct_watch c \<and> ct_cancelled c)"
proof -
  have "context_inv c0" "ctx_err = None" using assms(1) by (auto simp: context_send_def context_inv_def split: option.splits)
  then show ?thesis using context_steps.reached [OF assms(2)] by (auto simp: context_inv_def)
qed

section \<open>Witnesses\<close>

definition browser_request :: httpRequest where
  "browser_request = sample_request\<lparr>hr_Origin := ''https://example.com''\<rparr>"

definition silent :: "(int, unit) transport" where
  "silent caller req body s = (\<lparr>http_Status = 200, http_Headers = [], http_Error = None\<rparr>, s)"

theorem metrics_agree_with_audit_witness:
  "\<exists>resp s' r a'. serve_mcp (fst sample_app) silent 0 0 0 False browser_request (snd sample_app) = Some (resp, s') \<and> http_Status resp = 403 \<and>
     accounts (g_tel s') \<and> call_tool sample_tools sample_call sample_clients alice (CommitCall NotJSON) sample_state_app = Finished r a' \<and> accounts (ap_tel a')"
proof -
  let ?s' = "authentication_failed (fst sample_app) ''deny'' ''browser_origin'' 0 (snd sample_app)"
  let ?resp = "writeStructuredHTTPError [] 403 ''browser_origin'' ''browser Origin requests are not accepted'' False"
  have serve: "serve_mcp (fst sample_app) silent 0 0 0 False browser_request (snd sample_app) = Some (?resp, ?s')"
    by (simp add: serve_mcp_def authenticationMiddleware_def gate_enter_def serveStatelessSessionClose_def browser_request_def sample_request_def)
  have status: "http_Status ?resp = 403" by (simp add: writeStructuredHTTPError_def)
  have call: "call_tool sample_tools sample_call sample_clients alice (CommitCall NotJSON) sample_state_app =
      Finished (Inl invalid_arguments) (record_call sample_tools sample_call alice toolCommit no_target (Some invalid_arguments) sample_state_app)"
    by (simp add: call_tool_def tool_name_def registered_tools_def sample_tools_def sample_fields commit_tool_def decodeCommitInput_def)
  have start: "telemetry_run (g_tel (snd sample_app))" "telemetry_run (ap_tel sample_state_app)"
    by (simp_all add: sample_app_def sample_state_app_def telemetry_run.Start)
  have silent: "telemetry_run (g_tel s')" if "silent caller req body s = (r, s')" "telemetry_run (g_tel s)" for caller req body s r s'
    using that by (simp add: silent_def)
  have ok: "accounts (g_tel ?s') \<and>
      accounts (ap_tel (record_call sample_tools sample_call alice toolCommit no_target (Some invalid_arguments) sample_state_app))"
    using metrics_agree_with_audit [OF start _ serve call] silent by simp
  show ?thesis by (intro exI conjI, rule serve, rule status, (use ok in blast), rule call, (use ok in blast))
qed

theorem context_call_released_witness:
  "\<not> ct_watch (context_Close (context_receive None \<lparr>ct_phase = InFlight, ct_watch = True, ct_cancelled = False\<rparr>))"
proof -
  let ?c = "\<lparr>ct_phase = InFlight, ct_watch = True, ct_cancelled = False\<rparr>"
  have "context_step ?c (context_receive None ?c)" by (rule Receive) simp
  moreover have "context_step (context_receive None ?c) (context_Close (context_receive None ?c))" by (rule Close) (simp add: context_receive_def)
  ultimately have "context_step\<^sup>*\<^sup>* ?c (context_Close (context_receive None ?c))" by simp
  moreover have "context_send None = Inr ?c" by (simp add: context_send_def)
  ultimately show ?thesis using context_call_released [of None ?c] by (simp add: context_Close_def)
qed

end
