(* ===== verification/Cluster.thy ===== *)
theory Cluster
  imports Policy Identity
begin

text \<open>
  The objects that the operator (\<open>internal/operator\<close>) keeps in the cluster, the client it uses, and the ownership rule that guards every object.

  An object is a record that extends its metadata. The client of controller-runtime is a parameter: \<open>Get\<close>, \<open>Delete\<close> and so on per type, and \<open>CreateOrUpdate\<close> as a function of the
  namespace, the name and the function that mutates the object. What a property needs of it is a hypothesis (\<open>runs_mutation\<close>).
\<close>

section \<open>Objects\<close>

record objectMeta =
  om_Name :: string
  om_Namespace :: string
  om_UID :: string
  om_ResourceVersion :: string
  om_Generation :: int
  om_Labels :: "(string \<times> string) list"
  om_Annotations :: "(string \<times> string) list"
  om_Controller :: "string option"

text \<open>\<open>om_Controller\<close> is the UID in the owner reference that is marked as controller.\<close>

record ServiceAccount = objectMeta +
  sa_Automount :: "bool option"

record ConfigMap = objectMeta +
  cm_Data :: "(string \<times> string) list"

record servicePort =
  sp_PortName :: string
  sp_Port :: int
  sp_TargetPort :: int
  sp_Protocol :: string

record Service = objectMeta +
  sv_Type :: string
  sv_Selector :: "(string \<times> string) list"
  sv_ExternalName :: string
  sv_ExternalIPs :: "string list"
  sv_LoadBalancerIP :: string
  sv_LoadBalancerSourceRanges :: "string list"
  sv_LoadBalancerClass :: "string option"
  sv_AllocateLoadBalancerNodePorts :: "bool option"
  sv_HealthCheckNodePort :: int
  sv_ExternalTrafficPolicy :: string
  sv_Ports :: "servicePort list"

text \<open>A deployment: the parts of its spec that code reads, the other parts of the spec in their JSON form, and the status.\<close>

record Deployment = objectMeta +
  dp_Replicas :: "int option"
  dp_Selector :: "(string \<times> string) list"
  dp_TemplateLabels :: "(string \<times> string) list"
  dp_TemplateAnnotations :: "(string \<times> string) list"
  dp_Rollout :: gmap
  dp_PodSpec :: gmap
  dp_ObservedGeneration :: int
  dp_UpdatedReplicas :: int
  dp_AvailableReplicas :: int

record NetworkPolicy = objectMeta +
  np_Spec :: gmap

record policyRule =
  pr_APIGroups :: "string list"
  pr_Resources :: "string list"
  pr_Verbs :: "string list"
  pr_ResourceNames :: "string list"
  pr_NonResourceURLs :: "string list"

record ClusterRole = objectMeta +
  cr_AggregationRule :: "gval option"
  cr_Rules :: "policyRule list"

record roleRef =
  rr_APIGroup :: string
  rr_Kind :: string
  rr_Name :: string

record rbacSubject =
  rs_Kind :: string
  rs_Name :: string
  rs_Namespace :: string

record ClusterRoleBinding = objectMeta +
  rb_RoleRef :: roleRef
  rb_Subjects :: "rbacSubject list"

record Secret = objectMeta +
  sec_Type :: string
  sec_Data :: "(string \<times> string) list"

text \<open>The custom resource with the parts of its metadata and its status that the operator changes. Conditions are by type.\<close>

record condition =
  cd_Status :: bool
  cd_Reason :: string
  cd_Message :: string
  cd_ObservedGeneration :: int

record serverObject =
  so_Server :: KubernetesMCPServer
  so_Deleting :: bool
  so_Finalizers :: "string list"
  so_ObservedGeneration :: int
  so_Endpoint :: string
  so_CAConfigMapName :: string
  so_Conditions :: "(string \<times> condition) list"

abbreviation so_Name :: "serverObject \<Rightarrow> string" where
  "so_Name x \<equiv> srv_Name (so_Server x)"

abbreviation so_Namespace :: "serverObject \<Rightarrow> string" where
  "so_Namespace x \<equiv> srv_Namespace (so_Server x)"

section \<open>The client\<close>

type_synonym ('w, 'o) getter = "string \<Rightarrow> string \<Rightarrow> ('w, gerr, 'o) io"
type_synonym ('w, 'o) applier = "string \<Rightarrow> string \<Rightarrow> ('o \<Rightarrow> (gerr, 'o) res) \<Rightarrow> ('w, gerr, 'o) io"

text \<open>Cluster-scoped objects are read and applied with an empty namespace. A NetworkPolicy is deleted under the condition of its UID.\<close>

record 'w operatorClient =
  oc_getServer :: "('w, serverObject) getter"
  oc_updateServer :: "serverObject \<Rightarrow> ('w, gerr, unit) io"
  oc_updateStatus :: "serverObject \<Rightarrow> ('w, gerr, unit) io"
  oc_getService :: "('w, Service) getter"
  oc_applyService :: "('w, Service) applier"
  oc_getServiceAccount :: "('w, ServiceAccount) getter"
  oc_applyServiceAccount :: "('w, ServiceAccount) applier"
  oc_applyConfigMap :: "('w, ConfigMap) applier"
  oc_getDeployment :: "('w, Deployment) getter"
  oc_applyDeployment :: "('w, Deployment) applier"
  oc_patchDeployment :: "Deployment \<Rightarrow> Deployment \<Rightarrow> ('w, gerr, unit) io"
  oc_getNetworkPolicy :: "('w, NetworkPolicy) getter"
  oc_applyNetworkPolicy :: "('w, NetworkPolicy) applier"
  oc_deleteNetworkPolicy :: "string \<Rightarrow> string \<Rightarrow> string \<Rightarrow> ('w, gerr, unit) io"
  oc_getClusterRole :: "('w, ClusterRole) getter"
  oc_getBinding :: "('w, ClusterRoleBinding) getter"
  oc_applyBinding :: "('w, ClusterRoleBinding) applier"
  oc_deleteBinding :: "string \<Rightarrow> ('w, gerr, unit) io"
  oc_getSecret :: "('w, Secret) getter"
  oc_createSecret :: "Secret \<Rightarrow> ('w, gerr, unit) io"
  oc_applySecret :: "('w, Secret) applier"

text \<open>
  The reconciler. \<open>ref_error\<close> is the error of \<open>SetControllerReference\<close>, which refuses an object that another controller owns; \<open>encode_config\<close> the JSON text of a configuration.
\<close>

record 'w reconciler =
  r_client :: "'w operatorClient"
  r_ServerImage :: string
  r_OperatorNamespace :: string
  r_sha :: "string \<Rightarrow> string"
  r_ref_error :: "KubernetesMCPServer \<Rightarrow> string option \<Rightarrow> gerr option"
  r_encode_config :: "Config \<Rightarrow> string"

definition wrapE :: "string \<Rightarrow> ('w, gerr, 'a) io \<Rightarrow> ('w, gerr, 'a) io" where
  "wrapE prefix m = (\<lambda>w. case m w of (Inl e, w') \<Rightarrow> (Inl (Wrapped prefix e), w') | (Inr x, w') \<Rightarrow> (Inr x, w'))"

text \<open>\<open>err != nil && !apierrors.IsNotFound(err)\<close>\<close>

definition unless_missing :: "(gerr, unit) res \<Rightarrow> gerr option" where
  "unless_missing r = (case r of Inl e \<Rightarrow> if is_not_found e then None else Some e | Inr _ \<Rightarrow> None)"

text \<open>Hypothesis on the client: what it applied is the result of the mutation, in the fields that \<open>keep\<close> reads (the API may set others).\<close>

definition runs_mutation :: "('o \<Rightarrow> 'k) \<Rightarrow> ('w, 'o) applier \<Rightarrow> bool" where
  "runs_mutation keep app =
     (\<forall>ns name f w x w'. app ns name f w = (Inr x, w') \<longrightarrow> (\<exists>old new. f old = Inr new \<and> keep x = keep new))"

section \<open>Ownership\<close>

definition requireControllerOwnership :: "KubernetesMCPServer \<Rightarrow> 'x objectMeta_scheme \<Rightarrow> gerr option" where
  "requireControllerOwnership server object =
     (if om_ResourceVersion object = [] \<and> om_UID object = [] then None
      else if om_Controller object = Some (srv_UID server) then None
      else Some (Plain (''resource '' @ om_Namespace object @ ''/'' @ om_Name object @ '' already exists and is not controlled by this KubernetesMCPServer'')))"

definition setControllerReference :: "'w reconciler \<Rightarrow> KubernetesMCPServer \<Rightarrow> 'x objectMeta_scheme \<Rightarrow> (gerr, 'x objectMeta_scheme) res" where
  "setControllerReference R server object =
     (case r_ref_error R server (om_Controller object) of
        Some e \<Rightarrow> Inl e
      | None \<Rightarrow> Inr (object\<lparr>om_Controller := Some (srv_UID server)\<rparr>))"

text \<open>The frame of all mutations of owned objects: the ownership check, the change, the owner reference.\<close>

definition mutate_owned :: "'w reconciler \<Rightarrow> KubernetesMCPServer \<Rightarrow> ('x objectMeta_scheme \<Rightarrow> 'x objectMeta_scheme) \<Rightarrow> 'x objectMeta_scheme \<Rightarrow> (gerr, 'x objectMeta_scheme) res" where
  "mutate_owned R server change object =
     checkR (requireControllerOwnership server object) (setControllerReference R server (change object))"

section \<open>Names and revisions\<close>

definition digestParts :: "(string \<Rightarrow> string) \<Rightarrow> string list \<Rightarrow> string" where
  "digestParts sha parts = hex_encode (sha (concat (map (\<lambda>part. part @ [nul]) parts)))"

definition policyRevision :: "(string \<Rightarrow> string) \<Rightarrow> KubernetesMCPServer \<Rightarrow> string" where
  "policyRevision sha server = take 16 (digestParts sha [srv_UID server, itoa (srv_Generation server)])"

definition clusterBindingName :: "(string \<Rightarrow> string) \<Rightarrow> KubernetesMCPServer \<Rightarrow> string" where
  "clusterBindingName sha server = ''supek8smcp-'' @ hex_encode (take 8 (sha (srv_Namespace server @ ''/'' @ srv_Name server)))"

section \<open>Lemmas\<close>

lemma runs_mutationD:
  "runs_mutation keep app \<Longrightarrow> app ns name f w = (Inr x, w') \<Longrightarrow> \<exists>old new. f old = Inr new \<and> keep x = keep new"
  unfolding runs_mutation_def by blast

lemma requireControllerOwnership_None:
  "(requireControllerOwnership server object = None) =
     ((om_ResourceVersion object = [] \<and> om_UID object = []) \<or> om_Controller object = Some (srv_UID server))"
  by (simp add: requireControllerOwnership_def)

lemma mutate_owned_Inr:
  assumes "mutate_owned R server change object = Inr new"
  shows "((om_ResourceVersion object = [] \<and> om_UID object = []) \<or> om_Controller object = Some (srv_UID server)) \<and>
    new = (change object)\<lparr>om_Controller := Some (srv_UID server)\<rparr>"
  using assms by (auto simp: mutate_owned_def setControllerReference_def requireControllerOwnership_None checkR_Inr_iff split: option.splits)

lemma wrapE_Inr: "(wrapE prefix m w = (Inr x, w')) = (m w = (Inr x, w'))"
  by (auto simp: wrapE_def split: prod.splits sum.splits)

section \<open>The contract of the mutations\<close>

text \<open>An object that exists and that the server with this UID does not control. \<open>no_adoption\<close> makes it an error of its own to accept such an object.\<close>

definition foreign :: "string \<Rightarrow> 'x objectMeta_scheme \<Rightarrow> bool" where
  "foreign uid object = (\<not> (om_ResourceVersion object = [] \<and> om_UID object = []) \<and> om_Controller object \<noteq> Some uid)"

definition no_adoption :: "string \<Rightarrow> ('x objectMeta_scheme \<Rightarrow> (gerr, 'x objectMeta_scheme) res) \<Rightarrow> 'x objectMeta_scheme \<Rightarrow> (gerr, 'x objectMeta_scheme) res" where
  "no_adoption uid mutate object =
     (if foreign uid object \<and> \<not> isl (mutate object) then Inl (Plain ''adopted a foreign object'') else mutate object)"

lemma requireControllerOwnership_foreign: "(requireControllerOwnership server object = None) = (\<not> foreign (srv_UID server) object)"
  by (auto simp: requireControllerOwnership_def foreign_def)

text \<open>
  Every object except the role binding is changed through a mutation of this kind: it accepts an object only if that is new or controlled by the server, and takes control of it.
\<close>

locale owned_mutation =
  fixes server :: KubernetesMCPServer
    and change :: "'x objectMeta_scheme \<Rightarrow> 'x objectMeta_scheme"
    and mutate :: "'x objectMeta_scheme \<Rightarrow> (gerr, 'x objectMeta_scheme) res"
  assumes accepts: "mutate object = Inr new \<Longrightarrow>
    requireControllerOwnership server object = None \<and> new = (change object)\<lparr>om_Controller := Some (srv_UID server)\<rparr>"
begin

lemma foreign_refused: "foreign (srv_UID server) object \<Longrightarrow> isl (mutate object)"
  using accepts by (cases "mutate object") (auto simp: requireControllerOwnership_foreign)

lemma never_adopts: "no_adoption (srv_UID server) mutate = mutate"
  by (rule ext) (auto simp: no_adoption_def dest: foreign_refused)

lemma accepted_again: "mutate object = Inr new \<Longrightarrow> requireControllerOwnership server new = None"
  by (drule accepts) (simp add: requireControllerOwnership_None)

lemma applied_as:
  assumes "runs_mutation keep app" "app ns name mutate w = (Inr x, w')"
  shows "\<exists>object. requireControllerOwnership server object = None \<and> keep x = keep ((change object)\<lparr>om_Controller := Some (srv_UID server)\<rparr>)"
  using runs_mutationD [OF assms] accepts by blast

end

lemma mutate_owned_contract: "owned_mutation server change (mutate_owned R server change)"
  by unfold_locales (auto dest: mutate_owned_Inr simp: requireControllerOwnership_None)

end
