(* ===== verification/Certificates.thy ===== *)
theory Certificates
  imports Cluster
begin

text \<open>
  The certificates of the operator (\<open>internal/operator/certificates.go\<close>): the root authority in its Secret, and the serving certificate of a server, configured or signed by the operator and
  renewed 30 days before its end.

  PEM, X.509, key generation and signatures are parameters (\<open>crypto\<close>). A certificate is a record of what the code sets or reads, a private key is the public key that belongs to it and its kind.
\<close>

section \<open>Keys and certificates\<close>

datatype privateKey = ECDSAKey string | OtherKey string

record certificate =
  crt_SerialNumber :: int
  crt_CommonName :: string
  crt_DNSNames :: "string list"
  crt_NotBefore :: instant
  crt_NotAfter :: instant
  crt_DigitalSignature :: bool
  crt_KeyEncipherment :: bool
  crt_CertSign :: bool
  crt_CRLSign :: bool
  crt_ServerAuth :: bool
  crt_IsCA :: bool
  crt_PublicKey :: "string option"

text \<open>
  \<open>crt_PublicKey\<close> is the public key if it is an ECDSA key; a template has none. \<open>cy_keyPair\<close> is \<open>tls.X509KeyPair\<close> (the chain of the certificates), \<open>cy_pemBlock\<close> the bytes of the first PEM block, \<open>cy_pool\<close>
  the certificates of a PEM bundle, \<open>cy_verify\<close> verifies a leaf for a DNS name and server authentication now, \<open>cy_create\<close> signs a template for a public key with a parent and its key.
\<close>

record crypto =
  cy_keyPair :: "string \<Rightarrow> string \<Rightarrow> (gerr, string list) res"
  cy_parseCertificate :: "string \<Rightarrow> (gerr, certificate) res"
  cy_pool :: "string \<Rightarrow> certificate list"
  cy_verify :: "certificate \<Rightarrow> string \<Rightarrow> certificate list \<Rightarrow> certificate list \<Rightarrow> gerr option"
  cy_pemBlock :: "string \<Rightarrow> string option"
  cy_pem :: "string \<Rightarrow> string \<Rightarrow> string"
  cy_parseKey :: "string \<Rightarrow> (gerr, privateKey) res"
  cy_marshalKey :: "privateKey \<Rightarrow> (gerr, string) res"
  cy_create :: "certificate \<Rightarrow> certificate \<Rightarrow> string \<Rightarrow> privateKey \<Rightarrow> (gerr, string) res"

text \<open>What the random source and the clock deliver to one reconciliation: a key for an authority, one for a serving certificate, their serial numbers and the time.\<close>

record randomness =
  rnd_caKey :: "(gerr, string) res"
  rnd_serverKey :: "(gerr, string) res"
  rnd_caSerial :: int
  rnd_serverSerial :: int
  rnd_now :: instant

text \<open>
  The serial numbers are values of \<open>randomSerial\<close>: 128 random bits (\<open>rand.Int\<close> delivers a number below the limit), or the nanoseconds of the clock when there is no randomness.
\<close>

definition randomSerial :: "(gerr, int) res \<Rightarrow> int \<Rightarrow> int" where
  "randomSerial random unixNano = (case random of Inl e \<Rightarrow> unixNano | Inr serial \<Rightarrow> serial)"

lemma randomSerial_octets:
  assumes "\<And>serial. random = Inr serial \<Longrightarrow> 0 \<le> serial \<and> serial < 2 ^ 128" "0 \<le> unixNano" "unixNano \<le> max_int64"
  shows "0 \<le> randomSerial random unixNano \<and> randomSerial random unixNano < 2 ^ 128"
  using assms by (auto simp: randomSerial_def max_int64_def split: sum.splits)

record certificateAuthority =
  au_cert :: certificate
  au_key :: privateKey
  au_certPEM :: string
  au_keyPEM :: string

record servingCertificateMaterial =
  scm_caBundle :: string
  scm_revision :: string

definition rootCASecretName :: string where
  "rootCASecretName = ''supek8smcp-serving-ca''"

abbreviation day :: duration where
  "day \<equiv> 24 * hour"

abbreviation secret_field :: "Secret \<Rightarrow> string \<Rightarrow> string" where
  "secret_field secret key \<equiv> (case mget (sec_Data secret) key of Some v \<Rightarrow> v | None \<Rightarrow> [])"

section \<open>The root authority\<close>

definition ca_template :: "randomness \<Rightarrow> certificate" where
  "ca_template rnd =
     \<lparr>crt_SerialNumber = rnd_caSerial rnd, crt_CommonName = ''SupeK8sMCP Serving CA'', crt_DNSNames = [], crt_NotBefore = rnd_now rnd - 5 * minute,
      crt_NotAfter = rnd_now rnd + 5 * 365 * day, crt_DigitalSignature = True, crt_KeyEncipherment = False, crt_CertSign = True, crt_CRLSign = True,
      crt_ServerAuth = False, crt_IsCA = True, crt_PublicKey = None\<rparr>"

definition newCA :: "crypto \<Rightarrow> randomness \<Rightarrow> (gerr, certificateAuthority) res" where
  "newCA C rnd =
     (case rnd_caKey rnd of
        Inl e \<Rightarrow> Inl (Wrapped ''generate CA key'' e)
      | Inr pub \<Rightarrow>
         let template = ca_template rnd; key = ECDSAKey pub in
         (case cy_create C template template pub key of
            Inl e \<Rightarrow> Inl (Wrapped ''create CA certificate'' e)
          | Inr der \<Rightarrow>
             (case cy_marshalKey C key of
                Inl e \<Rightarrow> Inl (Wrapped ''marshal CA key'' e)
              | Inr keyDER \<Rightarrow>
                 Inr \<lparr>au_cert = template, au_key = key, au_certPEM = cy_pem C ''CERTIFICATE'' der, au_keyPEM = cy_pem C ''PRIVATE KEY'' keyDER\<rparr>)))"

definition parseCA :: "crypto \<Rightarrow> instant \<Rightarrow> string \<Rightarrow> string \<Rightarrow> (gerr, certificateAuthority) res" where
  "parseCA C now certPEM keyPEM =
     (case (cy_pemBlock C certPEM, cy_pemBlock C keyPEM) of
        (Some certBlock, Some keyBlock) \<Rightarrow>
          (case cy_parseCertificate C certBlock of
             Inl e \<Rightarrow> Inl (Wrapped ''parse CA certificate'' e)
           | Inr cert \<Rightarrow>
              (case cy_parseKey C keyBlock of
                 Inl e \<Rightarrow> Inl (Wrapped ''parse CA key'' e)
               | Inr (OtherKey pub) \<Rightarrow> Inl (Plain ''operator CA key is not ECDSA'')
               | Inr (ECDSAKey pub) \<Rightarrow>
                  if crt_PublicKey cert \<noteq> Some pub then Inl (Plain ''operator CA certificate and key do not match'')
                  else if \<not> crt_IsCA cert \<or> \<not> crt_CertSign cert then Inl (Plain ''operator CA certificate is not valid for certificate signing'')
                  else if now < crt_NotBefore cert \<or> crt_NotAfter cert < now then Inl (Plain ''operator CA certificate is not currently valid'')
                  else Inr \<lparr>au_cert = cert, au_key = ECDSAKey pub, au_certPEM = certPEM, au_keyPEM = keyPEM\<rparr>))
      | _ \<Rightarrow> Inl (Plain ''operator CA Secret contains invalid PEM''))"

definition is_already_exists :: "gerr \<Rightarrow> bool" where
  "is_already_exists e = (status_reason e = Some AlreadyExists)"

definition stored_CA :: "crypto \<Rightarrow> instant \<Rightarrow> Secret \<Rightarrow> (gerr, certificateAuthority) res" where
  "stored_CA C now secret = parseCA C now (secret_field secret ''ca.crt'') (secret_field secret ''ca.key'')"

definition ca_secret :: "'w reconciler \<Rightarrow> certificateAuthority \<Rightarrow> Secret" where
  "ca_secret R ca =
     \<lparr>om_Name = rootCASecretName, om_Namespace = r_OperatorNamespace R, om_UID = [], om_ResourceVersion = [], om_Generation = 0, om_Labels = [], om_Annotations = [],
      om_Controller = None, sec_Type = ''Opaque'', sec_Data = [(''ca.crt'', au_certPEM ca), (''ca.key'', au_keyPEM ca)]\<rparr>"

definition ensureRootCA :: "crypto \<Rightarrow> randomness \<Rightarrow> 'w reconciler \<Rightarrow> ('w, gerr, certificateAuthority) io" where
  "ensureRootCA C rnd R =
     bindE (tryE (oc_getSecret (r_client R) (r_OperatorNamespace R) rootCASecretName)) (\<lambda>found.
       case found of
         Inr secret \<Rightarrow> liftR (stored_CA C (rnd_now rnd) secret)
       | Inl e \<Rightarrow>
          if \<not> is_not_found e then raise (Wrapped ''get root CA'' e)
          else bindE (liftR (newCA C rnd)) (\<lambda>ca.
            bindE (tryE (oc_createSecret (r_client R) (ca_secret R ca))) (\<lambda>created.
              case created of
                Inr _ \<Rightarrow> ret ca
              | Inl err \<Rightarrow>
                 if is_already_exists err
                 then bindE (wrapE ''get concurrently-created root CA'' (oc_getSecret (r_client R) (r_OperatorNamespace R) rootCASecretName))
                        (\<lambda>secret. liftR (stored_CA C (rnd_now rnd) secret))
                 else raise (Wrapped ''create root CA'' err))))"

section \<open>Serving certificates\<close>

definition service_dns :: "KubernetesMCPServer \<Rightarrow> string" where
  "service_dns server = srv_Name server @ ''.'' @ srv_Namespace server @ ''.svc''"

definition server_template :: "randomness \<Rightarrow> KubernetesMCPServer \<Rightarrow> certificate" where
  "server_template rnd server =
     \<lparr>crt_SerialNumber = rnd_serverSerial rnd, crt_CommonName = service_dns server,
      crt_DNSNames = [srv_Name server, srv_Name server @ ''.'' @ srv_Namespace server, service_dns server, service_dns server @ ''.cluster.local''],
      crt_NotBefore = rnd_now rnd - 5 * minute, crt_NotAfter = rnd_now rnd + 90 * day, crt_DigitalSignature = True, crt_KeyEncipherment = True,
      crt_CertSign = False, crt_CRLSign = False, crt_ServerAuth = True, crt_IsCA = False, crt_PublicKey = None\<rparr>"

definition signServer :: "crypto \<Rightarrow> randomness \<Rightarrow> certificateAuthority \<Rightarrow> KubernetesMCPServer \<Rightarrow> (gerr, string \<times> string) res" where
  "signServer C rnd ca server =
     (case rnd_serverKey rnd of
        Inl e \<Rightarrow> Inl (Wrapped ''generate serving key'' e)
      | Inr pub \<Rightarrow>
         (case cy_create C (server_template rnd server) (au_cert ca) pub (au_key ca) of
            Inl e \<Rightarrow> Inl (Wrapped ''sign serving certificate'' e)
          | Inr der \<Rightarrow>
             (case cy_marshalKey C (ECDSAKey pub) of
                Inl e \<Rightarrow> Inl (Wrapped ''marshal serving key'' e)
              | Inr keyDER \<Rightarrow> Inr (cy_pem C ''CERTIFICATE'' der, cy_pem C ''PRIVATE KEY'' keyDER))))"

definition validateServingTLS :: "crypto \<Rightarrow> Secret \<Rightarrow> KubernetesMCPServer \<Rightarrow> string \<Rightarrow> gerr option" where
  "validateServingTLS C secret server caBundle =
     (case cy_keyPair C (secret_field secret ''tls.crt'') (secret_field secret ''tls.key'') of
        Inl e \<Rightarrow> Some (Wrapped ''parse certificate and private key'' e)
      | Inr [] \<Rightarrow> Some (Plain ''tls.crt contains no certificate'')
      | Inr (der # chain) \<Rightarrow>
         (case cy_parseCertificate C der of
            Inl e \<Rightarrow> Some (Wrapped ''parse serving certificate'' e)
          | Inr leaf \<Rightarrow>
             if cy_pool C caBundle = [] then Some (Plain ''ca.crt contains no certificate'')
             else (case mapR (cy_parseCertificate C) chain of
                Inl e \<Rightarrow> Some (Wrapped ''parse certificate chain'' e)
              | Inr intermediates \<Rightarrow>
                 map_option (Wrapped (''verify certificate for '' @ service_dns server))
                   (cy_verify C leaf (service_dns server) (cy_pool C caBundle) intermediates))))"

definition validateConfiguredTLS :: "crypto \<Rightarrow> Secret \<Rightarrow> KubernetesMCPServer \<Rightarrow> gerr option" where
  "validateConfiguredTLS C secret server = validateServingTLS C secret server (secret_field secret ''ca.crt'')"

definition servingCertificateValid :: "crypto \<Rightarrow> instant \<Rightarrow> Secret \<Rightarrow> KubernetesMCPServer \<Rightarrow> string \<Rightarrow> duration \<Rightarrow> bool" where
  "servingCertificateValid C now secret server caBundle remaining =
     (sec_Type secret = ''kubernetes.io/tls'' \<and> validateServingTLS C secret server caBundle = None \<and>
      (case cy_keyPair C (secret_field secret ''tls.crt'') (secret_field secret ''tls.key'') of
         Inr (der # chain) \<Rightarrow> (case cy_parseCertificate C der of Inr cert \<Rightarrow> remaining \<le> time_sub (crt_NotAfter cert) now | Inl e \<Rightarrow> False)
       | _ \<Rightarrow> False))"

definition materialForSecret :: "(string \<Rightarrow> string) \<Rightarrow> Secret \<Rightarrow> string \<Rightarrow> servingCertificateMaterial" where
  "materialForSecret sha secret caBundle =
     \<lparr>scm_caBundle = caBundle,
      scm_revision = digestParts sha [secret_field secret ''tls.crt'', secret_field secret ''tls.key'', om_ResourceVersion secret]\<rparr>"

definition tls_type_error :: "string \<Rightarrow> gerr" where
  "tls_type_error name = Plain (''TLS Secret '' @ name @ '' must have type kubernetes.io/tls'')"

definition configured_certificate :: "crypto \<Rightarrow> 'w reconciler \<Rightarrow> KubernetesMCPServer \<Rightarrow> Secret \<Rightarrow> (gerr, servingCertificateMaterial) res" where
  "configured_certificate C R server secret =
     (let name = TLSSecretName server in
      if sec_Type secret \<noteq> ''kubernetes.io/tls'' then Inl (tls_type_error name)
      else if secret_field secret ''tls.crt'' = [] \<or> secret_field secret ''tls.key'' = [] \<or> secret_field secret ''ca.crt'' = []
        then Inl (Plain (''TLS Secret '' @ name @ '' must contain tls.crt, tls.key, and ca.crt''))
      else (case validateConfiguredTLS C secret server of
         Some e \<Rightarrow> Inl (Wrapped (''validate TLS Secret '' @ name) e)
       | None \<Rightarrow> Inr (materialForSecret (r_sha R) secret (secret_field secret ''ca.crt''))))"

definition label_secret :: "KubernetesMCPServer \<Rightarrow> Secret \<Rightarrow> Secret" where
  "label_secret server secret = secret\<lparr>om_Labels := ServerLabels server\<rparr>"

definition mutate_secret_labels :: "'w reconciler \<Rightarrow> KubernetesMCPServer \<Rightarrow> Secret \<Rightarrow> (gerr, Secret) res" where
  "mutate_secret_labels R server = mutate_owned R server (label_secret server)"

definition fill_secret :: "KubernetesMCPServer \<Rightarrow> certificateAuthority \<Rightarrow> string \<times> string \<Rightarrow> Secret \<Rightarrow> Secret" where
  "fill_secret server ca pair secret =
     secret\<lparr>om_Namespace := srv_Namespace server, om_Name := TLSSecretName server, om_Labels := ServerLabels server, sec_Type := ''kubernetes.io/tls'',
       sec_Data := [(''tls.crt'', fst pair), (''tls.key'', snd pair), (''ca.crt'', au_certPEM ca)]\<rparr>"

definition mutate_secret :: "'w reconciler \<Rightarrow> KubernetesMCPServer \<Rightarrow> certificateAuthority \<Rightarrow> string \<times> string \<Rightarrow> Secret \<Rightarrow> (gerr, Secret) res" where
  "mutate_secret R server ca pair = mutate_owned R server (fill_secret server ca pair)"

interpretation labelling: owned_mutation server "label_secret server" "mutate_secret_labels R server" for R server
  unfolding mutate_secret_labels_def by (rule mutate_owned_contract)

interpretation filling: owned_mutation server "fill_secret server ca pair" "mutate_secret R server ca pair" for R server ca pair
  unfolding mutate_secret_def by (rule mutate_owned_contract)

text \<open>The managed certificate, given what reading its Secret returned.\<close>

definition managed_certificate ::
  "crypto \<Rightarrow> randomness \<Rightarrow> 'w reconciler \<Rightarrow> KubernetesMCPServer \<Rightarrow> certificateAuthority \<Rightarrow> (gerr, Secret) res \<Rightarrow> ('w, gerr, servingCertificateMaterial) io" where
  "managed_certificate C rnd R server ca found =
     (let apply_secret = oc_applySecret (r_client R) (srv_Namespace server) (TLSSecretName server);
          sign = bindE (liftR (signServer C rnd ca server)) (\<lambda>pair.
            bindE (wrapE ''reconcile serving certificate'' (apply_secret (mutate_secret R server ca pair)))
              (\<lambda>secret. ret (materialForSecret (r_sha R) secret (au_certPEM ca)))) in
      case found of
        Inl e \<Rightarrow> if is_not_found e then sign else raise (Wrapped ''get serving certificate'' e)
      | Inr secret \<Rightarrow>
         (case requireControllerOwnership server secret of
            Some e \<Rightarrow> raise (Wrapped ''validate managed serving certificate ownership'' e)
          | None \<Rightarrow>
             if servingCertificateValid C (rnd_now rnd) secret server (au_certPEM ca) (30 * day)
             then bindE (wrapE ''reconcile serving certificate metadata'' (apply_secret (mutate_secret_labels R server)))
                    (\<lambda>secret'. ret (materialForSecret (r_sha R) secret' (au_certPEM ca)))
             else sign))"

definition ensureServingCertificate ::
  "crypto \<Rightarrow> randomness \<Rightarrow> 'w reconciler \<Rightarrow> KubernetesMCPServer \<Rightarrow> certificateAuthority option \<Rightarrow> ('w, gerr, servingCertificateMaterial) io" where
  "ensureServingCertificate C rnd R server ca =
     (let get = oc_getSecret (r_client R) (srv_Namespace server) (TLSSecretName server) in
      if SecretName (spec_TLS (srv_Spec server)) \<noteq> [] then
        bindE (wrapE ''get configured TLS Secret'' get) (\<lambda>secret. liftR (configured_certificate C R server secret))
      else (case ca of
         None \<Rightarrow> raise (Plain ''operator CA is required for a managed serving certificate'')
       | Some authority \<Rightarrow> bindE (tryE get) (managed_certificate C rnd R server authority)))"

section \<open>Lemmas and properties: the serving certificate\<close>

text \<open>
  Hypotheses. \<open>signs\<close> is what X.509 signing gives: a certificate that the authority signed forms a key pair with the key it was made for, reads back as its template with that
  public key, and verifies against the authority's own bundle for the names and the time of the template. \<open>reads_back\<close>: nobody else changes the Secret between its
  reading and the change, and the API keeps type and data.
\<close>

definition signs :: "crypto \<Rightarrow> instant \<Rightarrow> certificateAuthority \<Rightarrow> bool" where
  "signs C now ca =
     (cy_pool C (au_certPEM ca) \<noteq> [] \<and>
      (\<forall>t pub der keyDER. cy_create C t (au_cert ca) pub (au_key ca) = Inr der \<longrightarrow> cy_marshalKey C (ECDSAKey pub) = Inr keyDER \<longrightarrow>
         cy_keyPair C (cy_pem C ''CERTIFICATE'' der) (cy_pem C ''PRIVATE KEY'' keyDER) = Inr [der] \<and>
         cy_parseCertificate C der = Inr (t\<lparr>crt_PublicKey := Some pub\<rparr>) \<and>
         (\<forall>dns. dns \<in> set (crt_DNSNames t) \<and> crt_ServerAuth t \<and> crt_NotBefore t \<le> now \<and> now \<le> crt_NotAfter t \<longrightarrow>
            cy_verify C (t\<lparr>crt_PublicKey := Some pub\<rparr>) dns (cy_pool C (au_certPEM ca)) [] = None)))"

definition reads_back :: "('w, Secret) getter \<Rightarrow> ('w, Secret) applier \<Rightarrow> bool" where
  "reads_back get app =
     (\<forall>ns name w secret w1 f x w'. get ns name w = (Inr secret, w1) \<longrightarrow> app ns name f w1 = (Inr x, w') \<longrightarrow>
        (\<exists>new. f secret = Inr new \<and> sec_Type x = sec_Type new \<and> sec_Data x = sec_Data new))"

lemma servingCertificateValid_cong:
  "sec_Type s = sec_Type s' \<Longrightarrow> sec_Data s = sec_Data s' \<Longrightarrow>
     servingCertificateValid C now s server bundle remaining = servingCertificateValid C now s' server bundle remaining"
  by (simp add: servingCertificateValid_def validateServingTLS_def)

lemma signed_valid:
  assumes "signs C (rnd_now rnd) ca" "signServer C rnd ca server = Inr (certPEM, keyPEM)"
    and "sec_Type x = ''kubernetes.io/tls''" "sec_Data x = [(''tls.crt'', certPEM), (''tls.key'', keyPEM), (''ca.crt'', au_certPEM ca)]"
  shows "servingCertificateValid C (rnd_now rnd) x server (au_certPEM ca) (30 * day)"
proof -
  obtain pub der keyDER where pair: "cy_create C (server_template rnd server) (au_cert ca) pub (au_key ca) = Inr der"
    "cy_marshalKey C (ECDSAKey pub) = Inr keyDER" "certPEM = cy_pem C ''CERTIFICATE'' der" "keyPEM = cy_pem C ''PRIVATE KEY'' keyDER"
    using assms(2) by (auto simp: signServer_def split: sum.splits)
  have names: "service_dns server \<in> set (crt_DNSNames (server_template rnd server)) \<and> crt_ServerAuth (server_template rnd server) \<and>
      crt_NotBefore (server_template rnd server) \<le> rnd_now rnd \<and> rnd_now rnd \<le> crt_NotAfter (server_template rnd server)"
    by (simp add: server_template_def)
  have crypto: "cy_keyPair C certPEM keyPEM = Inr [der]" "cy_pool C (au_certPEM ca) \<noteq> []"
    "cy_parseCertificate C der = Inr ((server_template rnd server)\<lparr>crt_PublicKey := Some pub\<rparr>)"
    "cy_verify C ((server_template rnd server)\<lparr>crt_PublicKey := Some pub\<rparr>) (service_dns server) (cy_pool C (au_certPEM ca)) [] = None"
    using assms(1) pair names unfolding signs_def by blast+
  then show ?thesis
    using assms(3, 4) by (simp add: servingCertificateValid_def validateServingTLS_def mget_def server_template_def time_sub_def sat64_def max_int64_def)
qed

lemma configured_valid:
  "configured_certificate C R server secret = Inr material \<Longrightarrow>
     material = materialForSecret (r_sha R) secret (scm_caBundle material) \<and> sec_Type secret = ''kubernetes.io/tls'' \<and>
     validateServingTLS C secret server (scm_caBundle material) = None"
  by (auto simp: configured_certificate_def validateConfiguredTLS_def materialForSecret_def Let_def split: if_splits option.splits)

lemma managed_certificate_valid:
  assumes "signs C (rnd_now rnd) ca" "reads_back get (oc_applySecret (r_client R))" "runs_mutation (\<lambda>s. (sec_Type s, sec_Data s)) (oc_applySecret (r_client R))"
    and get: "get (srv_Namespace server) (TLSSecretName server) w = (found, w1)"
    and run: "managed_certificate C rnd R server ca found w1 = (Inr material, w')"
  shows "\<exists>secret. material = materialForSecret (r_sha R) secret (au_certPEM ca) \<and> servingCertificateValid C (rnd_now rnd) secret server (au_certPEM ca) (30 * day)"
proof -
  let ?apply = "oc_applySecret (r_client R) (srv_Namespace server) (TLSSecretName server)"
  consider (sign) pair x where "signServer C rnd ca server = Inr pair" "?apply (mutate_secret R server ca pair) w1 = (Inr x, w')"
        "material = materialForSecret (r_sha R) x (au_certPEM ca)"
    | (keep) secret x where "found = Inr secret" "servingCertificateValid C (rnd_now rnd) secret server (au_certPEM ca) (30 * day)"
        "?apply (mutate_secret_labels R server) w1 = (Inr x, w')" "material = materialForSecret (r_sha R) x (au_certPEM ca)"
    using run unfolding managed_certificate_def
    by (auto simp: Let_def wrapE_Inr ret_Inr_iff liftR_Inr_iff io_simps(2) split: sum.splits option.splits if_splits elim!: bindE_InrE)
  then show ?thesis
  proof cases
    case sign
    from filling.applied_as [OF assms(3) sign(2)] have "sec_Type x = ''kubernetes.io/tls''"
      "sec_Data x = [(''tls.crt'', fst pair), (''tls.key'', snd pair), (''ca.crt'', au_certPEM ca)]"
      by (auto simp: fill_secret_def)
    with signed_valid [OF assms(1), of server "fst pair" "snd pair" x] sign show ?thesis by auto
  next
    case keep
    from assms(2) get keep(1, 3) obtain new where "mutate_secret_labels R server secret = Inr new" "sec_Type x = sec_Type new" "sec_Data x = sec_Data new"
      unfolding reads_back_def by blast
    then have "sec_Type x = sec_Type secret" "sec_Data x = sec_Data secret" by (auto simp: label_secret_def dest!: labelling.accepts)
    with servingCertificateValid_cong keep show ?thesis by blast
  qed
qed


text \<open>An authority with one key that signs the certificate of one server, and a client with an empty cluster.\<close>

definition sample_now :: randomness where
  "sample_now = \<lparr>rnd_caKey = Inr ''ca'', rnd_serverKey = Inr ''pub'', rnd_caSerial = 1, rnd_serverSerial = 2, rnd_now = 0\<rparr>"

definition sample_leaf :: certificate where
  "sample_leaf = (server_template sample_now sample_server)\<lparr>crt_PublicKey := Some ''pub''\<rparr>"

definition sample_authority :: certificateAuthority where
  "sample_authority = \<lparr>au_cert = ca_template sample_now, au_key = ECDSAKey ''ca'', au_certPEM = ''ca.pem'', au_keyPEM = ''ca.key''\<rparr>"

definition sample_x509 :: crypto where
  "sample_x509 =
     \<lparr>cy_keyPair = (\<lambda>c k. if c = ''leaf'' \<and> k = ''pub'' then Inr [''leaf''] else Inl (Plain ''no key pair'')),
      cy_parseCertificate = (\<lambda>d. if d = ''leaf'' then Inr sample_leaf else Inl (Plain ''unreadable'')),
      cy_pool = (\<lambda>p. if p = ''ca.pem'' then [au_cert sample_authority] else []),
      cy_verify = (\<lambda>l dns roots i. if dns \<in> set (crt_DNSNames l) \<and> roots \<noteq> [] then None else Some (Plain ''unknown authority'')),
      cy_pemBlock = Some, cy_pem = (\<lambda>t b. b), cy_parseKey = (\<lambda>b. Inr (ECDSAKey b)),
      cy_marshalKey = (\<lambda>k. case k of ECDSAKey pub \<Rightarrow> Inr pub | OtherKey pub \<Rightarrow> Inl (Plain ''unsupported'')),
      cy_create = (\<lambda>t p pub k. if t = server_template sample_now sample_server \<and> pub = ''pub'' then Inr ''leaf'' else Inl (Plain ''refused''))\<rparr>"

definition sample_vault :: "unit reconciler" where
  "sample_vault =
     \<lparr>r_client =
        \<lparr>oc_getServer = (\<lambda>ns n. raise Canceled), oc_updateServer = (\<lambda>s. ret ()), oc_updateStatus = (\<lambda>s. ret ()), oc_getService = (\<lambda>ns n. raise Canceled),
         oc_applyService = (\<lambda>ns n f. raise Canceled), oc_getServiceAccount = (\<lambda>ns n. raise Canceled), oc_applyServiceAccount = (\<lambda>ns n f. raise Canceled),
         oc_applyConfigMap = (\<lambda>ns n f. raise Canceled), oc_getDeployment = (\<lambda>ns n. raise Canceled), oc_applyDeployment = (\<lambda>ns n f. raise Canceled),
         oc_patchDeployment = (\<lambda>b d. ret ()), oc_getNetworkPolicy = (\<lambda>ns n. raise Canceled), oc_applyNetworkPolicy = (\<lambda>ns n f. raise Canceled),
         oc_deleteNetworkPolicy = (\<lambda>ns n u. ret ()), oc_getClusterRole = (\<lambda>ns n. raise Canceled), oc_getBinding = (\<lambda>ns n. raise Canceled),
         oc_applyBinding = (\<lambda>ns n f. raise Canceled), oc_deleteBinding = (\<lambda>n. ret ()), oc_getSecret = (\<lambda>ns n. raise (StatusError NotFound [])),
         oc_createSecret = (\<lambda>s. ret ()),
         oc_applySecret = (\<lambda>ns n f. liftR (f \<lparr>om_Name = n, om_Namespace = ns, om_UID = [], om_ResourceVersion = [], om_Generation = 0, om_Labels = [],
           om_Annotations = [], om_Controller = None, sec_Type = [], sec_Data = []\<rparr>))\<rparr>,
      r_ServerImage = ''img'', r_OperatorNamespace = ''op'', r_sha = (\<lambda>s. take 8 s), r_ref_error = (\<lambda>s c. None), r_encode_config = (\<lambda>c. [])\<rparr>"


end
