(* ===== verification/Reconciler.thy ===== *)
theory Reconciler
  imports Certificates Admission
begin

text \<open>
  The reconciler of the operator (\<open>internal/operator/reconciler.go\<close>): the Service that gates traffic by revision, the delegated authentication, the owned objects, the shutdown of a server that cannot be
  reconciled, and the finalizer.

  Logging and the watches that start a reconciliation are left out. Conditions are a map by type without their time stamps.
\<close>

section \<open>Constants and helpers\<close>

definition serverFinalizer :: string where
  "serverFinalizer = ''mcp.supek8smcp.io/cluster-resources''"

definition tokenReviewerClusterRole :: string where
  "tokenReviewerClusterRole = ''supek8smcp-tokenreviewer''"

definition serverRevisionLabel :: string where
  "serverRevisionLabel = ''mcp.supek8smcp.io/revision''"

definition serverPolicyRevision :: string where
  "serverPolicyRevision = ''mcp.supek8smcp.io/policy-revision''"

definition disabledServerRevision :: string where
  "disabledServerRevision = ''disabled''"

definition serverPodLabels :: "(string \<times> string) list \<Rightarrow> string \<Rightarrow> (string \<times> string) list" where
  "serverPodLabels labels revision = mput labels serverRevisionLabel revision"

definition exactStrings :: "string list \<Rightarrow> string list \<Rightarrow> bool" where
  "exactStrings actual expected = (length actual = length expected \<and> sort actual = sort expected)"

definition validTokenReviewerRole :: "ClusterRole \<Rightarrow> bool" where
  "validTokenReviewerRole role =
     (cr_AggregationRule role = None \<and>
      (case cr_Rules role of
         [rule] \<Rightarrow> exactStrings (pr_APIGroups rule) [''authentication.k8s.io''] \<and> exactStrings (pr_Resources rule) [''tokenreviews''] \<and>
           exactStrings (pr_Verbs rule) [''create''] \<and> pr_ResourceNames rule = [] \<and> pr_NonResourceURLs rule = []
       | _ \<Rightarrow> False))"

definition label_value :: "(string \<times> string) list \<Rightarrow> string \<Rightarrow> string" where
  "label_value m key = (case mget m key of Some v \<Rightarrow> v | None \<Rightarrow> [])"

section \<open>Services\<close>

definition service_ports :: "servicePort list" where
  "service_ports =
     [\<lparr>sp_PortName = ''mcp'', sp_Port = 8443, sp_TargetPort = 8443, sp_Protocol = ''TCP''\<rparr>,
      \<lparr>sp_PortName = ''metrics'', sp_Port = 9090, sp_TargetPort = 9090, sp_Protocol = ''TCP''\<rparr>]"

definition service_change :: "(string \<times> string) list \<Rightarrow> string \<Rightarrow> string \<Rightarrow> Service \<Rightarrow> Service" where
  "service_change labels policyRev workloadRevision service =
     service\<lparr>om_Labels := labels, om_Annotations := mput (om_Annotations service) serverPolicyRevision policyRev, sv_Type := ''ClusterIP'',
       sv_Selector := serverPodLabels labels workloadRevision, sv_ExternalName := [], sv_ExternalIPs := [], sv_LoadBalancerIP := [],
       sv_LoadBalancerSourceRanges := [], sv_LoadBalancerClass := None, sv_AllocateLoadBalancerNodePorts := None, sv_HealthCheckNodePort := 0,
       sv_ExternalTrafficPolicy := [], sv_Ports := service_ports\<rparr>"

definition mutate_service ::
  "'w reconciler \<Rightarrow> KubernetesMCPServer \<Rightarrow> (string \<times> string) list \<Rightarrow> string \<Rightarrow> string \<Rightarrow> Service \<Rightarrow> (gerr, Service) res" where
  "mutate_service R server labels policyRev workloadRevision = mutate_owned R server (service_change labels policyRev workloadRevision)"

interpretation service_mutation: owned_mutation server "service_change labels policyRev revision" "mutate_service R server labels policyRev revision"
  for R server labels policyRev revision
  unfolding mutate_service_def by (rule mutate_owned_contract)

definition reconcileService ::
  "'w reconciler \<Rightarrow> KubernetesMCPServer \<Rightarrow> (string \<times> string) list \<Rightarrow> string \<Rightarrow> string \<Rightarrow> ('w, gerr, unit) io" where
  "reconcileService R server labels policyRev workloadRevision =
     bindE (wrapE ''reconcile Service'' (oc_applyService (r_client R) (srv_Namespace server) (srv_Name server)
              (mutate_service R server labels policyRev workloadRevision))) (\<lambda>_. ret ())"

definition gate_revision :: "Service \<Rightarrow> string \<Rightarrow> string" where
  "gate_revision service policyRev =
     (let targetRevision = label_value (sv_Selector service) serverRevisionLabel in
      if label_value (om_Annotations service) serverPolicyRevision \<noteq> policyRev \<or> targetRevision = [] \<or> targetRevision = disabledServerRevision
      then disabledServerRevision else targetRevision)"

definition reconcileServiceGate :: "'w reconciler \<Rightarrow> KubernetesMCPServer \<Rightarrow> (string \<times> string) list \<Rightarrow> string \<Rightarrow> ('w, gerr, unit) io" where
  "reconcileServiceGate R server labels policyRev =
     bindE (tryE (oc_getService (r_client R) (srv_Namespace server) (srv_Name server))) (\<lambda>found.
       case found of
         Inl e \<Rightarrow> if is_not_found e then reconcileService R server labels policyRev disabledServerRevision else raise (Wrapped ''get Server Service'' e)
       | Inr service \<Rightarrow> reconcileService R server labels policyRev (gate_revision service policyRev))"

section \<open>Delegated authentication\<close>

definition reconcileServiceAccount :: "'w reconciler \<Rightarrow> KubernetesMCPServer \<Rightarrow> (string \<times> string) list \<Rightarrow> ('w, gerr, unit) io" where
  "reconcileServiceAccount R server labels =
     bindE (wrapE ''reconcile ServiceAccount'' (oc_applyServiceAccount (r_client R) (srv_Namespace server) (srv_Name server)
              (mutate_owned R server (\<lambda>account. account\<lparr>om_Labels := labels, sa_Automount := Some True\<rparr>)))) (\<lambda>_. ret ())"

text \<open>Only the text of this error is used.\<close>

definition rejectDelegatedAuthentication :: "'w reconciler \<Rightarrow> string \<Rightarrow> gerr \<Rightarrow> ('w, gerr, unit) io" where
  "rejectDelegatedAuthentication R name cause =
     bindE (tryE (oc_deleteBinding (r_client R) name)) (\<lambda>deleted.
       case unless_missing deleted of
         Some e \<Rightarrow> raise (Plain (error_text cause @ ''; remove existing TokenReview binding: '' @ error_text e))
       | None \<Rightarrow> raise cause)"

definition expectedRoleRef :: roleRef where
  "expectedRoleRef = \<lparr>rr_APIGroup = ''rbac.authorization.k8s.io'', rr_Kind = ''ClusterRole'', rr_Name = tokenReviewerClusterRole\<rparr>"

definition mutate_binding :: "KubernetesMCPServer \<Rightarrow> ClusterRoleBinding \<Rightarrow> (gerr, ClusterRoleBinding) res" where
  "mutate_binding server binding =
     Inr (binding\<lparr>om_Labels := ServerLabels server, rb_RoleRef := expectedRoleRef,
       rb_Subjects := [\<lparr>rs_Kind = ''ServiceAccount'', rs_Name = srv_Name server, rs_Namespace = srv_Namespace server\<rparr>]\<rparr>)"

definition reconcileBinding :: "'w reconciler \<Rightarrow> KubernetesMCPServer \<Rightarrow> ('w, gerr, unit) io" where
  "reconcileBinding R server =
     (let name = clusterBindingName (r_sha R) server; reject = rejectDelegatedAuthentication R name;
          apply_binding = bindE (tryE (oc_applyBinding (r_client R) [] name (mutate_binding server))) (\<lambda>applied.
            case applied of Inl e \<Rightarrow> reject (Wrapped ''reconcile TokenReview binding'' e) | Inr _ \<Rightarrow> ret ()) in
      bindE (tryE (oc_getBinding (r_client R) [] name)) (\<lambda>found.
        case found of
          Inl e \<Rightarrow> if is_not_found e then apply_binding else reject (Wrapped ''get TokenReview binding'' e)
        | Inr binding \<Rightarrow>
           if rb_RoleRef binding \<noteq> expectedRoleRef
           then bindE (tryE (oc_deleteBinding (r_client R) name)) (\<lambda>deleted.
                  case unless_missing deleted of
                    Some e \<Rightarrow> raise (Wrapped ''remove TokenReview binding with unexpected roleRef'' e)
                  | None \<Rightarrow> raise (Plain ''removed TokenReview binding with unexpected roleRef; waiting to recreate it safely''))
           else apply_binding))"

definition reconcileDelegatedAuthentication :: "'w reconciler \<Rightarrow> KubernetesMCPServer \<Rightarrow> ('w, gerr, unit) io" where
  "reconcileDelegatedAuthentication R server =
     (let reject = rejectDelegatedAuthentication R (clusterBindingName (r_sha R) server) in
      bindE (tryE (oc_getServiceAccount (r_client R) (srv_Namespace server) (srv_Name server))) (\<lambda>account.
      case account of
        Inl e \<Rightarrow> reject (Wrapped ''get Server ServiceAccount'' e)
      | Inr serviceAccount \<Rightarrow>
      (case requireControllerOwnership server serviceAccount of
        Some e \<Rightarrow> reject (Wrapped ''validate Server ServiceAccount ownership'' e)
      | None \<Rightarrow>
      bindE (tryE (oc_getClusterRole (r_client R) [] tokenReviewerClusterRole)) (\<lambda>found.
      case found of
        Inl e \<Rightarrow> reject (Wrapped ''get TokenReview ClusterRole'' e)
      | Inr role \<Rightarrow>
         if \<not> validTokenReviewerRole role
         then reject (Plain (''ClusterRole '' @ tokenReviewerClusterRole @ '' must grant only authentication.k8s.io tokenreviews.create''))
         else reconcileBinding R server))))"

section \<open>Owned objects\<close>

definition probe :: "string \<Rightarrow> gval" where
  "probe path =
     GObj [(''httpGet'', GObj [(''path'', GStr path), (''port'', GStr ''metrics''), (''scheme'', GStr ''HTTP'')]),
       (''timeoutSeconds'', GInt 1), (''periodSeconds'', GInt 10), (''successThreshold'', GInt 1), (''failureThreshold'', GInt 3)]"

text \<open>Quantities appear as numbers, in the unit of \<open>quantity\<close>.\<close>

definition resource_list :: "resourceList \<Rightarrow> gval" where
  "resource_list rs = GObj (map (\<lambda>(name, q). (name, GInt q)) rs)"

definition server_container :: "'w reconciler \<Rightarrow> KubernetesMCPServer \<Rightarrow> gval" where
  "server_container R server =
     (let resources = ServerResources (srv_Spec server) in
      GObj [(''name'', GStr ''server''), (''image'', GStr (r_ServerImage R)), (''imagePullPolicy'', GStr ''IfNotPresent''), (''args'', GStrs [''serve'']),
        (''ports'', GArr [GObj [(''name'', GStr ''mcp''), (''containerPort'', GInt 8443), (''protocol'', GStr ''TCP'')],
           GObj [(''name'', GStr ''metrics''), (''containerPort'', GInt 9090), (''protocol'', GStr ''TCP'')]]),
        (''readinessProbe'', probe ''/readyz''), (''livenessProbe'', probe ''/healthz''),
        (''terminationMessagePath'', GStr ''/dev/termination-log''), (''terminationMessagePolicy'', GStr ''File''),
        (''securityContext'', GObj [(''allowPrivilegeEscalation'', GBool False), (''readOnlyRootFilesystem'', GBool True),
           (''capabilities'', GObj [(''drop'', GStrs [''ALL''])])]),
        (''resources'', GObj [(''requests'', resource_list (Requests resources)), (''limits'', resource_list (Limits resources))]),
        (''volumeMounts'', GArr [GObj [(''name'', GStr ''config''), (''mountPath'', GStr ''/etc/supek8smcp/config''), (''readOnly'', GBool True)],
           GObj [(''name'', GStr ''tls''), (''mountPath'', GStr ''/etc/supek8smcp/tls''), (''readOnly'', GBool True)],
           GObj [(''name'', GStr ''tmp''), (''mountPath'', GStr ''/tmp'')]])])"

definition server_pod_spec :: "'w reconciler \<Rightarrow> KubernetesMCPServer \<Rightarrow> gmap" where
  "server_pod_spec R server =
     [(''volumes'', GArr
        [GObj [(''name'', GStr ''config''), (''configMap'', GObj [(''name'', GStr (srv_Name server @ ''-config'')), (''defaultMode'', GInt 288)])],
         GObj [(''name'', GStr ''tls''), (''secret'', GObj [(''secretName'', GStr (TLSSecretName server)), (''defaultMode'', GInt 288)])],
         GObj [(''name'', GStr ''tmp''), (''emptyDir'', GObj [])]]),
      (''containers'', GArr [server_container R server]),
      (''restartPolicy'', GStr ''Always''), (''terminationGracePeriodSeconds'', GInt 30), (''dnsPolicy'', GStr ''ClusterFirst''),
      (''serviceAccountName'', GStr (srv_Name server)), (''serviceAccount'', GStr (srv_Name server)), (''automountServiceAccountToken'', GBool True),
      (''securityContext'', GObj [(''runAsNonRoot'', GBool True), (''runAsUser'', GInt 65532), (''runAsGroup'', GInt 65532), (''fsGroup'', GInt 65532),
         (''seccompProfile'', GObj [(''type'', GStr ''RuntimeDefault'')])]),
      (''schedulerName'', GStr ''default-scheduler'')]"

definition deployment_change ::
  "'w reconciler \<Rightarrow> KubernetesMCPServer \<Rightarrow> (string \<times> string) list \<Rightarrow> string \<Rightarrow> string \<Rightarrow> string \<Rightarrow> Deployment \<Rightarrow> Deployment" where
  "deployment_change R server labels revision configRevision tlsRevision deployment =
     deployment\<lparr>om_Labels := labels, dp_Replicas := Some 1, dp_Selector := labels, dp_TemplateLabels := serverPodLabels labels revision,
       dp_TemplateAnnotations := [(''mcp.supek8smcp.io/config-hash'', configRevision), (''mcp.supek8smcp.io/tls-hash'', tlsRevision)],
       dp_Rollout := [(''strategy'', GObj [(''type'', GStr ''Recreate'')]), (''revisionHistoryLimit'', GInt 10), (''progressDeadlineSeconds'', GInt 600)],
       dp_PodSpec := server_pod_spec R server\<rparr>"

definition mutate_deployment ::
  "'w reconciler \<Rightarrow> KubernetesMCPServer \<Rightarrow> (string \<times> string) list \<Rightarrow> string \<Rightarrow> string \<Rightarrow> string \<Rightarrow> Deployment \<Rightarrow> (gerr, Deployment) res" where
  "mutate_deployment R server labels revision configRevision tlsRevision =
     mutate_owned R server (deployment_change R server labels revision configRevision tlsRevision)"

interpretation deployment_mutation: owned_mutation server "deployment_change R server labels revision configRevision tlsRevision"
    "mutate_deployment R server labels revision configRevision tlsRevision"
  for R server labels revision configRevision tlsRevision
  unfolding mutate_deployment_def by (rule mutate_owned_contract)

definition reconcileDeployment ::
  "'w reconciler \<Rightarrow> KubernetesMCPServer \<Rightarrow> (string \<times> string) list \<Rightarrow> string \<Rightarrow> string \<Rightarrow> string \<Rightarrow> ('w, gerr, int) io" where
  "reconcileDeployment R server labels revision configRevision tlsRevision =
     bindE (wrapE ''reconcile Deployment'' (oc_applyDeployment (r_client R) (srv_Namespace server) (srv_Name server)
              (mutate_deployment R server labels revision configRevision tlsRevision))) (\<lambda>deployment. ret (om_Generation deployment))"

definition labels_value :: "(string \<times> string) list \<Rightarrow> gval" where
  "labels_value m = GObj [(''matchLabels'', GObj (map (\<lambda>(k, v). (k, GStr v)) m))]"

text \<open>The peer of the ingress rule: an empty pod selector stands for the server's own namespace.\<close>

definition network_peer :: "NetworkPolicySpec \<Rightarrow> gmap" where
  "network_peer spec =
     (let peer = (case AllowedNamespaceSelector spec of Some sel \<Rightarrow> [(''namespaceSelector'', sel)] | None \<Rightarrow> [(''podSelector'', GObj [])])
      in case AllowedPodSelector spec of Some sel \<Rightarrow> mput peer ''podSelector'' sel | None \<Rightarrow> peer)"

definition network_policy_spec :: "KubernetesMCPServer \<Rightarrow> (string \<times> string) list \<Rightarrow> gmap" where
  "network_policy_spec server labels =
     [(''podSelector'', labels_value labels), (''policyTypes'', GStrs [''Ingress'']),
      (''ingress'', GArr [GObj [(''from'', GArr [GObj (network_peer (spec_NetworkPolicy (srv_Spec server)))]),
        (''ports'', GArr [GObj [(''port'', GInt 8443)], GObj [(''port'', GInt 9090)]])]])]"

definition reconcileNetworkPolicy :: "'w reconciler \<Rightarrow> KubernetesMCPServer \<Rightarrow> (string \<times> string) list \<Rightarrow> ('w, gerr, unit) io" where
  "reconcileNetworkPolicy R server labels =
     (let ns = srv_Namespace server; name = srv_Name server in
      if Enabled (spec_NetworkPolicy (srv_Spec server)) = Some False then
        bindE (tryE (oc_getNetworkPolicy (r_client R) ns name)) (\<lambda>found.
          case found of
            Inl e \<Rightarrow> if is_not_found e then ret () else raise (Wrapped ''get disabled NetworkPolicy'' e)
          | Inr policy \<Rightarrow>
             (case requireControllerOwnership server policy of
                Some e \<Rightarrow> raise (Wrapped ''refuse to delete disabled NetworkPolicy'' e)
              | None \<Rightarrow>
                 bindE (tryE (oc_deleteNetworkPolicy (r_client R) ns name (om_UID policy))) (\<lambda>deleted.
                   case unless_missing deleted of Some e \<Rightarrow> raise (Wrapped ''delete disabled NetworkPolicy'' e) | None \<Rightarrow> ret ())))
      else bindE (wrapE ''reconcile NetworkPolicy'' (oc_applyNetworkPolicy (r_client R) ns name
             (mutate_owned R server (\<lambda>policy. policy\<lparr>om_Labels := labels, np_Spec := network_policy_spec server labels\<rparr>)))) (\<lambda>_. ret ()))"

definition reconcileConfigMap :: "'w reconciler \<Rightarrow> KubernetesMCPServer \<Rightarrow> (string \<times> string) list \<Rightarrow> string \<Rightarrow> string \<times> string \<Rightarrow> ('w, gerr, ConfigMap) io" where
  "reconcileConfigMap R server labels suffix entry =
     oc_applyConfigMap (r_client R) (srv_Namespace server) (srv_Name server @ suffix)
       (mutate_owned R server (\<lambda>cm. cm\<lparr>om_Labels := labels, cm_Data := [entry]\<rparr>))"

definition reconcileResources ::
  "'w reconciler \<Rightarrow> KubernetesMCPServer \<Rightarrow> (string \<times> string) list \<Rightarrow> string \<Rightarrow> servingCertificateMaterial \<Rightarrow> ('w, gerr, int) io" where
  "reconcileResources R server labels policyRev certificate =
     bindE (liftR (Marshal (FromResource server))) (\<lambda>cfg.
     let configData = r_encode_config R cfg in
     bindE (wrapE ''reconcile server ConfigMap'' (reconcileConfigMap R server labels ''-config'' (''config.json'', configData))) (\<lambda>configMap.
     bindE (wrapE ''reconcile CA ConfigMap'' (reconcileConfigMap R server labels ''-ca'' (''ca.crt'', scm_caBundle certificate))) (\<lambda>_.
     bindE (reconcileNetworkPolicy R server labels) (\<lambda>_.
     let configRevision = digestParts (r_sha R) [configData, om_ResourceVersion configMap];
         workloadRevision = take 16 (digestParts (r_sha R) [policyRev, r_ServerImage R, configRevision, scm_revision certificate]) in
     bindE (reconcileDeployment R server labels workloadRevision configRevision (scm_revision certificate)) (\<lambda>deploymentGeneration.
     bindE (reconcileService R server labels policyRev workloadRevision) (\<lambda>_. ret deploymentGeneration))))))"

section \<open>Failure\<close>

definition setCondition :: "string \<Rightarrow> bool \<Rightarrow> string \<Rightarrow> string \<Rightarrow> serverObject \<Rightarrow> serverObject" where
  "setCondition condition_type status reason message server =
     server\<lparr>so_Conditions := mput (so_Conditions server) condition_type
       \<lparr>cd_Status = status, cd_Reason = reason, cd_Message = message, cd_ObservedGeneration = srv_Generation (so_Server server)\<rparr>\<rparr>"

text \<open>\<open>errors.Join\<close>: no error, or the texts of the errors on lines of their own.\<close>

definition join_errors :: "gerr list \<Rightarrow> gerr option" where
  "join_errors es = (if es = [] then None else Some (Plain (join [char_of (10 :: nat)] (map error_text es))))"

definition shutdown_deployment :: "'w reconciler \<Rightarrow> KubernetesMCPServer \<Rightarrow> ('w, gerr, unit) io" where
  "shutdown_deployment R server =
     bindE (tryE (oc_getDeployment (r_client R) (srv_Namespace server) (srv_Name server))) (\<lambda>found.
       case found of
         Inl e \<Rightarrow> if is_not_found e then ret () else raise (Wrapped ''get Server Deployment for shutdown'' e)
       | Inr deployment \<Rightarrow>
          if dp_Replicas deployment = Some 0 then ret ()
          else (case requireControllerOwnership server deployment of
             Some e \<Rightarrow> raise (Wrapped ''refuse to scale unowned Server Deployment'' e)
           | None \<Rightarrow>
              wrapE ''scale failed Server Deployment to zero'' (oc_patchDeployment (r_client R) deployment (deployment\<lparr>dp_Replicas := Some 0\<rparr>))))"

definition disableServer :: "'w reconciler \<Rightarrow> KubernetesMCPServer \<Rightarrow> 'w \<Rightarrow> gerr option \<times> 'w" where
  "disableServer R server w =
     (case wrapE ''disable Server Service'' (reconcileService R server (ServerLabels server) (policyRevision (r_sha R) server) disabledServerRevision) w of (r1, w1) \<Rightarrow>
      case shutdown_deployment R server w1 of (r2, w2) \<Rightarrow>
      (join_errors (List.map_filter err_of [r1, r2]), w2))"

record ctrlResult =
  res_Requeue :: bool
  res_RequeueAfter :: duration

definition failure_cause :: "gerr \<Rightarrow> gerr option \<Rightarrow> gerr" where
  "failure_cause cause gateErr =
     (case gateErr of None \<Rightarrow> cause | Some e \<Rightarrow> Plain (error_text cause @ [char_of (10 :: nat)] @ error_text e))"

definition failed_status :: "string \<Rightarrow> string \<Rightarrow> gerr \<Rightarrow> serverObject \<Rightarrow> serverObject" where
  "failed_status condition_type reason cause server =
     (setCondition ''Ready'' False reason (error_text cause) (setCondition condition_type False reason (error_text cause) server))
       \<lparr>so_ObservedGeneration := srv_Generation (so_Server server)\<rparr>"

text \<open>The result of the status update is dropped.\<close>

definition fail :: "'w reconciler \<Rightarrow> serverObject \<Rightarrow> string \<Rightarrow> string \<Rightarrow> gerr \<Rightarrow> ('w, gerr, ctrlResult) io" where
  "fail R server condition_type reason cause w =
     (case disableServer R (so_Server server) w of (gateErr, w1) \<Rightarrow>
        let cause' = failure_cause cause gateErr
        in (Inl cause', snd (oc_updateStatus (r_client R) (failed_status condition_type reason cause' server) w1)))"

definition orFail ::
  "'w reconciler \<Rightarrow> serverObject \<Rightarrow> string \<Rightarrow> string \<Rightarrow> ('w, gerr, 'a) io \<Rightarrow> ('a \<Rightarrow> ('w, gerr, ctrlResult) io) \<Rightarrow> ('w, gerr, ctrlResult) io" where
  "orFail R server condition_type reason m k w =
     (case m w of (Inl e, w') \<Rightarrow> fail R server condition_type reason e w' | (Inr x, w') \<Rightarrow> k x w')"

section \<open>Reconcile\<close>

definition finalize :: "'w reconciler \<Rightarrow> serverObject \<Rightarrow> ('w, gerr, ctrlResult) io" where
  "finalize R server =
     (let finished = \<lparr>res_Requeue = False, res_RequeueAfter = 0\<rparr> in
      if serverFinalizer \<notin> set (so_Finalizers server) then ret finished
      else bindE (tryE (oc_deleteBinding (r_client R) (clusterBindingName (r_sha R) (so_Server server)))) (\<lambda>deleted.
        case unless_missing deleted of
          Some e \<Rightarrow> raise e
        | None \<Rightarrow> bindE (oc_updateServer (r_client R) (server\<lparr>so_Finalizers := filter (\<lambda>f. f \<noteq> serverFinalizer) (so_Finalizers server)\<rparr>)) (\<lambda>_. ret finished)))"

definition deployment_ready :: "int \<Rightarrow> Deployment option \<Rightarrow> bool" where
  "deployment_ready deploymentGeneration found =
     (case found of None \<Rightarrow> False
      | Some d \<Rightarrow> om_Generation d = deploymentGeneration \<and> om_Generation d \<le> dp_ObservedGeneration d \<and> 1 \<le> dp_UpdatedReplicas d \<and> 1 \<le> dp_AvailableReplicas d)"

definition ready_status :: "bool \<Rightarrow> serverObject \<Rightarrow> serverObject" where
  "ready_status ready server =
     (let s1 = setCondition ''AuthReady'' True ''DelegatedAuthenticationReady'' ''TokenReview binding is ready''
            (setCondition ''TLSReady'' True ''CertificateReady'' ''serving certificate is ready'' server);
          s2 = (if ready then setCondition ''Ready'' True ''DeploymentAvailable'' ''MCP server is available'' s1
                else setCondition ''Ready'' False ''DeploymentUnavailable'' ''waiting for MCP server deployment'' s1)
      in s2\<lparr>so_ObservedGeneration := srv_Generation (so_Server server),
            so_Endpoint := ''https://'' @ so_Name server @ ''.'' @ so_Namespace server @ ''.svc:8443/mcp'',
            so_CAConfigMapName := so_Name server @ ''-ca''\<rparr>)"

definition report_status :: "'w reconciler \<Rightarrow> serverObject \<Rightarrow> int \<Rightarrow> ('w, gerr, ctrlResult) io" where
  "report_status R server deploymentGeneration =
     bindE (tryE (oc_getDeployment (r_client R) (so_Namespace server) (so_Name server))) (\<lambda>found.
       let report = (\<lambda>deployment. let ready = deployment_ready deploymentGeneration deployment in
         bindE (oc_updateStatus (r_client R) (ready_status ready server)) (\<lambda>_.
           ret \<lparr>res_Requeue = False, res_RequeueAfter = (if ready then 5 * minute else 5 * second)\<rparr>)) in
       case found of
         Inr deployment \<Rightarrow> report (Some deployment)
       | Inl e \<Rightarrow> if is_not_found e then report None else raise e)"

definition reconcile_active :: "crypto \<Rightarrow> randomness \<Rightarrow> 'w reconciler \<Rightarrow> serverObject \<Rightarrow> ('w, gerr, ctrlResult) io" where
  "reconcile_active C rnd R server =
     (let s = so_Server server; labels = ServerLabels s; policyRev = policyRevision (r_sha R) s in
      orFail R server ''Ready'' ''ServiceGateError'' (reconcileServiceGate R s labels policyRev) (\<lambda>_.
      orFail R server ''AuthReady'' ''DelegatedAuthenticationError''
        (bindE (tryE (reconcileServiceAccount R s labels)) (\<lambda>account.
           case account of
             Inl e \<Rightarrow> rejectDelegatedAuthentication R (clusterBindingName (r_sha R) s) (Wrapped ''reconcile Server ServiceAccount'' e)
           | Inr _ \<Rightarrow> ret ())) (\<lambda>_.
      orFail R server ''AuthReady'' ''DelegatedAuthenticationError'' (reconcileDelegatedAuthentication R s) (\<lambda>_.
      orFail R server ''TLSReady'' ''CAError''
        (if SecretName (spec_TLS (srv_Spec s)) = [] then bindE (ensureRootCA C rnd R) (\<lambda>ca. ret (Some ca)) else ret None) (\<lambda>ca.
      orFail R server ''TLSReady'' ''CertificateError'' (ensureServingCertificate C rnd R s ca) (\<lambda>certificate.
      orFail R server ''Ready'' ''ReconcileError'' (reconcileResources R s labels policyRev certificate) (\<lambda>deploymentGeneration.
      report_status R server deploymentGeneration)))))))"

text \<open>The server that was read: deleted, without the finalizer, or active.\<close>

definition reconcile_found :: "crypto \<Rightarrow> randomness \<Rightarrow> 'w reconciler \<Rightarrow> serverObject \<Rightarrow> ('w, gerr, ctrlResult) io" where
  "reconcile_found C rnd R server =
     (if so_Deleting server then finalize R server
      else if serverFinalizer \<notin> set (so_Finalizers server) then
        bindE (oc_updateServer (r_client R) (server\<lparr>so_Finalizers := so_Finalizers server @ [serverFinalizer]\<rparr>))
          (\<lambda>_. ret \<lparr>res_Requeue = True, res_RequeueAfter = 0\<rparr>)
      else reconcile_active C rnd R (server\<lparr>so_Server := Default (so_Server server)\<rparr>))"

definition Reconcile :: "crypto \<Rightarrow> randomness \<Rightarrow> 'w reconciler \<Rightarrow> string \<Rightarrow> string \<Rightarrow> ('w, gerr, ctrlResult) io" where
  "Reconcile C rnd R ns name =
     bindE (tryE (oc_getServer (r_client R) ns name)) (\<lambda>found.
       case found of
         Inl e \<Rightarrow> if is_not_found e then ret \<lparr>res_Requeue = False, res_RequeueAfter = 0\<rparr> else raise e
       | Inr server \<Rightarrow> reconcile_found C rnd R server)"

end
