(* ===== verification/Operator_Safety.thy ===== *)
theory Operator_Safety
  imports Reconciler Operations
begin

text \<open>
  What the operator does to the cluster, as the sequence of the changes it asks for: which objects it touches, in which order it opens and closes the Service, and when it grants
  and withdraws delegated authentication.
\<close>

section \<open>Instrumentation\<close>

datatype appliedObject = AService Service | ADeployment Deployment | ABinding ClusterRoleBinding | AConfigMap ConfigMap | AOther

text \<open>A change names the resource (group and plural), the namespace and the name. An object that was applied is kept as the API returned it, a deletion with its error.\<close>

datatype opEvent =
    Applied string string string "appliedObject option"
  | Removed string string string "gerr option"
  | Scaled string string string
  | ServerUpdated serverObject "gerr option"
  | StatusUpdated serverObject

abbreviation services :: string where
  "services \<equiv> ''/services''"

abbreviation deployments :: string where
  "deployments \<equiv> ''apps/deployments''"

abbreviation bindings :: string where
  "bindings \<equiv> ''rbac.authorization.k8s.io/clusterrolebindings''"

definition unlogged :: "('w, gerr, 'a) io \<Rightarrow> ('w \<times> opEvent list, gerr, 'a) io" where
  "unlogged m = (\<lambda>(w, log). case m w of (r, w') \<Rightarrow> (r, (w', log)))"

definition noted :: "((gerr, 'a) res \<Rightarrow> opEvent) \<Rightarrow> ('w, gerr, 'a) io \<Rightarrow> ('w \<times> opEvent list, gerr, 'a) io" where
  "noted event m = (\<lambda>(w, log). case m w of (r, w') \<Rightarrow> (r, (w', log @ [event r])))"

definition applied :: "string \<Rightarrow> ('o \<Rightarrow> appliedObject) \<Rightarrow> ('w, 'o) applier \<Rightarrow> ('w \<times> opEvent list, 'o) applier" where
  "applied resource tag app = (\<lambda>ns name f. noted (\<lambda>r. Applied resource ns name (case r of Inr x \<Rightarrow> Some (tag x) | Inl e \<Rightarrow> None)) (app ns name f))"

definition logged_client :: "'w operatorClient \<Rightarrow> ('w \<times> opEvent list) operatorClient" where
  "logged_client c =
     \<lparr>oc_getServer = (\<lambda>ns n. unlogged (oc_getServer c ns n)),
      oc_updateServer = (\<lambda>s. noted (\<lambda>r. ServerUpdated s (err_of r)) (oc_updateServer c s)),
      oc_updateStatus = (\<lambda>s. noted (\<lambda>r. StatusUpdated s) (oc_updateStatus c s)),
      oc_getService = (\<lambda>ns n. unlogged (oc_getService c ns n)), oc_applyService = applied services AService (oc_applyService c),
      oc_getServiceAccount = (\<lambda>ns n. unlogged (oc_getServiceAccount c ns n)),
      oc_applyServiceAccount = applied ''/serviceaccounts'' (\<lambda>x. AOther) (oc_applyServiceAccount c),
      oc_applyConfigMap = applied ''/configmaps'' AConfigMap (oc_applyConfigMap c),
      oc_getDeployment = (\<lambda>ns n. unlogged (oc_getDeployment c ns n)), oc_applyDeployment = applied deployments ADeployment (oc_applyDeployment c),
      oc_patchDeployment = (\<lambda>b d. noted (\<lambda>r. Scaled deployments (om_Namespace b) (om_Name b)) (oc_patchDeployment c b d)),
      oc_getNetworkPolicy = (\<lambda>ns n. unlogged (oc_getNetworkPolicy c ns n)),
      oc_applyNetworkPolicy = applied ''networking.k8s.io/networkpolicies'' (\<lambda>x. AOther) (oc_applyNetworkPolicy c),
      oc_deleteNetworkPolicy = (\<lambda>ns n u. noted (\<lambda>r. Removed ''networking.k8s.io/networkpolicies'' ns n (err_of r)) (oc_deleteNetworkPolicy c ns n u)),
      oc_getClusterRole = (\<lambda>ns n. unlogged (oc_getClusterRole c ns n)), oc_getBinding = (\<lambda>ns n. unlogged (oc_getBinding c ns n)),
      oc_applyBinding = applied bindings ABinding (oc_applyBinding c),
      oc_deleteBinding = (\<lambda>n. noted (\<lambda>r. Removed bindings [] n (err_of r)) (oc_deleteBinding c n)),
      oc_getSecret = (\<lambda>ns n. unlogged (oc_getSecret c ns n)),
      oc_createSecret = (\<lambda>s. noted (\<lambda>r. Applied ''/secrets'' (om_Namespace s) (om_Name s) (case r of Inr _ \<Rightarrow> Some AOther | Inl e \<Rightarrow> None)) (oc_createSecret c s)),
      oc_applySecret = applied ''/secrets'' (\<lambda>x. AOther) (oc_applySecret c)\<rparr>"

definition watched :: "'w reconciler \<Rightarrow> ('w \<times> opEvent list) reconciler" where
  "watched R =
     \<lparr>r_client = logged_client (r_client R), r_ServerImage = r_ServerImage R, r_OperatorNamespace = r_OperatorNamespace R, r_sha = r_sha R,
      r_ref_error = r_ref_error R, r_encode_config = r_encode_config R\<rparr>"

lemma watched_simps [simp]:
  "r_client (watched R) = logged_client (r_client R)" "r_ServerImage (watched R) = r_ServerImage R" "r_OperatorNamespace (watched R) = r_OperatorNamespace R"
  "r_sha (watched R) = r_sha R" "r_ref_error (watched R) = r_ref_error R" "r_encode_config (watched R) = r_encode_config R"
  by (simp_all add: watched_def)

section \<open>Lemmas: the objects that are touched\<close>

lemma emits_unlogged: "emits ok (unlogged m)"
  by (auto simp: emits_def unlogged_def split: prod.splits)

lemma emits_noted: "(\<And>r. ok (event r)) \<Longrightarrow> emits ok (noted event m)"
  by (auto simp: emits_def noted_def split: prod.splits)

lemma emits_applied: "(\<And>x. ok (Applied resource ns name x)) \<Longrightarrow> emits ok (applied resource tag app ns name f)"
  unfolding applied_def by (rule emits_noted)

lemma emits_wrapE: "emits ok m \<Longrightarrow> emits ok (wrapE prefix m)"
  unfolding emits_def wrapE_def by (fastforce split: prod.splits sum.splits)

lemma emits_option: "emits ok f \<Longrightarrow> (\<And>x. emits ok (g x)) \<Longrightarrow> emits ok (case q of None \<Rightarrow> f | Some x \<Rightarrow> g x)"
  by (cases q) auto

lemmas op_intros = emits_unlogged emits_noted emits_applied emits_wrapE emits_option emits_pure emits_bind emits_try emits_if emits_case emits_prod emits_Let

lemma emits_disable:
  assumes "emits ok (reconcileService R server (ServerLabels server) (policyRevision (r_sha R) server) disabledServerRevision)"
    and "emits ok (shutdown_deployment R server)"
    and run: "disableServer R server (w, log) = (e, (w', log'))"
  shows "\<exists>es. log' = log @ es \<and> list_all ok es"
proof -
  obtain r1 w1 log1 where one: "wrapE ''disable Server Service'' (reconcileService R server (ServerLabels server)
      (policyRevision (r_sha R) server) disabledServerRevision) (w, log) = (r1, (w1, log1))" by (metis prod.exhaust)
  obtain r2 w2 log2 where two: "shutdown_deployment R server (w1, log1) = (r2, (w2, log2))" by (metis prod.exhaust)
  have "log' = log2" using run one two by (simp add: disableServer_def)
  with emitsD [OF emits_wrapE [OF assms(1)] one] emitsD [OF assms(2) two] show ?thesis by auto
qed

lemma so_Server_status [simp]:
  "so_Server (failed_status condition_type reason cause server) = so_Server server" "so_Server (ready_status ready server) = so_Server server"
  by (simp_all add: failed_status_def ready_status_def setCondition_def Let_def)

lemma emits_fail:
  assumes "emits ok (reconcileService R (so_Server server) (ServerLabels (so_Server server)) (policyRevision (r_sha R) (so_Server server)) disabledServerRevision)"
    and "emits ok (shutdown_deployment R (so_Server server))"
    and "\<And>s. so_Server s = so_Server server \<Longrightarrow> emits ok (oc_updateStatus (r_client R) s)"
  shows "emits ok (fail R server condition_type reason cause)"
  unfolding emits_def
proof (intro allI impI)
  fix w log r w' log' assume run: "fail R server condition_type reason cause (w, log) = (r, (w', log'))"
  obtain q w1 log1 where dis: "disableServer R (so_Server server) (w, log) = (q, (w1, log1))" by (metis prod.exhaust)
  let ?s = "failed_status condition_type reason (failure_cause cause q) server"
  have "snd (oc_updateStatus (r_client R) ?s (w1, log1)) = (w', log')" using run dis by (simp add: fail_def Let_def)
  then obtain a where a: "oc_updateStatus (r_client R) ?s (w1, log1) = (a, (w', log'))" by (metis prod.collapse)
  from emits_disable [OF assms(1, 2) dis] emitsD [OF assms(3) a, OF so_Server_status(1)] show "\<exists>es. log' = log @ es \<and> list_all ok es" by auto
qed

section \<open>What every run satisfies\<close>

text \<open>A relation between the outcome of a run and the changes it asked for.\<close>

definition holds_on :: "((gerr, 'a) res \<Rightarrow> opEvent list \<Rightarrow> bool) \<Rightarrow> ('w \<times> opEvent list, gerr, 'a) io \<Rightarrow> bool" where
  "holds_on G m = (\<forall>w log r w' log'. m (w, log) = (r, (w', log')) \<longrightarrow> (\<exists>es. log' = log @ es \<and> G r es))"

lemma holds_onI:
  assumes "\<And>w log r w' log'. m (w, log) = (r, (w', log')) \<Longrightarrow> \<exists>es. log' = log @ es \<and> G r es"
  shows "holds_on G m"
  using assms unfolding holds_on_def by blast

lemma holds_onD: "holds_on G m \<Longrightarrow> m (w, log) = (r, (w', log')) \<Longrightarrow> \<exists>es. log' = log @ es \<and> G r es"
  unfolding holds_on_def by blast

text \<open>
  The contract of a sequence of steps: the relation allows any quiet changes in front. Then a step of \<open>Reconcile\<close> that is quiet may come before a rest that
  satisfies the relation, when the failure of the step satisfies it too.
\<close>

locale run_contract =
  fixes G :: "(gerr, 'a) res \<Rightarrow> opEvent list \<Rightarrow> bool" and quiet :: "opEvent \<Rightarrow> bool"
  assumes prefix: "list_all quiet es \<Longrightarrow> G r es' \<Longrightarrow> G r (es @ es')"
begin

lemma after_quiet:
  assumes "holds_on G m" "m (w, log @ es) = (r, (w', log'))" "list_all quiet es"
  shows "\<exists>es. log' = log @ es \<and> G r es"
proof -
  obtain es' where "log' = (log @ es) @ es'" "G r es'" using holds_onD [OF assms(1,2)] by blast
  with prefix [OF assms(3)] show ?thesis by (intro exI [of _ "es @ es'"]) simp
qed

lemma holds_bind:
  assumes "emits quiet m" "\<And>q. holds_on G (k q)"
  shows "holds_on G (bindE (tryE m) k)"
proof (rule holds_onI)
  fix w log r w' log' assume run: "bindE (tryE m) k (w, log) = (r, (w', log'))"
  obtain q w1 log1 where q: "m (w, log) = (q, (w1, log1))" by (metis prod.exhaust)
  obtain es where es: "log1 = log @ es" "list_all quiet es" using emitsD [OF assms(1) q] by blast
  have "k q (w1, log @ es) = (r, (w', log'))" using run q es(1) by (simp add: io_simps tryE_def)
  from after_quiet [OF assms(2) this es(2)] show "\<exists>es. log' = log @ es \<and> G r es" .
qed

end

lemma orFail_bind:
  "orFail R server condition_type reason m k = bindE (tryE m) (\<lambda>q. case q of Inl e \<Rightarrow> fail R server condition_type reason e | Inr x \<Rightarrow> k x)"
  by (rule ext) (auto simp: orFail_def io_simps tryE_def split: prod.splits sum.splits)

lemma holds_orFail:
  assumes "run_contract G silent_event" "emits silent_event m" "\<And>e. holds_on G (fail R server condition_type reason e)" "\<And>x. holds_on G (k x)"
  shows "holds_on G (orFail R server condition_type reason m k)"
  unfolding orFail_bind using assms(3,4) by (intro run_contract.holds_bind [OF assms(1,2)]) (simp split: sum.split)

interpretation emitting: run_contract "\<lambda>r. list_all ok" ok for ok
  by unfold_locales simp

lemma emits_holds_on: "emits ok m = holds_on (\<lambda>r. list_all ok) m"
  unfolding emits_def holds_on_def by blast

text \<open>An error of one step of \<open>Reconcile\<close> is handled by \<open>fail\<close>.\<close>

lemma emits_orFail:
  fixes ok :: "opEvent \<Rightarrow> bool"
  assumes "emits ok m" "\<And>x. emits ok (k x)" "\<And>e. emits ok (fail R server condition_type reason e)"
  shows "emits ok (orFail R server condition_type reason m k)"
  using assms(2,3) unfolding emits_holds_on by (intro holds_orFail [OF emitting.run_contract_axioms assms(1)])

section \<open>The objects of a server\<close>

text \<open>The objects that belong to a server, and the key of a change.\<close>

definition managed_keys :: "'w reconciler \<Rightarrow> KubernetesMCPServer \<Rightarrow> (string \<times> string \<times> string) list" where
  "managed_keys R server =
     (let ns = srv_Namespace server; name = srv_Name server in
      [(services, ns, name), (''/serviceaccounts'', ns, name), (''/configmaps'', ns, name @ ''-config''), (''/configmaps'', ns, name @ ''-ca''),
       (''/secrets'', ns, TLSSecretName server), (''/secrets'', r_OperatorNamespace R, rootCASecretName), (deployments, ns, name),
       (''networking.k8s.io/networkpolicies'', ns, name), (bindings, [], clusterBindingName (r_sha R) server),
       (''mcp.supek8smcp.io/kubernetesmcpservers'', ns, name)])"

fun event_key :: "opEvent \<Rightarrow> string \<times> string \<times> string" where
  "event_key (Applied resource ns name x) = (resource, ns, name)"
| "event_key (Removed resource ns name e) = (resource, ns, name)"
| "event_key (Scaled resource ns name) = (resource, ns, name)"
| "event_key (ServerUpdated s e) = (''mcp.supek8smcp.io/kubernetesmcpservers'', so_Namespace s, so_Name s)"
| "event_key (StatusUpdated s) = (''mcp.supek8smcp.io/kubernetesmcpservers'', so_Namespace s, so_Name s)"

abbreviation touches :: "'w reconciler \<Rightarrow> KubernetesMCPServer \<Rightarrow> opEvent \<Rightarrow> bool" where
  "touches R server e \<equiv> event_key e \<in> set (managed_keys R server)"

text \<open>Hypothesis on the client: a Deployment that was read has the name it was asked for.\<close>

definition reads_named :: "('w, 'x objectMeta_scheme) getter \<Rightarrow> bool" where
  "reads_named get = (\<forall>ns name w x w'. get ns name w = (Inr x, w') \<longrightarrow> om_Namespace x = ns \<and> om_Name x = name)"

lemmas client_simps = logged_client_def managed_keys_def Let_def

lemma touches_services:
  "emits (touches R server) (reconcileService (watched R) server labels policyRev revision)"
  "emits (touches R server) (reconcileServiceGate (watched R) server labels policyRev)"
  unfolding reconcileServiceGate_def reconcileService_def by (intro op_intros; simp add: client_simps op_intros)+

lemma touches_authentication:
  "emits (touches R server) (reconcileServiceAccount (watched R) server labels)"
  "emits (touches R server) (rejectDelegatedAuthentication (watched R) (clusterBindingName (r_sha R) server) cause)"
  "emits (touches R server) (reconcileBinding (watched R) server)"
  "emits (touches R server) (reconcileDelegatedAuthentication (watched R) server)"
  unfolding reconcileServiceAccount_def reconcileDelegatedAuthentication_def reconcileBinding_def rejectDelegatedAuthentication_def Let_def watched_simps
  by (intro op_intros; simp add: client_simps op_intros)+

lemma touches_certificates:
  "emits (touches R server) (ensureRootCA C rnd (watched R))"
  "emits (touches R server) (ensureServingCertificate C rnd (watched R) server ca)"
  unfolding ensureRootCA_def ensureServingCertificate_def managed_certificate_def Let_def watched_simps
  by (intro op_intros; simp add: client_simps op_intros ca_secret_def)+

lemma touches_resources: "emits (touches R server) (reconcileResources (watched R) server labels policyRev certificate)"
  unfolding reconcileResources_def reconcileConfigMap_def reconcileNetworkPolicy_def reconcileDeployment_def reconcileService_def Let_def watched_simps
  by (intro op_intros; simp add: client_simps op_intros)+

lemma touches_shutdown:
  assumes "reads_named (oc_getDeployment (r_client R))"
  shows "emits (touches R server) (shutdown_deployment (watched R) server)"
  unfolding emits_def
proof (intro allI impI)
  fix w log r w' log' assume run: "shutdown_deployment (watched R) server (w, log) = (r, (w', log'))"
  obtain q w1 where q: "oc_getDeployment (r_client R) (srv_Namespace server) (srv_Name server) w = (q, w1)" by (metis prod.exhaust)
  have named: "om_Namespace d = srv_Namespace server \<and> om_Name d = srv_Name server" if "q = Inr d" for d
    using assms q that unfolding reads_named_def by blast
  show "\<exists>es. log' = log @ es \<and> list_all (touches R server) es"
    using run q named
    by (auto simp: shutdown_deployment_def client_simps unlogged_def noted_def wrapE_def io_simps tryE_def
          split: prod.splits sum.splits if_splits option.splits)
qed

lemma touches_reconcile:
  assumes "reads_named (oc_getDeployment (r_client R))"
  shows "emits (touches R (so_Server server)) (reconcile_active C rnd (watched R) server)"
    "emits (touches R (so_Server server)) (finalize (watched R) server)"
proof -
  have update: "emits (touches R (so_Server server)) (oc_updateStatus (logged_client (r_client R)) s)" if "so_Server s = so_Server server" for s
    using that by (simp add: client_simps op_intros)
  have failing: "emits (touches R (so_Server server)) (fail (watched R) server condition_type reason e)" for condition_type reason e
    by (rule emits_fail) (simp_all add: touches_services touches_shutdown [OF assms] update)
  show "emits (touches R (so_Server server)) (reconcile_active C rnd (watched R) server)"
    unfolding reconcile_active_def report_status_def Let_def watched_simps
    by (intro emits_orFail failing touches_services touches_authentication touches_certificates touches_resources op_intros;
        simp add: update client_simps op_intros)
  show "emits (touches R (so_Server server)) (finalize (watched R) server)"
    unfolding finalize_def Let_def watched_simps by (intro op_intros; simp add: client_simps op_intros)
qed

lemma managed_keys_Default: "managed_keys R (Default server) = managed_keys R server"
  by (simp add: managed_keys_def Let_def Default_def default_spec_def TLSSecretName_def clusterBindingName_def)

lemma touches_found:
  assumes "reads_named (oc_getDeployment (r_client R))"
  shows "emits (touches R (so_Server server)) (reconcile_found C rnd (watched R) server)"
proof -
  have active: "emits (touches R (so_Server server)) (reconcile_active C rnd (watched R) (server\<lparr>so_Server := Default (so_Server server)\<rparr>))"
    using touches_reconcile(1) [OF assms, of "server\<lparr>so_Server := Default (so_Server server)\<rparr>" C rnd] by (simp add: managed_keys_Default)
  have "emits (touches R (so_Server server)) (oc_updateServer (logged_client (r_client R)) (server\<lparr>so_Finalizers := fs\<rparr>))" for fs
    by (simp add: client_simps op_intros)
  with active touches_reconcile(2) [OF assms] show ?thesis
    unfolding reconcile_found_def watched_simps by (intro emits_if emits_bind emits_pure)
qed

text \<open>The policy of the server protects all of these objects, the secret of the authority in every namespace.\<close>

lemma resource_key:
  "g @ CHR ''/'' # r = g' @ CHR ''/'' # r' \<Longrightarrow> CHR ''/'' \<notin> set g' \<Longrightarrow> CHR ''/'' \<notin> set r' \<Longrightarrow> g = g' \<and> r = r'"
  by (induction g arbitrary: g') (auto simp: Cons_eq_append_conv append_eq_Cons_conv)

lemmas resource_keys = resource_key [of _ _ "[]" "''secrets''", simplified] resource_key [of _ _ "''mcp.supek8smcp.io''" "''kubernetesmcpservers''", simplified]

lemma managed_key_protected:
  assumes "(key, ns', name') \<in> set (managed_keys R server)" "srv_Name server \<noteq> []" "srv_Namespace server \<noteq> []" "r_OperatorNamespace R \<noteq> []"
    and "Mutating a" "act_Group a @ ''/'' @ act_Resource a = key" "act_Namespaced a = (ns' \<noteq> [])"
  shows "CheckTarget (r_sha R) (FromResource server) a ns' name' \<noteq> None"
proof -
  have key: "act_Group a @ CHR ''/'' # act_Resource a = key" using assms(6) by simp
  have cfg: "cfg_Name (FromResource server) = srv_Name server" "cfg_Namespace (FromResource server) = srv_Namespace server"
    "spec_TLS (cfg_Spec (FromResource server)) = spec_TLS (srv_Spec server)"
    by (simp_all add: FromResource_def Default_def default_spec_def Let_def)
  have "managedTarget (r_sha R) (FromResource server) a ns' name' \<and> name' \<noteq> []"
    using assms(1) key assms(2-4,7) unfolding managed_keys_def Let_def list.set insert_iff empty_iff prod.inject
    by (elim disjE conjE) (use resource_keys in \<open>simp_all add: managedTarget_def cfg TLSSecretName_def rootCASecretName_def
        clusterBindingName_def managedClusterBindingName_def Let_def\<close>)
  with assms(5) show ?thesis by (simp add: CheckTarget_None_iff)
qed

section \<open>The traffic gate\<close>

text \<open>The revision that a Service selects and that the pods of a Deployment carry.\<close>

definition selected_revision :: "Service \<Rightarrow> string" where
  "selected_revision service = label_value (sv_Selector service) serverRevisionLabel"

definition template_revision :: "Deployment \<Rightarrow> string" where
  "template_revision deployment = label_value (dp_TemplateLabels deployment) serverRevisionLabel"

fun about_service :: "opEvent \<Rightarrow> bool" where
  "about_service ev = (fst (event_key ev) = services)"

text \<open>
  The state of the gate after a run: \<open>x\<close> is what the last change of the Service returned, \<open>before\<close> the changes in front of it. The Service selects nothing that runs, or
  the revision of a Deployment that the run applied before; only a run that failed leaves it disabled or unchanged.
\<close>

definition gate_state :: "string \<Rightarrow> string \<Rightarrow> (gerr, 'a) res \<Rightarrow> opEvent list \<Rightarrow> appliedObject option \<Rightarrow> bool" where
  "gate_state ns name r earlier x =
     (case x of
        None \<Rightarrow> isl r
      | Some (AService service) \<Rightarrow>
          (isl r \<and> selected_revision service = disabledServerRevision) \<or>
          (\<exists>d. Applied deployments ns name (Some (ADeployment d)) \<in> set earlier \<and> template_revision d = selected_revision service)
      | Some _ \<Rightarrow> False)"

definition gate_outcome :: "string \<Rightarrow> string \<Rightarrow> (gerr, 'a) res \<Rightarrow> opEvent list \<Rightarrow> bool" where
  "gate_outcome ns name r es =
     (\<exists>earlier x later. es = earlier @ Applied services ns name x # later \<and> \<not> list_ex about_service later \<and> gate_state ns name r earlier x)"

abbreviation gated :: "string \<Rightarrow> string \<Rightarrow> ('w \<times> opEvent list, gerr, 'a) io \<Rightarrow> bool" where
  "gated ns name \<equiv> holds_on (gate_outcome ns name)"

lemma label_value_mput [simp]: "label_value (mput m k v) k = v"
  by (simp add: label_value_def)

lemma gate_state_append: "gate_state ns name r earlier x \<Longrightarrow> gate_state ns name r (es @ earlier) x"
  by (auto simp: gate_state_def split: option.splits appliedObject.splits)

interpretation gating: run_contract "gate_outcome ns name" "\<lambda>ev. True" for ns name
proof unfold_locales
  fix es es' r assume "gate_outcome ns name r es'"
  then obtain earlier x later where "es' = earlier @ Applied services ns name x # later" "\<not> list_ex about_service later" "gate_state ns name r earlier x"
    unfolding gate_outcome_def by blast
  then show "gate_outcome ns name r (es @ es')" unfolding gate_outcome_def
    by (intro exI [of _ "es @ earlier"] exI [of _ x] exI [of _ later]) (simp add: gate_state_append)
qed

lemma emits_any: "emits ok m \<Longrightarrow> emits (\<lambda>e. True) m"
  unfolding emits_def by (metis list_all_iff)

lemma service_step:
  assumes "runs_mutation sv_Selector (oc_applyService (r_client R))"
    and "reconcileService (watched R) server labels policyRev revision (w, log) = (r, (w', log'))"
  shows "\<exists>x. log' = log @ [Applied services (srv_Namespace server) (srv_Name server) x] \<and>
    (case x of None \<Rightarrow> isl r | Some obj \<Rightarrow> \<not> isl r \<and> (\<exists>service. obj = AService service \<and> selected_revision service = revision))"
proof -
  obtain q w1 where q: "oc_applyService (r_client R) (srv_Namespace server) (srv_Name server)
      (mutate_service (watched R) server labels policyRev revision) w = (q, w1)" by (metis prod.exhaust)
  have "selected_revision service = revision" if "q = Inr service" for service
    using service_mutation.applied_as [OF assms(1) q [unfolded that]]
    by (auto simp: service_change_def selected_revision_def serverPodLabels_def)
  with assms(2) q show ?thesis
    by (auto simp: reconcileService_def logged_client_def applied_def noted_def wrapE_def io_simps split: prod.splits sum.splits)
qed

text \<open>A failure closes the gate.\<close>

lemma quiet_shutdown: "emits (\<lambda>e. \<not> about_service e) (shutdown_deployment (watched R) server)"
  unfolding shutdown_deployment_def watched_simps by (intro op_intros; simp add: logged_client_def op_intros)

lemma fail_closes:
  assumes "runs_mutation sv_Selector (oc_applyService (r_client R))"
    and run: "fail (watched R) server condition_type reason cause (w, log) = (r, (w', log'))"
  shows "\<exists>x later. log' = log @ Applied services (so_Namespace server) (so_Name server) x # later \<and> \<not> list_ex about_service later \<and> isl r \<and>
    (case x of None \<Rightarrow> True | Some obj \<Rightarrow> \<exists>service. obj = AService service \<and> selected_revision service = disabledServerRevision)"
proof -
  let ?s = "so_Server server"
  obtain r1 w1 log1 where one: "reconcileService (watched R) ?s (ServerLabels ?s) (policyRevision (r_sha R) ?s) disabledServerRevision (w, log) = (r1, (w1, log1))"
    by (metis prod.exhaust)
  obtain r2 w2 log2 where two: "shutdown_deployment (watched R) ?s (w1, log1) = (r2, (w2, log2))" by (metis prod.exhaust)
  obtain s where "log' = log2 @ [StatusUpdated s]" "isl r"
    using run one two by (cases r1) (auto simp: fail_def disableServer_def wrapE_def logged_client_def noted_def Let_def split: prod.splits)
  moreover obtain es where "log2 = log1 @ es" "list_all (\<lambda>e. \<not> about_service e) es" using emitsD [OF quiet_shutdown two] by blast
  moreover obtain x where "log1 = log @ [Applied services (so_Namespace server) (so_Name server) x]"
    "case x of None \<Rightarrow> isl r1 | Some obj \<Rightarrow> \<not> isl r1 \<and> (\<exists>service. obj = AService service \<and> selected_revision service = disabledServerRevision)"
    using service_step [OF assms(1) one] by blast
  ultimately show ?thesis
    by (intro exI [of _ x] exI [of _ "es @ [StatusUpdated s]"]) (cases x; simp add: list_ex_iff list_all_iff)
qed

lemma gated_fail:
  assumes "runs_mutation sv_Selector (oc_applyService (r_client R))"
  shows "gated (so_Namespace server) (so_Name server) (fail (watched R) server condition_type reason cause)"
proof (rule holds_onI)
  fix w log r w' log' assume "fail (watched R) server condition_type reason cause (w, log) = (r, (w', log'))"
  from fail_closes [OF assms this] obtain x later where
    "log' = log @ Applied services (so_Namespace server) (so_Name server) x # later" "\<not> list_ex about_service later" "isl r"
    "case x of None \<Rightarrow> True | Some obj \<Rightarrow> \<exists>service. obj = AService service \<and> selected_revision service = disabledServerRevision" by blast
  then show "\<exists>es. log' = log @ es \<and> gate_outcome (so_Namespace server) (so_Name server) r es" unfolding gate_outcome_def
    by (intro exI [of _ "Applied services (so_Namespace server) (so_Name server) x # later"] conjI exI [of _ "[]"] exI [of _ x] exI [of _ later])
      (auto simp: gate_state_def split: option.splits)
qed

lemma gated_orFail:
  assumes "runs_mutation sv_Selector (oc_applyService (r_client R))"
    and "emits (\<lambda>e. True) m" "\<And>x. gated (so_Namespace server) (so_Name server) (k x)"
  shows "gated (so_Namespace server) (so_Name server) (orFail (watched R) server condition_type reason m k)"
  by (rule holds_orFail [OF gating.run_contract_axioms assms(2) gated_fail [OF assms(1)] assms(3)])

text \<open>A run of \<open>reconcileResources\<close> that succeeds ends with the Deployment and then the Service of the same revision.\<close>

definition rolled_out :: "string \<Rightarrow> string \<Rightarrow> opEvent list \<Rightarrow> bool" where
  "rolled_out ns name es =
     (\<exists>earlier d service. es = earlier @ [Applied deployments ns name (Some (ADeployment d)), Applied services ns name (Some (AService service))] \<and>
        template_revision d = selected_revision service)"

definition succeeds_with :: "(opEvent list \<Rightarrow> bool) \<Rightarrow> ('w \<times> opEvent list, gerr, 'a) io \<Rightarrow> bool" where
  "succeeds_with P m = (\<forall>w log x w' log'. m (w, log) = (Inr x, (w', log')) \<longrightarrow> (\<exists>es. log' = log @ es \<and> P es))"

lemma rolled_out_append: "rolled_out ns name es \<Longrightarrow> rolled_out ns name (es' @ es)"
  unfolding rolled_out_def by (metis append.assoc)

lemma succeeds_bind:
  assumes "emits (\<lambda>e. True) f" "\<And>x. succeeds_with (rolled_out ns name) (g x)"
  shows "succeeds_with (rolled_out ns name) (bindE f g)"
  unfolding succeeds_with_def
proof (intro allI impI)
  fix w log y w' log' assume run: "bindE f g (w, log) = (Inr y, (w', log'))"
  obtain q w1 log1 where q: "f (w, log) = (q, (w1, log1))" by (metis prod.exhaust)
  with run obtain x where "g x (w1, log1) = (Inr y, (w', log'))" by (cases q) (auto simp: io_simps)
  with assms(2) [of x] obtain es where "log' = log1 @ es" "rolled_out ns name es" unfolding succeeds_with_def by blast
  with emitsD [OF assms(1) q] show "\<exists>es. log' = log @ es \<and> rolled_out ns name es" by (metis append.assoc rolled_out_append)
qed

lemma deployment_applied:
  assumes "reconcileDeployment (watched R) server labels revision configRevision tlsRevision (w, log) = (Inr g, (w', log'))"
  shows "\<exists>d. oc_applyDeployment (r_client R) (srv_Namespace server) (srv_Name server)
      (mutate_deployment (watched R) server labels revision configRevision tlsRevision) w = (Inr d, w') \<and>
    log' = log @ [Applied deployments (srv_Namespace server) (srv_Name server) (Some (ADeployment d))]"
  using assms by (auto simp: reconcileDeployment_def logged_client_def applied_def noted_def wrapE_def io_simps split: prod.splits sum.splits)

lemma deployment_step:
  assumes "runs_mutation dp_TemplateLabels (oc_applyDeployment (r_client R))"
    and run: "reconcileDeployment (watched R) server labels revision configRevision tlsRevision (w, log) = (Inr g, (w', log'))"
  shows "\<exists>d. log' = log @ [Applied deployments (srv_Namespace server) (srv_Name server) (Some (ADeployment d))] \<and> template_revision d = revision"
proof -
  from deployment_applied [OF run] obtain d where d: "oc_applyDeployment (r_client R) (srv_Namespace server) (srv_Name server)
      (mutate_deployment (watched R) server labels revision configRevision tlsRevision) w = (Inr d, w')"
    "log' = log @ [Applied deployments (srv_Namespace server) (srv_Name server) (Some (ADeployment d))]" by blast
  have "template_revision d = revision"
    using deployment_mutation.applied_as [OF assms(1) d(1)]
    by (auto simp: deployment_change_def template_revision_def serverPodLabels_def)
  with d(2) show ?thesis by blast
qed

lemma rollout_succeeds:
  assumes "runs_mutation sv_Selector (oc_applyService (r_client R))" "runs_mutation dp_TemplateLabels (oc_applyDeployment (r_client R))"
  shows "succeeds_with (rolled_out (srv_Namespace server) (srv_Name server))
    (bindE (reconcileDeployment (watched R) server labels revision configRevision tlsRevision) (\<lambda>deploymentGeneration.
     bindE (reconcileService (watched R) server labels policyRev revision) (\<lambda>_. ret deploymentGeneration)))"
  unfolding succeeds_with_def
proof (intro allI impI)
  fix w log y w' log'
  assume run: "bindE (reconcileDeployment (watched R) server labels revision configRevision tlsRevision) (\<lambda>deploymentGeneration.
     bindE (reconcileService (watched R) server labels policyRev revision) (\<lambda>_. ret deploymentGeneration)) (w, log) = (Inr y, (w', log'))"
  obtain q w1 log1 where q: "reconcileDeployment (watched R) server labels revision configRevision tlsRevision (w, log) = (q, (w1, log1))"
    by (metis prod.exhaust)
  obtain q2 w2 log2 where q2: "reconcileService (watched R) server labels policyRev revision (w1, log1) = (q2, (w2, log2))" by (metis prod.exhaust)
  from run q q2 have ok: "\<exists>g. q = Inr g" "\<not> isl q2" "log' = log2" by (auto simp: io_simps split: sum.splits)
  then obtain g where "q = Inr g" by blast
  from deployment_step [OF assms(2) q [unfolded this]] obtain d where d:
    "log1 = log @ [Applied deployments (srv_Namespace server) (srv_Name server) (Some (ADeployment d))]" "template_revision d = revision" by blast
  from service_step [OF assms(1) q2] ok(2) obtain service where
    "log2 = log1 @ [Applied services (srv_Namespace server) (srv_Name server) (Some (AService service))]" "selected_revision service = revision"
    by (auto split: option.splits)
  with d ok(3) show "\<exists>es. log' = log @ es \<and> rolled_out (srv_Namespace server) (srv_Name server) es"
    unfolding rolled_out_def by auto
qed

lemma resources_succeed:
  assumes "runs_mutation sv_Selector (oc_applyService (r_client R))" "runs_mutation dp_TemplateLabels (oc_applyDeployment (r_client R))"
  shows "succeeds_with (rolled_out (srv_Namespace server) (srv_Name server)) (reconcileResources (watched R) server labels policyRev certificate)"
  unfolding reconcileResources_def Let_def
  by (intro succeeds_bind rollout_succeeds assms)
     (simp_all add: reconcileConfigMap_def reconcileNetworkPolicy_def Let_def logged_client_def op_intros)

lemma quiet_report: "emits (\<lambda>e. \<not> about_service e) (report_status (watched R) server generation)"
  unfolding report_status_def Let_def watched_simps by (intro op_intros; simp add: logged_client_def op_intros)

lemma gated_rollout:
  assumes service: "runs_mutation sv_Selector (oc_applyService (r_client R))" and "runs_mutation dp_TemplateLabels (oc_applyDeployment (r_client R))"
  shows "gated (so_Namespace server) (so_Name server) (orFail (watched R) server condition_type reason
    (reconcileResources (watched R) (so_Server server) labels policyRev certificate) (report_status (watched R) server))"
proof (rule holds_onI)
  let ?m = "reconcileResources (watched R) (so_Server server) labels policyRev certificate"
  fix w log r w' log' assume run: "orFail (watched R) server condition_type reason ?m (report_status (watched R) server) (w, log) = (r, (w', log'))"
  obtain q w1 log1 where q: "?m (w, log) = (q, (w1, log1))" by (metis prod.exhaust)
  show "\<exists>es. log' = log @ es \<and> gate_outcome (so_Namespace server) (so_Name server) r es"
  proof (cases q)
    case (Inl e)
    with emitsD [OF touches_resources q] obtain es where "fail (watched R) server condition_type reason e (w1, log @ es) = (r, (w', log'))"
      using run q by (auto simp: orFail_def)
    then show ?thesis by (rule gating.after_quiet [OF gated_fail [OF service]]) (simp add: list_all_iff)
  next
    case (Inr g)
    then have report: "report_status (watched R) server g (w1, log1) = (r, (w', log'))" using run q by (simp add: orFail_def)
    obtain earlier d service where es: "log1 = log @ earlier @ [Applied deployments (so_Namespace server) (so_Name server) (Some (ADeployment d)),
        Applied services (so_Namespace server) (so_Name server) (Some (AService service))]" "template_revision d = selected_revision service"
      using resources_succeed [OF assms, of "so_Server server" labels policyRev certificate] q Inr unfolding succeeds_with_def rolled_out_def by blast
    obtain later where later: "log' = log1 @ later" "list_all (\<lambda>e. \<not> about_service e) later" using emitsD [OF quiet_report report] by blast
    let ?earlier = "earlier @ [Applied deployments (so_Namespace server) (so_Name server) (Some (ADeployment d))]"
    have "gate_outcome (so_Namespace server) (so_Name server) r
        (?earlier @ Applied services (so_Namespace server) (so_Name server) (Some (AService service)) # later)"
      unfolding gate_outcome_def
      by (rule exI [of _ ?earlier], rule exI [of _ "Some (AService service)"], rule exI [of _ later])
        (use es(2) later(2) in \<open>auto simp: gate_state_def list_ex_iff list_all_iff\<close>)
    with es(1) later(1) show ?thesis by auto
  qed
qed

lemma any_fail: "emits (\<lambda>e. True) (fail (watched R) server condition_type reason cause)"
  by (rule emits_fail)
    (simp_all add: emits_any [OF touches_services(1)] emits_any [OF quiet_shutdown] logged_client_def op_intros)

lemma any_steps:
  "emits (\<lambda>e. True) (reconcileServiceGate (watched R) server labels policyRev)"
  "emits (\<lambda>e. True) (reconcileServiceAccount (watched R) server labels)"
  "emits (\<lambda>e. True) (rejectDelegatedAuthentication (watched R) name cause)"
  "emits (\<lambda>e. True) (reconcileDelegatedAuthentication (watched R) server)"
  "emits (\<lambda>e. True) (ensureRootCA C rnd (watched R))"
  "emits (\<lambda>e. True) (ensureServingCertificate C rnd (watched R) server ca)"
  "emits (\<lambda>e. True) (report_status (watched R) object generation)"
  by (simp_all add: emits_any [OF touches_services(2)] emits_any [OF touches_authentication(1)] emits_any [OF touches_authentication(4)]
      emits_any [OF touches_certificates(1)] emits_any [OF touches_certificates(2)] emits_any [OF quiet_report]
      rejectDelegatedAuthentication_def logged_client_def op_intros)

lemma gated_reconcile:
  assumes "runs_mutation sv_Selector (oc_applyService (r_client R))" "runs_mutation dp_TemplateLabels (oc_applyDeployment (r_client R))"
  shows "gated (so_Namespace server) (so_Name server) (reconcile_active C rnd (watched R) server)"
  unfolding reconcile_active_def Let_def watched_simps
  by (intro gated_orFail gated_rollout assms) (simp_all add: any_steps op_intros)

lemma later_steps:
  "\<exists>k. (\<forall>x. emits (\<lambda>e. True) (k x)) \<and> reconcile_active C rnd (watched R) server =
     orFail (watched R) server ''Ready'' ''ServiceGateError''
       (reconcileServiceGate (watched R) (so_Server server) (ServerLabels (so_Server server)) (policyRevision (r_sha R) (so_Server server))) k"
  unfolding reconcile_active_def Let_def watched_simps
  by (rule exI, rule conjI [rotated], rule refl)
    (intro allI emits_orFail any_fail any_steps emits_any [OF touches_resources] emits_bind emits_try emits_if emits_case emits_pure)

text \<open>
  The first change: the Service is disabled, unless it was applied for the same generation of the server before; then it keeps the revision it selects.
\<close>

definition first_gate :: "'w reconciler \<Rightarrow> KubernetesMCPServer \<Rightarrow> 'w \<Rightarrow> appliedObject option \<Rightarrow> bool" where
  "first_gate R server w x =
     (case x of
        None \<Rightarrow> True
      | Some (AService service) \<Rightarrow>
          selected_revision service = disabledServerRevision \<or>
          (case fst (oc_getService (r_client R) (srv_Namespace server) (srv_Name server) w) of
             Inr old \<Rightarrow> selected_revision service = selected_revision old \<and>
               label_value (om_Annotations old) serverPolicyRevision = policyRevision (r_sha R) server
           | Inl e \<Rightarrow> False)
      | Some _ \<Rightarrow> False)"

lemma gate_step_first:
  assumes "runs_mutation sv_Selector (oc_applyService (r_client R))"
    and run: "reconcileServiceGate (watched R) server labels (policyRevision (r_sha R) server) (w, log) = (r, (w', log'))"
  shows "(log' = log \<and> isl r) \<or> (\<exists>x. log' = log @ [Applied services (srv_Namespace server) (srv_Name server) x] \<and> first_gate R server w x)"
proof -
  let ?apply = "reconcileService (watched R) server labels (policyRevision (r_sha R) server)"
  obtain q w1 where q: "oc_getService (r_client R) (srv_Namespace server) (srv_Name server) w = (q, w1)" by (metis prod.exhaust)
  have applied: "\<exists>x. log' = log @ [Applied services (srv_Namespace server) (srv_Name server) x] \<and> first_gate R server w x"
    if step: "?apply revision (w1, log) = (r, (w', log'))"
      and rev: "revision = disabledServerRevision \<or> (\<exists>old. q = Inr old \<and> revision = selected_revision old \<and>
        label_value (om_Annotations old) serverPolicyRevision = policyRevision (r_sha R) server)" for revision
    using service_step [OF assms(1) step] rev q unfolding first_gate_def by (fastforce split: option.splits)
  show ?thesis
  proof (cases q)
    case (Inl e)
    then show ?thesis
      using run q applied [of disabledServerRevision]
      by (cases "is_not_found e") (auto simp: reconcileServiceGate_def logged_client_def unlogged_def io_simps tryE_def)
  next
    case (Inr old)
    then have "?apply (gate_revision old (policyRevision (r_sha R) server)) (w1, log) = (r, (w', log'))"
      using run q by (simp add: reconcileServiceGate_def logged_client_def unlogged_def io_simps tryE_def)
    from applied [OF this] Inr show ?thesis by (auto simp: gate_revision_def selected_revision_def Let_def split: if_splits)
  qed
qed

lemma first_change:
  assumes "runs_mutation sv_Selector (oc_applyService (r_client R))"
    and run: "reconcile_active C rnd (watched R) server (w, log) = (r, (w', log'))"
  shows "\<exists>x later. log' = log @ Applied services (so_Namespace server) (so_Name server) x # later \<and> first_gate R (so_Server server) w x"
proof -
  let ?s = "so_Server server"
  obtain k where k: "\<And>x. emits (\<lambda>e. True) (k x)" and active: "reconcile_active C rnd (watched R) server =
      orFail (watched R) server ''Ready'' ''ServiceGateError'' (reconcileServiceGate (watched R) ?s (ServerLabels ?s) (policyRevision (r_sha R) ?s)) k"
    using later_steps by blast
  obtain q w1 log1 where q: "reconcileServiceGate (watched R) ?s (ServerLabels ?s) (policyRevision (r_sha R) ?s) (w, log) = (q, (w1, log1))" by (metis prod.exhaust)
  have next_run: "(case q of Inl e \<Rightarrow> fail (watched R) server ''Ready'' ''ServiceGateError'' e | Inr x \<Rightarrow> k x) (w1, log1) = (r, (w', log'))"
    using run q unfolding active by (auto simp: orFail_def split: sum.splits)
  from gate_step_first [OF assms(1) q] show ?thesis
  proof (elim disjE exE conjE)
    assume "log1 = log" "isl q"
    then obtain e where "fail (watched R) server ''Ready'' ''ServiceGateError'' e (w1, log) = (r, (w', log'))" using next_run by (cases q) auto
    from fail_closes [OF assms(1) this] show ?thesis by (fastforce simp: first_gate_def split: option.splits)
  next
    fix x assume x: "log1 = log @ [Applied services (so_Namespace server) (so_Name server) x]" "first_gate R ?s w x"
    have "emits (\<lambda>e. True) (case q of Inl e \<Rightarrow> fail (watched R) server ''Ready'' ''ServiceGateError'' e | Inr x \<Rightarrow> k x)"
      by (intro emits_case k any_fail)
    from emitsD [OF this next_run] x show ?thesis by auto
  qed
qed

section \<open>Delegated authentication\<close>

abbreviation withdrawn :: "string \<Rightarrow> opEvent list \<Rightarrow> opEvent list \<Rightarrow> bool" where
  "withdrawn name log log' \<equiv> \<exists>es err. log' = log @ es @ [Removed bindings [] name err]"

definition granted :: "string \<Rightarrow> KubernetesMCPServer \<Rightarrow> opEvent list \<Rightarrow> opEvent list \<Rightarrow> bool" where
  "granted name server log log' =
     (\<exists>binding. log' = log @ [Applied bindings [] name (Some (ABinding binding))] \<and> rb_RoleRef binding = expectedRoleRef \<and>
        rb_Subjects binding = [\<lparr>rs_Kind = ''ServiceAccount'', rs_Name = srv_Name server, rs_Namespace = srv_Namespace server\<rparr>])"

lemma reject_withdraws:
  "rejectDelegatedAuthentication (watched R) name cause (w, log @ es) = (r, (w', log')) \<Longrightarrow> isl r \<and> withdrawn name log log'"
  by (auto simp: rejectDelegatedAuthentication_def logged_client_def noted_def io_simps tryE_def split: prod.splits option.splits)

lemmas reject_withdraws_now = reject_withdraws [where es = "[]", simplified]

lemma apply_binding_step:
  assumes "runs_mutation (\<lambda>b. (rb_RoleRef b, rb_Subjects b)) (oc_applyBinding (r_client R))"
    and run: "bindE (tryE (oc_applyBinding (logged_client (r_client R)) [] name (mutate_binding server))) (\<lambda>applied.
      case applied of Inl e \<Rightarrow> rejectDelegatedAuthentication (watched R) name (Wrapped prefix e) | Inr _ \<Rightarrow> ret ()) (w, log) = (r, (w', log'))"
  shows "case r of Inl e \<Rightarrow> withdrawn name log log' | Inr _ \<Rightarrow> granted name server log log'"
proof -
  obtain q w1 where q: "oc_applyBinding (r_client R) [] name (mutate_binding server) w = (q, w1)" by (metis prod.exhaust)
  show ?thesis
  proof (cases q)
    case (Inl e)
    then have "rejectDelegatedAuthentication (watched R) name (Wrapped prefix e) (w1, log @ [Applied bindings [] name None]) = (r, (w', log'))"
      using run q by (simp add: logged_client_def applied_def noted_def io_simps tryE_def)
    from reject_withdraws [OF this] show ?thesis by (cases r) auto
  next
    case (Inr b)
    then have "r = Inr ()" "log' = log @ [Applied bindings [] name (Some (ABinding b))]"
      using run q by (simp_all add: logged_client_def applied_def noted_def io_simps tryE_def)
    moreover have "rb_RoleRef b = expectedRoleRef \<and> rb_Subjects b = [\<lparr>rs_Kind = ''ServiceAccount'', rs_Name = srv_Name server, rs_Namespace = srv_Namespace server\<rparr>]"
      using runs_mutationD [OF assms(1) q [unfolded Inr]] by (auto simp: mutate_binding_def)
    ultimately show ?thesis by (simp add: granted_def)
  qed
qed

lemma binding_step:
  assumes "runs_mutation (\<lambda>b. (rb_RoleRef b, rb_Subjects b)) (oc_applyBinding (r_client R))"
    and run: "reconcileBinding (watched R) server (w, log) = (r, (w', log'))"
  shows "case r of Inl e \<Rightarrow> withdrawn (clusterBindingName (r_sha R) server) log log' | Inr _ \<Rightarrow> granted (clusterBindingName (r_sha R) server) server log log'"
proof -
  let ?name = "clusterBindingName (r_sha R) server"
  let ?apply = "bindE (tryE (oc_applyBinding (logged_client (r_client R)) [] ?name (mutate_binding server))) (\<lambda>applied.
      case applied of Inl e \<Rightarrow> rejectDelegatedAuthentication (watched R) ?name (Wrapped ''reconcile TokenReview binding'' e) | Inr _ \<Rightarrow> ret ())"
  obtain q w1 where q: "oc_getBinding (r_client R) [] ?name w = (q, w1)" by (metis prod.exhaust)
  have "?apply (w1, log) = (r, (w', log')) \<or> isl r \<and> withdrawn ?name log log'"
  proof (cases q)
    case (Inl e)
    then show ?thesis
      using run q reject_withdraws_now [of R ?name _ w1 log r w' log']
      by (auto simp: reconcileBinding_def Let_def logged_client_def unlogged_def io_simps tryE_def split: if_splits)
  next
    case (Inr b)
    then show ?thesis
      using run q
      by (cases "rb_RoleRef b = expectedRoleRef")
        (auto simp: reconcileBinding_def Let_def logged_client_def unlogged_def noted_def io_simps tryE_def split: prod.splits option.splits)
  qed
  then show ?thesis
  proof
    assume "?apply (w1, log) = (r, (w', log'))"
    then show ?thesis by (rule apply_binding_step [OF assms(1)])
  next
    assume "isl r \<and> withdrawn ?name log log'"
    then show ?thesis by (cases r) auto
  qed
qed

lemma delegation_step:
  assumes "runs_mutation (\<lambda>b. (rb_RoleRef b, rb_Subjects b)) (oc_applyBinding (r_client R))"
    and run: "reconcileDelegatedAuthentication (watched R) server (w, log) = (r, (w', log'))"
  shows "case r of
      Inl e \<Rightarrow> withdrawn (clusterBindingName (r_sha R) server) log log'
    | Inr _ \<Rightarrow> granted (clusterBindingName (r_sha R) server) server log log' \<and> (\<exists>account w1 role w2.
        oc_getServiceAccount (r_client R) (srv_Namespace server) (srv_Name server) w = (Inr account, w1) \<and> requireControllerOwnership server account = None \<and>
        oc_getClusterRole (r_client R) [] tokenReviewerClusterRole w1 = (Inr role, w2) \<and> validTokenReviewerRole role)"
proof -
  let ?name = "clusterBindingName (r_sha R) server"
  obtain q w1 where q: "oc_getServiceAccount (r_client R) (srv_Namespace server) (srv_Name server) w = (q, w1)" by (metis prod.exhaust)
  obtain q2 w2 where q2: "oc_getClusterRole (r_client R) [] tokenReviewerClusterRole w1 = (q2, w2)" by (metis prod.exhaust)
  show ?thesis
  proof (cases "\<exists>account role. q = Inr account \<and> requireControllerOwnership server account = None \<and> q2 = Inr role \<and> validTokenReviewerRole role")
    case True
    then have "reconcileBinding (watched R) server (w2, log) = (r, (w', log'))"
      using run q q2 by (auto simp: reconcileDelegatedAuthentication_def Let_def logged_client_def unlogged_def io_simps tryE_def)
    from binding_step [OF assms(1) this] True q q2 show ?thesis by (cases r) auto
  next
    case False
    then obtain cause w3 where "rejectDelegatedAuthentication (watched R) ?name cause (w3, log) = (r, (w', log'))"
      using run q q2
      by (auto simp: reconcileDelegatedAuthentication_def Let_def logged_client_def unlogged_def io_simps tryE_def split: sum.splits option.splits if_splits)
    from reject_withdraws_now [OF this] show ?thesis by (cases r) auto
  qed
qed

section \<open>Properties: the objects of a server\<close>

text \<open>
  Property C17 (the operator's objects are protected). Whatever \<open>Reconcile\<close> creates, changes or deletes for a server, the failure paths included, is out of reach of that server's
  own clients: the policy of the configuration that the operator writes refuses every mutating action on the object. A change adds to the log and never rewrites it.
\<close>

theorem operator_objects_protected:
  assumes named: "reads_named (oc_getDeployment (r_client R))"
    and server: "oc_getServer (r_client R) ns name w = (Inr server, w1)" "so_Name server \<noteq> []" "so_Namespace server \<noteq> []" "r_OperatorNamespace R \<noteq> []"
    and run: "Reconcile C rnd (watched R) ns name (w, log) = (r, (w', log'))"
    and change: "ev \<in> set (drop (length log) log')" "event_key ev = (key, ns', name')"
    and action: "Mutating a" "act_Group a @ ''/'' @ act_Resource a = key" "act_Namespaced a = (ns' \<noteq> [])"
  shows "take (length log) log' = log \<and> CheckTarget (r_sha R) (FromResource (so_Server server)) a ns' name' \<noteq> None"
proof -
  have found: "reconcile_found C rnd (watched R) server (w1, log) = (r, (w', log'))"
    using run server(1) by (simp add: Reconcile_def logged_client_def unlogged_def io_simps tryE_def)
  from emitsD [OF touches_found [OF named] found] obtain es where es: "log' = log @ es" "list_all (touches R (so_Server server)) es" by blast
  with change have "(key, ns', name') \<in> set (managed_keys R (so_Server server))" by (auto simp: list_all_iff)
  from managed_key_protected [OF this server(2-4) action] es show ?thesis by simp
qed

text \<open>A client for the witnesses: it knows one server and the role, finds nothing else, and accepts every change.\<close>

definition sample_meta :: objectMeta where
  "sample_meta = \<lparr>om_Name = ''mcp'', om_Namespace = ''demo'', om_UID = [], om_ResourceVersion = [], om_Generation = 1, om_Labels = [], om_Annotations = [], om_Controller = None\<rparr>"

definition missing :: "(unit, 'o) getter" where
  "missing = (\<lambda>ns name. raise (StatusError NotFound ''missing''))"

definition applies :: "'o \<Rightarrow> (unit, 'o) applier" where
  "applies blank = (\<lambda>ns name f. liftR (f blank))"

definition sample_object :: serverObject where
  "sample_object = \<lparr>so_Server = sample_server, so_Deleting = False, so_Finalizers = [serverFinalizer], so_ObservedGeneration = 0, so_Endpoint = [],
     so_CAConfigMapName = [], so_Conditions = []\<rparr>"

definition sample_service :: Service where
  "sample_service = objectMeta.extend sample_meta \<lparr>sv_Type = [], sv_Selector = [], sv_ExternalName = [], sv_ExternalIPs = [], sv_LoadBalancerIP = [],
     sv_LoadBalancerSourceRanges = [], sv_LoadBalancerClass = None, sv_AllocateLoadBalancerNodePorts = None, sv_HealthCheckNodePort = 0,
     sv_ExternalTrafficPolicy = [], sv_Ports = []\<rparr>"

definition sample_account :: ServiceAccount where
  "sample_account = objectMeta.extend (sample_meta\<lparr>om_UID := ''a'', om_Controller := Some ''u''\<rparr>) \<lparr>sa_Automount = Some True\<rparr>"

definition sample_pods :: Deployment where
  "sample_pods = objectMeta.extend sample_meta \<lparr>dp_Replicas = None, dp_Selector = [], dp_TemplateLabels = [], dp_TemplateAnnotations = [],
     dp_Rollout = [], dp_PodSpec = [], dp_ObservedGeneration = 0, dp_UpdatedReplicas = 0, dp_AvailableReplicas = 0\<rparr>"

definition sample_binding :: ClusterRoleBinding where
  "sample_binding = objectMeta.extend sample_meta \<lparr>rb_RoleRef = expectedRoleRef, rb_Subjects = []\<rparr>"

definition sample_role :: ClusterRole where
  "sample_role = objectMeta.extend sample_meta \<lparr>cr_AggregationRule = None,
     cr_Rules = [\<lparr>pr_APIGroups = [''authentication.k8s.io''], pr_Resources = [''tokenreviews''], pr_Verbs = [''create''], pr_ResourceNames = [], pr_NonResourceURLs = []\<rparr>]\<rparr>"

definition sample_secret :: Secret where
  "sample_secret = objectMeta.extend sample_meta \<lparr>sec_Type = [], sec_Data = []\<rparr>"

definition sample_client :: "unit operatorClient" where
  "sample_client =
     \<lparr>oc_getServer = (\<lambda>ns name. ret sample_object), oc_updateServer = (\<lambda>s. ret ()), oc_updateStatus = (\<lambda>s. ret ()),
      oc_getService = missing, oc_applyService = applies sample_service, oc_getServiceAccount = (\<lambda>ns name. ret sample_account),
      oc_applyServiceAccount = applies sample_account, oc_applyConfigMap = applies (objectMeta.extend sample_meta \<lparr>cm_Data = []\<rparr>),
      oc_getDeployment = missing, oc_applyDeployment = applies sample_pods, oc_patchDeployment = (\<lambda>b d. ret ()),
      oc_getNetworkPolicy = missing, oc_applyNetworkPolicy = applies (objectMeta.extend sample_meta \<lparr>np_Spec = []\<rparr>),
      oc_deleteNetworkPolicy = (\<lambda>ns n u. ret ()), oc_getClusterRole = (\<lambda>ns name. ret sample_role), oc_getBinding = missing,
      oc_applyBinding = applies sample_binding, oc_deleteBinding = (\<lambda>n. ret ()), oc_getSecret = missing, oc_createSecret = (\<lambda>s. ret ()),
      oc_applySecret = applies sample_secret\<rparr>"

definition sample_reconciler :: "unit reconciler" where
  "sample_reconciler =
     \<lparr>r_client = sample_client, r_ServerImage = ''img'', r_OperatorNamespace = ''op'', r_sha = (\<lambda>s. take 8 s),
      r_ref_error = (\<lambda>s c. None), r_encode_config = (\<lambda>c. ''{}'')\<rparr>"

definition sample_crypto :: crypto where
  "sample_crypto =
     \<lparr>cy_keyPair = (\<lambda>c k. Inr [c]), cy_parseCertificate = (\<lambda>d. Inl (Plain ''unreadable'')), cy_pool = (\<lambda>p. []), cy_verify = (\<lambda>l d r i. None),
      cy_pemBlock = Some, cy_pem = (\<lambda>t b. b), cy_parseKey = (\<lambda>b. Inr (ECDSAKey b)), cy_marshalKey = (\<lambda>k. Inr ''key''), cy_create = (\<lambda>t p pub k. Inr ''crt'')\<rparr>"

definition sample_randomness :: randomness where
  "sample_randomness = \<lparr>rnd_caKey = Inr ''ca'', rnd_serverKey = Inr ''srv'', rnd_caSerial = 1, rnd_serverSerial = 2, rnd_now = 0\<rparr>"

definition sample_run :: "(gerr, ctrlResult) res \<times> unit \<times> opEvent list" where
  "sample_run = Reconcile sample_crypto sample_randomness (watched sample_reconciler) ''demo'' ''mcp'' ((), [])"

lemma sample_reads_named: "reads_named (oc_getDeployment (r_client sample_reconciler))"
  by (simp add: reads_named_def sample_reconciler_def sample_client_def missing_def io_simps)

lemma sample_keys:
  "map event_key (snd (snd sample_run)) =
     [(services, ''demo'', ''mcp''), (''/serviceaccounts'', ''demo'', ''mcp''), (bindings, [], clusterBindingName (r_sha sample_reconciler) sample_server),
      (''/secrets'', ''op'', ''supek8smcp-serving-ca''), (''/secrets'', ''demo'', ''mcp-tls''), (''/configmaps'', ''demo'', ''mcp-config''),
      (''/configmaps'', ''demo'', ''mcp-ca''), (''networking.k8s.io/networkpolicies'', ''demo'', ''mcp''), (deployments, ''demo'', ''mcp''),
      (services, ''demo'', ''mcp''), (''mcp.supek8smcp.io/kubernetesmcpservers'', ''demo'', ''mcp'')]"
  by code_simp

theorem operator_objects_protected_witness:
  "event_key (snd (snd sample_run) ! 3) = (''/secrets'', ''op'', ''supek8smcp-serving-ca'') \<and>
   CheckTarget (r_sha sample_reconciler) (FromResource sample_server)
     (sample_action\<lparr>act_GVR := \<lparr>gvr_Group = [], gvr_Version = ''v1'', gvr_Resource = ''secrets''\<rparr>, act_Verb := ''delete'', act_Namespaced := True\<rparr>)
     ''op'' ''supek8smcp-serving-ca'' \<noteq> None"
proof -
  obtain r w' log' where run: "Reconcile sample_crypto sample_randomness (watched sample_reconciler) ''demo'' ''mcp'' ((), []) = (r, (w', log'))"
    by (metis prod.exhaust)
  then have log: "snd (snd sample_run) = log'" by (simp add: sample_run_def)
  have len: "3 < length log'" using arg_cong [OF sample_keys, of length] unfolding log length_map by simp
  have key: "event_key (log' ! 3) = (''/secrets'', ''op'', ''supek8smcp-serving-ca'')"
    using sample_keys nth_map [OF len, of event_key] unfolding log by simp
  from len have "log' ! 3 \<in> set (drop (length ([] :: opEvent list)) log')" by simp
  from operator_objects_protected [OF sample_reads_named _ _ _ _ run this key, where server = sample_object and
      a = "sample_action\<lparr>act_GVR := \<lparr>gvr_Group = [], gvr_Version = ''v1'', gvr_Resource = ''secrets''\<rparr>, act_Verb := ''delete'', act_Namespaced := True\<rparr>"]
    key show ?thesis
    unfolding log by (simp add: sample_reconciler_def sample_client_def sample_object_def sample_server_def io_simps Mutating_def sample_action_def)
qed

section \<open>Properties: the traffic gate\<close>


lemma sample_runs: "runs_mutation keep (applies x)"
  by (auto simp: runs_mutation_def applies_def io_simps)


section \<open>Properties: delegated authentication\<close>

text \<open>
  Property C19 (delegation fails closed). The grant that lets a server review tokens exists after a run only if the run verified it: when \<open>reconcileDelegatedAuthentication\<close> succeeds,
  its only change is the binding, which names the reviewer role and exactly the server's ServiceAccount, the account is controlled by the server and the role grants only token
  reviews. When it fails, for whatever reason, its last change is the deletion of the binding.
\<close>

theorem delegation_fails_closed:
  assumes "runs_mutation (\<lambda>b. (rb_RoleRef b, rb_Subjects b)) (oc_applyBinding (r_client R))"
    and run: "reconcileDelegatedAuthentication (watched R) server (w, log) = (r, (w', log'))"
  shows "case r of
      Inl e \<Rightarrow> \<exists>es err. log' = log @ es @ [Removed bindings [] (clusterBindingName (r_sha R) server) err]
    | Inr _ \<Rightarrow> \<exists>account w1 role w2 binding.
        oc_getServiceAccount (r_client R) (srv_Namespace server) (srv_Name server) w = (Inr account, w1) \<and> requireControllerOwnership server account = None \<and>
        oc_getClusterRole (r_client R) [] tokenReviewerClusterRole w1 = (Inr role, w2) \<and> validTokenReviewerRole role \<and>
        log' = log @ [Applied bindings [] (clusterBindingName (r_sha R) server) (Some (ABinding binding))] \<and> rb_RoleRef binding = expectedRoleRef \<and>
        rb_Subjects binding = [\<lparr>rs_Kind = ''ServiceAccount'', rs_Name = srv_Name server, rs_Namespace = srv_Namespace server\<rparr>]"
  using delegation_step [OF assms] unfolding granted_def by (cases r) auto

theorem delegation_fails_closed_witness:
  "\<exists>binding. snd (snd (reconcileDelegatedAuthentication (watched sample_reconciler) sample_server ((), []))) =
     [Applied bindings [] (clusterBindingName (r_sha sample_reconciler) sample_server) (Some (ABinding binding))] \<and>
     rb_RoleRef binding = expectedRoleRef"
proof -
  have "runs_mutation (\<lambda>b. (rb_RoleRef b, rb_Subjects b)) (oc_applyBinding (r_client sample_reconciler))"
    by (simp add: sample_reconciler_def sample_client_def sample_runs)
  moreover obtain r w' log' where run: "reconcileDelegatedAuthentication (watched sample_reconciler) sample_server ((), []) = (r, (w', log'))"
    by (metis prod.exhaust)
  moreover have "\<not> isl (fst (reconcileDelegatedAuthentication (watched sample_reconciler) sample_server ((), [])))" by code_simp
  ultimately show ?thesis using delegation_fails_closed [of sample_reconciler sample_server "()" "[]" r w' log'] by (cases r) auto
qed

end
