(* ===== verification/Start_Up.thy ===== *)
theory Start_Up
  imports Gateway Operator_Safety
begin

text \<open>
  How a server starts: the command line (\<open>cmd/supek8smcp/main.go\<close>), \<open>Run\<close> of \<open>internal/server/run.go\<close> up to the listeners, and that the pods which the operator deploys
  start with the configuration the operator reconciled.

  The parsing of flags is a parameter that returns the flags that were given. Files and their decoding are parameters too.
\<close>

section \<open>The command line\<close>

record serverOptions =
  opt_ConfigPath :: string
  opt_ListenAddress :: string
  opt_MetricsAddress :: string
  opt_CertFile :: string
  opt_KeyFile :: string
  opt_Version :: string

record operatorOptions =
  oo_ServerImage :: string
  oo_OperatorNamespace :: string
  oo_MetricsAddress :: string
  oo_HealthAddress :: string
  oo_LeaderElection :: bool

datatype command = OperatorCommand operatorOptions | ServeCommand serverOptions | VersionCommand string | UsageExit | CommandFailed gerr

definition version :: string where
  "version = ''0.5.1''"

definition envOr :: "(string \<Rightarrow> string) \<Rightarrow> string \<Rightarrow> string \<Rightarrow> string" where
  "envOr getenv name fallback = (if getenv name \<noteq> [] then getenv name else fallback)"

definition flag_or :: "(string \<times> string) list \<Rightarrow> string \<Rightarrow> string \<Rightarrow> string" where
  "flag_or flags name fallback = (case mget flags name of Some v \<Rightarrow> v | None \<Rightarrow> fallback)"

definition operator_options :: "(string \<Rightarrow> string) \<Rightarrow> (string \<times> string) list \<Rightarrow> operatorOptions" where
  "operator_options getenv flags =
     \<lparr>oo_ServerImage = flag_or flags ''server-image'' (getenv ''SUPEK8SMCP_SERVER_IMAGE''),
      oo_OperatorNamespace = flag_or flags ''namespace'' (envOr getenv ''POD_NAMESPACE'' ''supek8smcp-system''),
      oo_MetricsAddress = flag_or flags ''metrics-bind-address'' '':8080'', oo_HealthAddress = flag_or flags ''health-probe-bind-address'' '':8081'',
      oo_LeaderElection = (flag_or flags ''leader-elect'' ''true'' = ''true'')\<rparr>"

definition server_options :: "(string \<times> string) list \<Rightarrow> serverOptions" where
  "server_options flags =
     \<lparr>opt_ConfigPath = flag_or flags ''config'' ''/etc/supek8smcp/config/config.json'', opt_ListenAddress = flag_or flags ''listen'' '':8443'',
      opt_MetricsAddress = flag_or flags ''metrics-listen'' '':9090'', opt_CertFile = flag_or flags ''tls-cert'' ''/etc/supek8smcp/tls/tls.crt'',
      opt_KeyFile = flag_or flags ''tls-key'' ''/etc/supek8smcp/tls/tls.key'', opt_Version = version\<rparr>"

text \<open>\<open>main\<close> up to the call of the command: \<open>parse\<close> gives the flags of a command, with a boolean flag as \<open>true\<close> or \<open>false\<close>.\<close>

definition main_command :: "(string \<Rightarrow> string) \<Rightarrow> (string \<Rightarrow> string list \<Rightarrow> (string \<times> string) list) \<Rightarrow> string list \<Rightarrow> command" where
  "main_command getenv parse args =
     (case args of
        program # name # rest \<Rightarrow>
          if name = ''operator'' then
            (let opts = operator_options getenv (parse name rest) in
             if oo_ServerImage opts = [] then CommandFailed (Plain ''--server-image or SUPEK8SMCP_SERVER_IMAGE is required'') else OperatorCommand opts)
          else if name = ''serve'' then ServeCommand (server_options (parse name rest))
          else if name = ''version'' then VersionCommand version
          else UsageExit
      | _ \<Rightarrow> UsageExit)"

section \<open>The start of a server\<close>

definition load_path :: "(string \<Rightarrow> (gerr, string) res) \<Rightarrow> (string \<Rightarrow> (gerr, Config) res) \<Rightarrow> string \<Rightarrow> (gerr, Config) res" where
  "load_path readFile unmarshal path =
     Load (case readFile path of
        Inl e \<Rightarrow> Inl (Wrapped ''read server config'' e)
      | Inr data \<Rightarrow> (case unmarshal data of Inl e \<Rightarrow> Inl (Wrapped ''decode server config'' e) | Inr cfg \<Rightarrow> Inr cfg))"

definition Run ::
  "(string \<Rightarrow> (gerr, string) res) \<Rightarrow> (string \<Rightarrow> (gerr, Config) res) \<Rightarrow> (gerr, restConfig) res \<Rightarrow> (string \<Rightarrow> string) \<Rightarrow> 'l tokenBucket \<Rightarrow> 'w authApi \<Rightarrow> gerr option \<Rightarrow>
   serverOptions \<Rightarrow> 'w \<Rightarrow> (gerr, ('l, 'w) gateway \<times> ('l, 'w) gateState) res" where
  "Run readFile unmarshal inCluster sha tb api codec_error opts w =
     bindR (load_path readFile unmarshal (opt_ConfigPath opts)) (\<lambda>cfg.
       case inCluster of
         Inl e \<Rightarrow> Inl (Wrapped ''load in-cluster configuration'' e)
       | Inr base \<Rightarrow> NewApp sha tb api base codec_error cfg w)"

section \<open>The pod\<close>

text \<open>What a pod spec says about arguments, mounts and volumes of its first container.\<close>

datatype volumeSource = FromConfigMap string | FromSecret string | Scratch

definition first_container :: "gmap \<Rightarrow> gmap" where
  "first_container pod = (case list_or_nil (gfield pod ''containers'') of c # _ \<Rightarrow> map_or_nil c | [] \<Rightarrow> [])"

definition pod_args :: "gmap \<Rightarrow> string list" where
  "pod_args pod = (case gfield (first_container pod) ''args'' of GStrs ss \<Rightarrow> ss | _ \<Rightarrow> [])"

definition mount_paths :: "gmap \<Rightarrow> (string \<times> string) list" where
  "mount_paths pod =
     map (\<lambda>m. (string_or_empty (gfield (map_or_nil m) ''name''), string_or_empty (gfield (map_or_nil m) ''mountPath'')))
       (list_or_nil (gfield (first_container pod) ''volumeMounts''))"

definition volume_source :: "gmap \<Rightarrow> volumeSource" where
  "volume_source v =
     (case (gfield v ''configMap'', gfield v ''secret'') of
        (GObj m, _) \<Rightarrow> FromConfigMap (string_or_empty (gfield m ''name''))
      | (_, GObj m) \<Rightarrow> FromSecret (string_or_empty (gfield m ''secretName''))
      | _ \<Rightarrow> Scratch)"

definition pod_volumes :: "gmap \<Rightarrow> (string \<times> volumeSource) list" where
  "pod_volumes pod = map (\<lambda>v. (string_or_empty (gfield (map_or_nil v) ''name''), volume_source (map_or_nil v))) (list_or_nil (gfield pod ''volumes''))"

text \<open>
  Hypothesis on the kubelet: under each mount path of a volume that comes from a ConfigMap or Secret there is a file per key, with the value that is stored there.
\<close>

definition mounted :: "gmap \<Rightarrow> (volumeSource \<Rightarrow> (string \<times> string) list) \<Rightarrow> (string \<Rightarrow> (gerr, string) res) \<Rightarrow> bool" where
  "mounted pod stored readFile =
     (\<forall>volume path source key content. (volume, path) \<in> set (mount_paths pod) \<longrightarrow> (volume, source) \<in> set (pod_volumes pod) \<longrightarrow>
        mget (stored source) key = Some content \<longrightarrow> readFile (path @ ''/'' @ key) = Inr content)"

lemma server_pod:
  "pod_args (server_pod_spec R server) = [''serve'']"
  "mount_paths (server_pod_spec R server) = [(''config'', ''/etc/supek8smcp/config''), (''tls'', ''/etc/supek8smcp/tls''), (''tmp'', ''/tmp'')]"
  "pod_volumes (server_pod_spec R server) =
     [(''config'', FromConfigMap (srv_Name server @ ''-config'')), (''tls'', FromSecret (TLSSecretName server)), (''tmp'', Scratch)]"
  by (simp_all add: pod_args_def mount_paths_def pod_volumes_def first_container_def volume_source_def server_pod_spec_def server_container_def gfield_def mget_def
      list_or_nil_def map_or_nil_def string_or_empty_def Let_def)

section \<open>Lemmas\<close>

lemma config_map_step:
  assumes "runs_mutation cm_Data (oc_applyConfigMap (r_client R))"
    and "reconcileConfigMap (watched R) server labels suffix entry (w, log) = (Inr cm, (w', log'))"
  shows "log' = log @ [Applied ''/configmaps'' (srv_Namespace server) (srv_Name server @ suffix) (Some (AConfigMap cm))] \<and> cm_Data cm = [entry]"
proof -
  have apply_run: "oc_applyConfigMap (r_client R) (srv_Namespace server) (srv_Name server @ suffix)
      (mutate_owned (watched R) server (\<lambda>cm. cm\<lparr>om_Labels := labels, cm_Data := [entry]\<rparr>)) w = (Inr cm, w')"
    and log: "log' = log @ [Applied ''/configmaps'' (srv_Namespace server) (srv_Name server @ suffix) (Some (AConfigMap cm))]"
    using assms(2) by (auto simp: reconcileConfigMap_def logged_client_def applied_def noted_def split: prod.splits)
  from owned_mutation.applied_as [OF mutate_owned_contract assms(1) apply_run] log show ?thesis by auto
qed

lemma deployment_pod:
  assumes "runs_mutation dp_PodSpec (oc_applyDeployment (r_client R))"
    and run: "reconcileDeployment (watched R) server labels revision configRevision tlsRevision (w, log) = (Inr g, (w', log'))"
  shows "\<exists>d. log' = log @ [Applied deployments (srv_Namespace server) (srv_Name server) (Some (ADeployment d))] \<and> dp_PodSpec d = server_pod_spec (watched R) server"
proof -
  from deployment_applied [OF run] obtain d where d: "oc_applyDeployment (r_client R) (srv_Namespace server) (srv_Name server)
      (mutate_deployment (watched R) server labels revision configRevision tlsRevision) w = (Inr d, w')"
    "log' = log @ [Applied deployments (srv_Namespace server) (srv_Name server) (Some (ADeployment d))]" by blast
  with deployment_mutation.applied_as [OF assms(1) d(1)] show ?thesis by (auto simp: deployment_change_def)
qed

lemma emits_extends: "emits ok m \<Longrightarrow> m (w, log) = (r, (w', log')) \<Longrightarrow> set log \<subseteq> set log'"
  by (drule (1) emitsD) auto

lemma resources_applied:
  assumes config: "runs_mutation cm_Data (oc_applyConfigMap (r_client R))" and pods: "runs_mutation dp_PodSpec (oc_applyDeployment (r_client R))"
    and run: "reconcileResources (watched R) server labels policyRev certificate (w, log) = (Inr g, (w', log'))"
  shows "\<exists>cfg cm d. Marshal (FromResource server) = Inr cfg \<and> cm_Data cm = [(''config.json'', r_encode_config R cfg)] \<and>
    Applied ''/configmaps'' (srv_Namespace server) (srv_Name server @ ''-config'') (Some (AConfigMap cm)) \<in> set log' \<and>
    Applied deployments (srv_Namespace server) (srv_Name server) (Some (ADeployment d)) \<in> set log' \<and> dp_PodSpec d = server_pod_spec (watched R) server"
proof -
  obtain cfg cm s1 s2 s3 s4 revision configRevision where marshal: "Marshal (FromResource server) = Inr cfg"
    and one: "reconcileConfigMap (watched R) server labels ''-config'' (''config.json'', r_encode_config R cfg) (w, log) = (Inr cm, s1)"
    and two: "\<exists>ca. reconcileConfigMap (watched R) server labels ''-ca'' (''ca.crt'', scm_caBundle certificate) s1 = (Inr ca, s2)"
    and three: "reconcileNetworkPolicy (watched R) server labels s2 = (Inr (), s3)"
    and four: "reconcileDeployment (watched R) server labels revision configRevision (scm_revision certificate) s3 = (Inr g, s4)"
    and five: "reconcileService (watched R) server labels policyRev revision s4 = (Inr (), (w', log'))"
    using run unfolding reconcileResources_def Let_def watched_simps
    by (auto simp: wrapE_Inr ret_Inr_iff liftR_Inr_iff elim!: bindE_InrE)
  obtain w1 l1 w2 l2 w3 l3 w4 l4 where s: "s1 = (w1, l1)" "s2 = (w2, l2)" "s3 = (w3, l3)" "s4 = (w4, l4)" by (metis prod.exhaust)
  from config_map_step [OF config one [unfolded s]] have cm: "cm_Data cm = [(''config.json'', r_encode_config R cfg)]"
    "Applied ''/configmaps'' (srv_Namespace server) (srv_Name server @ ''-config'') (Some (AConfigMap cm)) \<in> set l1" by simp_all
  from deployment_pod [OF pods four [unfolded s]] obtain d where d: "l4 = l3 @ [Applied deployments (srv_Namespace server) (srv_Name server) (Some (ADeployment d))]"
    "dp_PodSpec d = server_pod_spec (watched R) server" by blast
  have "set l1 \<subseteq> set l2" using two config_map_step [OF config] unfolding s by fastforce
  moreover have policy: "emits (\<lambda>e. True) (reconcileNetworkPolicy (watched R) server labels)"
    by (simp add: reconcileNetworkPolicy_def Let_def logged_client_def op_intros)
  have "set l2 \<subseteq> set l3" by (rule emits_extends [OF policy]) (rule three [unfolded s])
  moreover have "set l4 \<subseteq> set log'" using emits_extends [OF touches_services(1) five [unfolded s]] .
  ultimately show ?thesis using marshal cm d by auto
qed

section \<open>Property\<close>

text \<open>
  Property C27 (pods run the reconciled configuration). When \<open>reconcileResources\<close> succeeds, a pod of the Deployment it applied starts with the command line of that Deployment, and what it loads is the
  configuration of the server that was reconciled, provided that the kubelet mounts the ConfigMap that was applied: paths, keys and names of both programs fit together, and defaulting and
  validating a second time changes nothing. The TLS files it serves with are those of the Secret that was validated.
\<close>

theorem pods_run_reconciled_configuration:
  assumes config: "runs_mutation cm_Data (oc_applyConfigMap (r_client R))" and pods: "runs_mutation dp_PodSpec (oc_applyDeployment (r_client R))"
    and json: "unmarshal (r_encode_config R (FromResource server)) = Inr (FromResource server)" and flags: "parse ''serve'' [] = []"
    and run: "reconcileResources (watched R) server labels policyRev certificate (w, log) = (Inr g, (w', log'))"
  shows "\<exists>cm d opts. Applied ''/configmaps'' (srv_Namespace server) (srv_Name server @ ''-config'') (Some (AConfigMap cm)) \<in> set log' \<and>
    Applied deployments (srv_Namespace server) (srv_Name server) (Some (ADeployment d)) \<in> set log' \<and>
    cm_Data cm = [(''config.json'', r_encode_config R (FromResource server))] \<and> dp_PodSpec d = server_pod_spec R server \<and>
    main_command getenv parse (program # pod_args (dp_PodSpec d)) = ServeCommand opts \<and>
    (\<forall>stored readFile. mounted (dp_PodSpec d) stored readFile \<longrightarrow> stored (FromConfigMap (srv_Name server @ ''-config'')) = cm_Data cm \<longrightarrow>
       load_path readFile unmarshal (opt_ConfigPath opts) = Inr (FromResource server) \<and>
       (\<forall>crt. mget (stored (FromSecret (TLSSecretName server))) ''tls.crt'' = Some crt \<longrightarrow> readFile (opt_CertFile opts) = Inr crt) \<and>
       (\<forall>key. mget (stored (FromSecret (TLSSecretName server))) ''tls.key'' = Some key \<longrightarrow> readFile (opt_KeyFile opts) = Inr key))"
proof -
  from resources_applied [OF config pods run] obtain cfg cm d where applied: "Marshal (FromResource server) = Inr cfg"
    "cm_Data cm = [(''config.json'', r_encode_config R cfg)]"
    "Applied ''/configmaps'' (srv_Namespace server) (srv_Name server @ ''-config'') (Some (AConfigMap cm)) \<in> set log'"
    "Applied deployments (srv_Namespace server) (srv_Name server) (Some (ADeployment d)) \<in> set log'" "dp_PodSpec d = server_pod_spec (watched R) server" by blast
  let ?opts = "server_options []"
  have command: "main_command getenv parse (program # pod_args (dp_PodSpec d)) = ServeCommand ?opts"
    using flags by (simp add: main_command_def applied server_pod)
  have paths: "opt_ConfigPath ?opts = ''/etc/supek8smcp/config'' @ ''/'' @ ''config.json''" "opt_CertFile ?opts = ''/etc/supek8smcp/tls'' @ ''/'' @ ''tls.crt''"
    "opt_KeyFile ?opts = ''/etc/supek8smcp/tls'' @ ''/'' @ ''tls.key''"
    by (simp_all add: server_options_def flag_or_def mget_def)
  have files: "readFile (path @ ''/'' @ key) = Inr content"
    if "mounted (dp_PodSpec d) stored readFile" "(volume, path) \<in> set (mount_paths (dp_PodSpec d))" "(volume, source) \<in> set (pod_volumes (dp_PodSpec d))"
      "mget (stored source) key = Some content" for stored readFile volume path source key content
    using that unfolding mounted_def by blast
  have load: "load_path readFile unmarshal (opt_ConfigPath ?opts) = Inr (FromResource server)"
    if "readFile (opt_ConfigPath ?opts) = Inr (r_encode_config R cfg)" for readFile
    using that json loads_marshalled [OF applied(1)] by (simp add: load_path_def)
  have results: "cm_Data cm = [(''config.json'', r_encode_config R (FromResource server))]" "dp_PodSpec d = server_pod_spec R server"
    using applied(2, 5) loads_marshalled(1) [OF applied(1)] by (simp_all add: server_pod_spec_def server_container_def)
  show ?thesis
    using applied(3, 4) results command
  proof (intro exI [of _ cm] exI [of _ d] exI [of _ ?opts] conjI allI impI)
    fix stored readFile assume m: "mounted (dp_PodSpec d) stored readFile" "stored (FromConfigMap (srv_Name server @ ''-config'')) = cm_Data cm"
    show "load_path readFile unmarshal (opt_ConfigPath ?opts) = Inr (FromResource server)"
      by (rule load, unfold paths, rule files [OF m(1), of "''config''" _ "FromConfigMap (srv_Name server @ ''-config'')"])
        (simp_all add: applied server_pod m mget_def)
    show "readFile (opt_CertFile ?opts) = Inr crt" if "mget (stored (FromSecret (TLSSecretName server))) ''tls.crt'' = Some crt" for crt
      unfolding paths by (rule files [OF m(1) _ _ that, of "''tls''"]) (simp_all add: applied server_pod)
    show "readFile (opt_KeyFile ?opts) = Inr key" if "mget (stored (FromSecret (TLSSecretName server))) ''tls.key'' = Some key" for key
      unfolding paths by (rule files [OF m(1) _ _ that, of "''tls''"]) (simp_all add: applied server_pod)
  qed
qed

definition sample_material :: servingCertificateMaterial where
  "sample_material = \<lparr>scm_caBundle = ''ca'', scm_revision = ''t''\<rparr>"

definition sample_files :: "string \<Rightarrow> (gerr, string) res" where
  "sample_files path = (if path = ''/etc/supek8smcp/config/config.json'' then Inr ''{}'' else Inl (Plain ''no such file''))"

definition sample_stored :: "volumeSource \<Rightarrow> (string \<times> string) list" where
  "sample_stored source = (if source = FromConfigMap ''mcp-config'' then [(''config.json'', ''{}'')] else [])"

theorem pods_run_reconciled_configuration_witness:
  "\<exists>opts. main_command (\<lambda>n. []) (\<lambda>n args. []) (''supek8smcp'' # pod_args (server_pod_spec sample_reconciler sample_server)) = ServeCommand opts \<and>
     load_path sample_files (\<lambda>s. Inr sample_config) (opt_ConfigPath opts) = Inr (FromResource sample_server)"
proof -
  let ?run = "reconcileResources (watched sample_reconciler) sample_server [] ''p'' sample_material ((), [])"
  have ok: "\<not> isl (fst ?run)" by code_simp
  obtain g w' log' where run: "?run = (Inr g, (w', log'))" using ok by (cases "fst ?run") (auto simp: prod_eq_iff)
  have client: "runs_mutation cm_Data (oc_applyConfigMap (r_client sample_reconciler))" "runs_mutation dp_PodSpec (oc_applyDeployment (r_client sample_reconciler))"
    by (simp_all add: sample_reconciler_def sample_client_def sample_runs)
  have json: "(\<lambda>s. Inr sample_config) (r_encode_config sample_reconciler (FromResource sample_server)) = (Inr (FromResource sample_server) :: (gerr, Config) res)"
    by (simp add: sample_from_resource)
  obtain cm :: ConfigMap and d :: Deployment and opts where result: "cm_Data cm = [(''config.json'', r_encode_config sample_reconciler (FromResource sample_server))]"
    "dp_PodSpec d = server_pod_spec sample_reconciler sample_server"
    "main_command (\<lambda>n. []) (\<lambda>n args. []) (''supek8smcp'' # pod_args (dp_PodSpec d)) = ServeCommand opts"
    "\<And>stored readFile. mounted (dp_PodSpec d) stored readFile \<Longrightarrow> stored (FromConfigMap (srv_Name sample_server @ ''-config'')) = cm_Data cm \<Longrightarrow>
       load_path readFile (\<lambda>s. Inr sample_config) (opt_ConfigPath opts) = Inr (FromResource sample_server)"
    using pods_run_reconciled_configuration [where parse = "\<lambda>n args. []" and getenv = "\<lambda>n. []" and program = "''supek8smcp''", OF client json refl run]
    by blast
  have "mounted (server_pod_spec sample_reconciler sample_server) sample_stored sample_files"
    by (auto simp: mounted_def server_pod sample_stored_def sample_files_def mget_def split: if_splits)
  with result(4) [of sample_stored sample_files] result(1-3) show ?thesis
    by (auto simp: sample_stored_def sample_server_def sample_reconciler_def)
qed

end
