(* ===== verification/Serving.thy ===== *)
theory Serving
  imports Tools Start_Up
begin

text \<open>
  The last part of \<open>internal/server/run.go\<close> and of \<open>cmd/supek8smcp/main.go\<close>: the two HTTP servers that \<open>Serve\<close> starts, the routes of the metrics server, how
  \<open>Serve\<close> and the process end, and the schema that is published for \<open>k8s.commit\<close>.

  Listening and the shutdown of a listener belong to the standard library; what \<open>Serve\<close> decides is the settings, which event ends it and with which result.
\<close>

section \<open>Construction\<close>

text \<open>\<open>newCapabilityCodec\<close>: a fresh key for the signatures of handles and no handles. The key enters the other theories through the signature function.\<close>

definition newCapabilityCodec :: "(gerr, string) res \<Rightarrow> (gerr, string \<times> capabilityCodec) res" where
  "newCapabilityCodec random = (case random of Inl e \<Rightarrow> Inl (Wrapped ''generate capability signing key'' e) | Inr key \<Rightarrow> Inr (key, []))"

text \<open>A server starts only with a key.\<close>

lemma started_with_key:
  assumes "Run readFile unmarshal inCluster sha tb api (err_of (newCapabilityCodec random)) opts w = Inr app"
  shows "\<exists>key. random = Inr key \<and> newCapabilityCodec random = Inr (key, [])"
  using assms by (cases random; cases inCluster) (auto simp: Run_def NewApp_def newCapabilityCodec_def bindR_Inr_iff Let_def split: sum.splits option.splits)

section \<open>Progress\<close>

text \<open>
  \<open>notifyProgress\<close>: a message goes to the client only when the request has a progress token; the outcome is dropped. The handlers of \<open>Reads\<close> and \<open>Remote\<close> keep
  the messages as a list, in the order in which they are sent.
\<close>

record progressMessage =
  pm_Token :: gval
  pm_Progress :: int
  pm_Message :: string

definition notifyProgress :: "gval option \<Rightarrow> int \<Rightarrow> string \<Rightarrow> progressMessage list \<Rightarrow> progressMessage list" where
  "notifyProgress token progress message sent =
     (case token of None \<Rightarrow> sent | Some t \<Rightarrow> sent @ [\<lparr>pm_Token = t, pm_Progress = progress, pm_Message = message\<rparr>])"

text \<open>The messages of a watch or of followed logs: the progress is the number of items so far.\<close>

definition send_progress :: "gval option \<Rightarrow> string list \<Rightarrow> progressMessage list" where
  "send_progress token notes = fold (\<lambda>(n, message). notifyProgress token (int n) message) (enumerate 1 notes) []"

lemma send_progress_messages:
  "send_progress token said = (case token of None \<Rightarrow> []
     | Some t \<Rightarrow> map (\<lambda>(n, message). \<lparr>pm_Token = t, pm_Progress = int n, pm_Message = message\<rparr>) (enumerate 1 said))"
proof -
  have "fold (\<lambda>(n, message). notifyProgress token (int n) message) xs sent =
      sent @ (case token of None \<Rightarrow> [] | Some t \<Rightarrow> map (\<lambda>(n, message). \<lparr>pm_Token = t, pm_Progress = int n, pm_Message = message\<rparr>) xs)" for xs sent
    by (induction xs arbitrary: sent) (auto simp: notifyProgress_def split: option.splits)
  from this [of "enumerate 1 said" "[]"] show ?thesis by (simp add: send_progress_def del: One_nat_def)
qed

section \<open>The servers\<close>

record httpServer =
  hs_Addr :: string
  hs_ReadTimeout :: duration
  hs_ReadHeaderTimeout :: duration
  hs_WriteTimeout :: duration
  hs_IdleTimeout :: duration
  hs_MinVersion :: "int option"

text \<open>\<open>tls.VersionTLS12\<close>.\<close>

definition VersionTLS12 :: int where
  "VersionTLS12 = 771"

definition mcpHTTP :: "Config \<Rightarrow> serverOptions \<Rightarrow> httpServer" where
  "mcpHTTP cfg opts =
     \<lparr>hs_Addr = opt_ListenAddress opts, hs_ReadTimeout = RequestTimeout (cfg_Limits cfg), hs_ReadHeaderTimeout = 10 * second,
      hs_WriteTimeout = serverWriteTimeout cfg, hs_IdleTimeout = 90 * second, hs_MinVersion = Some VersionTLS12\<rparr>"

definition metricsHTTP :: "serverOptions \<Rightarrow> httpServer" where
  "metricsHTTP opts =
     \<lparr>hs_Addr = opt_MetricsAddress opts, hs_ReadTimeout = 10 * second, hs_ReadHeaderTimeout = 5 * second,
      hs_WriteTimeout = 15 * second, hs_IdleTimeout = 30 * second, hs_MinVersion = None\<rparr>"

text \<open>The routes of the metrics server. \<open>scrape\<close> is the handler of the Prometheus library; the router of the standard library answers other paths.\<close>

definition serve_metrics ::
  "('w \<Rightarrow> httpResponse \<times> 'w) \<Rightarrow> (string \<Rightarrow> (gerr, string) res) \<Rightarrow> ('l, 'w) gateway \<Rightarrow> string \<Rightarrow> 'w \<Rightarrow> httpResponse \<times> 'w" where
  "serve_metrics scrape readFile G path w =
     (if path = ''/metrics'' then scrape w
      else if path = ''/healthz'' then (\<lparr>http_Status = 200, http_Headers = [], http_Error = None\<rparr>, w)
      else if path = ''/readyz'' then serve_readyz readFile G w
      else (\<lparr>http_Status = 404, http_Headers = [], http_Error = None\<rparr>, w))"

section \<open>The end of Serve\<close>

text \<open>What the select of \<open>Serve\<close> receives first: the end of the context, or the error with which a listener returned.\<close>

datatype listenError = ErrServerClosed | ListenError gerr

datatype serveEvent = ServeContextDone | ListenerEnded listenError

datatype shutdownCall = ShutdownMCP duration | ShutdownMetrics duration

definition App_Serve :: "serveEvent \<Rightarrow> gerr option \<times> shutdownCall list" where
  "App_Serve event =
     (case event of
        ServeContextDone \<Rightarrow> (None, [ShutdownMCP (10 * second), ShutdownMetrics (10 * second)])
      | ListenerEnded ErrServerClosed \<Rightarrow> (None, [])
      | ListenerEnded (ListenError e) \<Rightarrow> (Some e, []))"

text \<open>The exit code of the process: the error of the command that ran.\<close>

definition main_exit :: "command \<Rightarrow> gerr option \<Rightarrow> int" where
  "main_exit c err =
     (case c of
        UsageExit \<Rightarrow> 2
      | VersionCommand v \<Rightarrow> 0
      | CommandFailed e \<Rightarrow> 1
      | _ \<Rightarrow> (case err of None \<Rightarrow> 0 | Some e \<Rightarrow> 1))"

section \<open>The published schema of k8s.commit\<close>

record propertySchema =
  pp_Type :: string
  pp_Description :: string
  pp_Pattern :: string

record inputSchema =
  is_Properties :: "(string \<times> propertySchema) list"
  is_Required :: "string list"

definition confirmationCodePattern :: string where
  "confirmationCodePattern = ''^[0-9]{6}$''"

text \<open>\<open>jsonschema.For\<close> is a parameter: the schema that the library derives from \<open>CommitInput\<close>.\<close>

definition newCommitInputSchema :: "(gerr, inputSchema) res \<Rightarrow> (gerr, inputSchema) res" where
  "newCommitInputSchema derived =
     bindR derived (\<lambda>schema.
       case mget (is_Properties schema) ''confirmationCode'' of
         None \<Rightarrow> Inl (Plain ''confirmationCode property is missing'')
       | Some confirmation \<Rightarrow>
          Inr (schema\<lparr>is_Properties := mput (is_Properties schema) ''confirmationCode'' (confirmation\<lparr>pp_Pattern := confirmationCodePattern\<rparr>)\<rparr>))"

text \<open>
  What a pattern of the form \<open>^[a-b]{n}$\<close> matches, in the syntax of Go: exactly n bytes of the class, from the start to the end of the text. Other patterns are not used here
  and match nothing.
\<close>

definition class_pattern :: "string \<Rightarrow> (char \<times> char \<times> nat) option" where
  "class_pattern p =
     (case p of
        a # b # lo # d # hi # c # e # rest \<Rightarrow>
          if [a, b, d, c, e] = ''^[-]{'' \<and> takeWhile is_digit rest \<noteq> [] \<and> dropWhile is_digit rest = ''}$''
          then Some (lo, hi, nat_of_digits (takeWhile is_digit rest)) else None
      | _ \<Rightarrow> None)"

definition pattern_matches :: "string \<Rightarrow> string \<Rightarrow> bool" where
  "pattern_matches p s =
     (case class_pattern p of
        Some (lo, hi, n) \<Rightarrow> length s = n \<and> list_all (\<lambda>c. (of_char lo :: nat) \<le> of_char c \<and> (of_char c :: nat) \<le> of_char hi) s
      | None \<Rightarrow> False)"

section \<open>Lemmas\<close>

lemma confirmation_class: "class_pattern confirmationCodePattern = Some (CHR ''0'', CHR ''9'', 6)"
  by code_simp

lemma pattern_is_check: "pattern_matches confirmationCodePattern code = validConfirmationCode code"
  by (auto simp: pattern_matches_def confirmation_class validConfirmationCode_def is_digit_def list_all_iff Let_def)

lemma issued_code_valid: "0 \<le> n \<Longrightarrow> n < 900000 \<Longrightarrow> randomConfirmationCode (Inr n) = Inr code \<Longrightarrow> validConfirmationCode code"
  using randomConfirmationCode_valid [of n] by (auto simp: randomConfirmationCode_def)

lemma consumed_code_valid: "Consume sha now planID subject code store = (Inr operation, store') \<Longrightarrow> validConfirmationCode code"
  by (simp add: Consume_Inr_iff)

lemma decoded_code_valid:
  assumes "decodeCommitInput (ObjectArguments kvs) = Inr input" "map_of (rev kvs) ''confirmationCode'' = Some v"
  shows "\<exists>code. v = GStr code \<and> validConfirmationCode code"
proof -
  have "validConfirmationCode (case v of GStr s \<Rightarrow> s | _ \<Rightarrow> [])"
    using assms by (auto simp: decodeCommitInput_def Let_def split: prod.splits option.splits if_splits)
  then show ?thesis by (cases v) (auto simp: validConfirmationCode_def)
qed

text \<open>
  The write timeout of the MCP server leaves room for a request that waits for a slot, is authenticated and runs the longest operation; the metrics server and the
  MCP server never share their settings for TLS.
\<close>

lemma mcp_server_write_timeout:
  assumes "Validate cfg = None" "2 * RequestTimeout (cfg_Limits cfg) + max (StreamTimeout (cfg_Limits cfg)) (ExecTimeout (cfg_Limits cfg)) + 10 * second \<le> max_int64"
    and "3 * RequestTimeout (cfg_Limits cfg) + 10 * second \<le> max_int64"
  shows "hs_ReadTimeout (mcpHTTP cfg opts) + max (StreamTimeout (cfg_Limits cfg)) (ExecTimeout (cfg_Limits cfg)) < hs_WriteTimeout (mcpHTTP cfg opts)"
  using write_timeout_covers [OF assms(1)] Validate_None(8,9,10) [OF assms(1)] assms(2,3) by (auto simp: mcpHTTP_def max_def min_def)

lemma orderly_shutdown:
  "main_exit (ServeCommand opts) (fst (App_Serve ServeContextDone)) = 0" "main_exit (ServeCommand opts) (fst (App_Serve (ListenerEnded ErrServerClosed))) = 0"
  "main_exit (ServeCommand opts) (fst (App_Serve (ListenerEnded (ListenError e)))) = 1"
  by (simp_all add: App_Serve_def main_exit_def)

section \<open>Properties\<close>

text \<open>
  The published code format is the checked one. The schema that is published for \<open>k8s.commit\<close> gives the confirmation code a pattern that matches exactly the codes the server
  checks for: every code that a plan is issued with matches it, the decoder of the arguments accepts a code only if it matches, and a plan is consumed only with one that matches. The schema
  changes nothing else of what was derived from the type.
\<close>

theorem confirmation_codes_agree:
  assumes "newCommitInputSchema (Inr derived) = Inr schema"
  shows "\<exists>p q. mget (is_Properties derived) ''confirmationCode'' = Some p \<and> mget (is_Properties schema) ''confirmationCode'' = Some q \<and>
      q = p\<lparr>pp_Pattern := pp_Pattern q\<rparr> \<and> (\<forall>field. field \<noteq> ''confirmationCode'' \<longrightarrow> mget (is_Properties schema) field = mget (is_Properties derived) field) \<and>
      (\<forall>code. pattern_matches (pp_Pattern q) code = validConfirmationCode code) \<and>
      (\<forall>n code. 0 \<le> n \<and> n < 900000 \<and> randomConfirmationCode (Inr n) = Inr code \<longrightarrow> pattern_matches (pp_Pattern q) code) \<and>
      (\<forall>kvs input v. decodeCommitInput (ObjectArguments kvs) = Inr input \<and> map_of (rev kvs) ''confirmationCode'' = Some v \<longrightarrow>
         (\<exists>code. v = GStr code \<and> pattern_matches (pp_Pattern q) code)) \<and>
      (\<forall>sha now planID subject code store operation store'. Consume sha now planID subject code store = (Inr operation, store') \<longrightarrow>
         pattern_matches (pp_Pattern q) code)"
proof -
  obtain p where p: "mget (is_Properties derived) ''confirmationCode'' = Some p"
    "schema = derived\<lparr>is_Properties := mput (is_Properties derived) ''confirmationCode'' (p\<lparr>pp_Pattern := confirmationCodePattern\<rparr>)\<rparr>"
    using assms by (auto simp: newCommitInputSchema_def split: option.splits)
  show ?thesis
    by (rule exI [of _ p], rule exI [of _ "p\<lparr>pp_Pattern := confirmationCodePattern\<rparr>"])
      (use p in \<open>auto simp: pattern_is_check dest: issued_code_valid decoded_code_valid consumed_code_valid\<close>)
qed

section \<open>Witness\<close>

definition sample_schema :: inputSchema where
  "sample_schema =
     \<lparr>is_Properties = [(''planId'', \<lparr>pp_Type = ''string'', pp_Description = [], pp_Pattern = []\<rparr>),
        (''confirmationCode'', \<lparr>pp_Type = ''string'', pp_Description = [], pp_Pattern = []\<rparr>)], is_Required = [''planId'', ''confirmationCode'']\<rparr>"

theorem confirmation_codes_agree_witness:
  "\<exists>schema q. newCommitInputSchema (Inr sample_schema) = Inr schema \<and> mget (is_Properties schema) ''confirmationCode'' = Some q \<and>
     pp_Type q = ''string'' \<and> pattern_matches (pp_Pattern q) ''123456''"
proof -
  obtain schema where s: "newCommitInputSchema (Inr sample_schema) = Inr schema" by (simp add: newCommitInputSchema_def sample_schema_def mget_def)
  have "mget (is_Properties sample_schema) ''confirmationCode'' = Some \<lparr>pp_Type = ''string'', pp_Description = [], pp_Pattern = []\<rparr>"
    by (simp add: sample_schema_def mget_def)
  moreover have "validConfirmationCode ''123456''" by code_simp
  ultimately show ?thesis using confirmation_codes_agree [OF s] s by (metis option.inject propertySchema.select_convs(1) propertySchema.update_convs(3))
qed

end
