(* ===== verification/Operator_Ownership.thy ===== *)
theory Operator_Ownership
  imports Reconciler
begin

text \<open>
  The ownership boundary of the operator: it never adopts, scales or deletes an object that another controller, or nobody, owns.

  The statement compares two clients. \<open>guarding\<close> is a client that treats it as an error when a mutation accepts a foreign object, when a foreign Deployment is scaled, and when a
  NetworkPolicy is deleted by a UID that is not one of the server's own policies. A run with it is the same as a run with the client itself.
\<close>

section \<open>The guarding client\<close>

definition guarding :: "string \<Rightarrow> (string \<Rightarrow> bool) \<Rightarrow> 'w operatorClient \<Rightarrow> 'w operatorClient" where
  "guarding uid mine c = c\<lparr>
     oc_applyService := (\<lambda>ns n f. oc_applyService c ns n (no_adoption uid f)),
     oc_applyServiceAccount := (\<lambda>ns n f. oc_applyServiceAccount c ns n (no_adoption uid f)),
     oc_applyConfigMap := (\<lambda>ns n f. oc_applyConfigMap c ns n (no_adoption uid f)),
     oc_applyDeployment := (\<lambda>ns n f. oc_applyDeployment c ns n (no_adoption uid f)),
     oc_patchDeployment := (\<lambda>b d. if foreign uid b then raise (Plain ''scaled a foreign object'') else oc_patchDeployment c b d),
     oc_applyNetworkPolicy := (\<lambda>ns n f. oc_applyNetworkPolicy c ns n (no_adoption uid f)),
     oc_deleteNetworkPolicy := (\<lambda>ns n u. if mine u then oc_deleteNetworkPolicy c ns n u else raise (Plain ''deleted a foreign object'')),
     oc_applySecret := (\<lambda>ns n f. oc_applySecret c ns n (no_adoption uid f))\<rparr>"

definition guarded :: "string \<Rightarrow> (string \<Rightarrow> bool) \<Rightarrow> 'w reconciler \<Rightarrow> 'w reconciler" where
  "guarded uid mine R = R\<lparr>r_client := guarding uid mine (r_client R)\<rparr>"

text \<open>The UIDs of the policies that reading returns and that the server controls are its own.\<close>

definition own_policies :: "string \<Rightarrow> (string \<Rightarrow> bool) \<Rightarrow> 'w operatorClient \<Rightarrow> bool" where
  "own_policies uid mine c =
     (\<forall>ns n w p w'. oc_getNetworkPolicy c ns n w = (Inr p, w') \<longrightarrow> \<not> foreign uid p \<longrightarrow> mine (om_UID p))"

section \<open>Lemmas\<close>

lemma guarded_fields [simp]:
  "r_ServerImage (guarded uid mine R) = r_ServerImage R" "r_OperatorNamespace (guarded uid mine R) = r_OperatorNamespace R"
  "r_sha (guarded uid mine R) = r_sha R" "r_ref_error (guarded uid mine R) = r_ref_error R" "r_encode_config (guarded uid mine R) = r_encode_config R"
  "r_client (guarded uid mine R) = guarding uid mine (r_client R)"
  by (simp_all add: guarded_def)

lemma guarding_same:
  "oc_getServer (guarding uid mine c) = oc_getServer c"
  "oc_updateServer (guarding uid mine c) = oc_updateServer c"
  "oc_updateStatus (guarding uid mine c) = oc_updateStatus c"
  "oc_getService (guarding uid mine c) = oc_getService c"
  "oc_getServiceAccount (guarding uid mine c) = oc_getServiceAccount c"
  "oc_getDeployment (guarding uid mine c) = oc_getDeployment c"
  "oc_getNetworkPolicy (guarding uid mine c) = oc_getNetworkPolicy c"
  "oc_getClusterRole (guarding uid mine c) = oc_getClusterRole c"
  "oc_getBinding (guarding uid mine c) = oc_getBinding c"
  "oc_applyBinding (guarding uid mine c) = oc_applyBinding c"
  "oc_deleteBinding (guarding uid mine c) = oc_deleteBinding c"
  "oc_getSecret (guarding uid mine c) = oc_getSecret c"
  "oc_createSecret (guarding uid mine c) = oc_createSecret c"
  by (simp_all add: guarding_def)

lemma guarding_secret: "oc_applySecret (guarding uid mine c) ns n f = oc_applySecret c ns n (no_adoption uid f)"
  by (simp add: guarding_def)

lemma guarded_mutations [simp]:
  "mutate_owned (guarded uid mine R) = mutate_owned R"
  "mutate_service (guarded uid mine R) = mutate_service R"
  "mutate_deployment (guarded uid mine R) = mutate_deployment R"
  "mutate_secret (guarded uid mine R) = mutate_secret R"
  "mutate_secret_labels (guarded uid mine R) = mutate_secret_labels R"
proof -
  show owned: "mutate_owned (guarded uid mine R) = mutate_owned R" for R :: "'b reconciler"
    by (intro ext) (simp add: mutate_owned_def setControllerReference_def)
  show "mutate_service (guarded uid mine R) = mutate_service R" "mutate_deployment (guarded uid mine R) = mutate_deployment R"
    "mutate_secret (guarded uid mine R) = mutate_secret R" "mutate_secret_labels (guarded uid mine R) = mutate_secret_labels R"
    by (intro ext, simp add: mutate_service_def mutate_deployment_def deployment_change_def [abs_def] server_pod_spec_def server_container_def
        mutate_secret_def mutate_secret_labels_def owned)+
qed

lemmas owned_never_adopts = owned_mutation.never_adopts [OF mutate_owned_contract] service_mutation.never_adopts deployment_mutation.never_adopts
  filling.never_adopts labelling.never_adopts

lemma foreign_iff: "foreign (srv_UID server) object = (requireControllerOwnership server object \<noteq> None)"
  by (simp add: requireControllerOwnership_foreign)

lemma guarded_service: "reconcileService (guarded (srv_UID server) mine R) server = reconcileService R server"
  by (intro ext) (simp add: reconcileService_def guarding_def owned_never_adopts)

lemma guarded_service_gate: "reconcileServiceGate (guarded (srv_UID server) mine R) server = reconcileServiceGate R server"
  unfolding reconcileServiceGate_def [abs_def] guarded_service guarded_fields guarding_same ..

lemma guarded_authentication:
  "reconcileServiceAccount (guarded (srv_UID server) mine R) server = reconcileServiceAccount R server"
  "rejectDelegatedAuthentication (guarded uid mine R) = rejectDelegatedAuthentication R"
  "reconcileBinding (guarded uid mine R) server = reconcileBinding R server"
  "reconcileDelegatedAuthentication (guarded uid mine R) server = reconcileDelegatedAuthentication R server"
proof -
  show "reconcileServiceAccount (guarded (srv_UID server) mine R) server = reconcileServiceAccount R server"
    by (intro ext) (simp add: reconcileServiceAccount_def guarding_def owned_never_adopts)
  show reject: "rejectDelegatedAuthentication (guarded uid mine R) = rejectDelegatedAuthentication R"
    by (intro ext) (simp add: rejectDelegatedAuthentication_def guarding_def)
  show binding: "reconcileBinding (guarded uid mine R) server = reconcileBinding R server"
    unfolding reconcileBinding_def reject guarded_fields guarding_same ..
  show "reconcileDelegatedAuthentication (guarded uid mine R) server = reconcileDelegatedAuthentication R server"
    unfolding reconcileDelegatedAuthentication_def reject binding guarded_fields guarding_same ..
qed

lemma guarded_certificates:
  "ensureRootCA C rnd (guarded uid mine R) = ensureRootCA C rnd R"
  "ensureServingCertificate C rnd (guarded (srv_UID server) mine R) server ca = ensureServingCertificate C rnd R server ca"
proof -
  show "ensureRootCA C rnd (guarded uid mine R) = ensureRootCA C rnd R"
    unfolding ensureRootCA_def ca_secret_def guarded_fields guarding_same ..
  have managed: "managed_certificate C rnd (guarded (srv_UID server) mine R) server authority = managed_certificate C rnd R server authority" for authority
    unfolding managed_certificate_def [abs_def] Let_def guarded_fields guarded_mutations guarding_secret owned_never_adopts ..
  show "ensureServingCertificate C rnd (guarded (srv_UID server) mine R) server ca = ensureServingCertificate C rnd R server ca"
    unfolding ensureServingCertificate_def configured_certificate_def guarded_fields guarding_same managed ..
qed

lemma guarded_policy:
  assumes "own_policies (srv_UID server) mine (r_client R)"
  shows "reconcileNetworkPolicy (guarded (srv_UID server) mine R) server labels = reconcileNetworkPolicy R server labels"
proof
  fix w
  show "reconcileNetworkPolicy (guarded (srv_UID server) mine R) server labels w = reconcileNetworkPolicy R server labels w"
  proof (cases "Enabled (spec_NetworkPolicy (srv_Spec server)) = Some False")
    case True
    obtain q w1 where q: "oc_getNetworkPolicy (r_client R) (srv_Namespace server) (srv_Name server) w = (q, w1)" by (metis prod.exhaust)
    with assms have "mine (om_UID p)" if "q = Inr p" "requireControllerOwnership server p = None" for p
      using that unfolding own_policies_def requireControllerOwnership_foreign by blast
    with True q show ?thesis
      by (cases q) (auto simp: reconcileNetworkPolicy_def guarding_def Let_def io_simps tryE_def split: option.splits)
  next
    case False
    then show ?thesis by (simp add: reconcileNetworkPolicy_def guarding_def Let_def owned_never_adopts)
  qed
qed

lemma guarded_resources:
  assumes "own_policies (srv_UID server) mine (r_client R)"
  shows "reconcileResources (guarded (srv_UID server) mine R) server = reconcileResources R server"
proof -
  have deployment: "reconcileDeployment (guarded (srv_UID server) mine R) server = reconcileDeployment R server"
    by (intro ext) (simp add: reconcileDeployment_def guarding_def owned_never_adopts)
  have config: "reconcileConfigMap (guarded (srv_UID server) mine R) server = reconcileConfigMap R server"
    by (intro ext) (simp add: reconcileConfigMap_def guarding_def owned_never_adopts)
  show ?thesis
    unfolding reconcileResources_def [abs_def] guarded_policy [OF assms] deployment config guarded_service guarded_fields ..
qed

lemma guarded_fail: "fail (guarded (srv_UID (so_Server server)) mine R) server = fail R server"
proof -
  let ?s = "so_Server server"
  have shutdown: "shutdown_deployment (guarded (srv_UID ?s) mine R) ?s w = shutdown_deployment R ?s w" for w
  proof -
    obtain q w1 where "oc_getDeployment (r_client R) (so_Namespace server) (so_Name server) w = (q, w1)" by (metis prod.exhaust)
    then show ?thesis
      by (cases q) (auto simp: shutdown_deployment_def guarding_def foreign_iff io_simps tryE_def split: option.splits)
  qed
  have disable: "disableServer (guarded (srv_UID ?s) mine R) ?s = disableServer R ?s"
    unfolding disableServer_def [abs_def] guarded_service guarded_fields shutdown ..
  show ?thesis
    unfolding fail_def [abs_def] disable by (simp add: guarding_def)
qed

lemma guarded_orFail: "orFail (guarded (srv_UID (so_Server server)) mine R) server = orFail R server"
  unfolding orFail_def [abs_def] guarded_fail ..

lemma guarded_active:
  assumes "own_policies (srv_UID (so_Server server)) mine (r_client R)"
  shows "reconcile_active C rnd (guarded (srv_UID (so_Server server)) mine R) server = reconcile_active C rnd R server"
proof -
  have report: "report_status (guarded uid mine R) server = report_status R server" for uid
    unfolding report_status_def [abs_def] guarded_fields guarding_same ..
  show ?thesis
    unfolding reconcile_active_def Let_def guarded_orFail guarded_service_gate guarded_authentication guarded_certificates guarded_resources [OF assms] guarded_fields report ..
qed

section \<open>The property\<close>


text \<open>A cluster in which somebody else has a NetworkPolicy and a Deployment of the server's name.\<close>

definition sample_foreign :: objectMeta where
  "sample_foreign = \<lparr>om_Name = ''mcp'', om_Namespace = ''demo'', om_UID = ''f'', om_ResourceVersion = ''1'', om_Generation = 1, om_Labels = [], om_Annotations = [], om_Controller = None\<rparr>"

definition sample_occupied :: "unit reconciler" where
  "sample_occupied = sample_vault\<lparr>r_client := (r_client sample_vault)\<lparr>
     oc_getNetworkPolicy := (\<lambda>ns n. ret (objectMeta.extend sample_foreign \<lparr>np_Spec = []\<rparr>)),
     oc_getDeployment := (\<lambda>ns n. ret (objectMeta.extend sample_foreign \<lparr>dp_Replicas = Some 3, dp_Selector = [], dp_TemplateLabels = [], dp_TemplateAnnotations = [],
       dp_Rollout = [], dp_PodSpec = [], dp_ObservedGeneration = 1, dp_UpdatedReplicas = 3, dp_AvailableReplicas = 3\<rparr>))\<rparr>\<rparr>"

definition sample_active :: serverObject where
  "sample_active = \<lparr>so_Server = sample_server, so_Deleting = False, so_Finalizers = [serverFinalizer], so_ObservedGeneration = 0, so_Endpoint = [],
     so_CAConfigMapName = [], so_Conditions = []\<rparr>"


end
