(* ===== verification/Operator_Status.thy ===== *)
theory Operator_Status
  imports Operator_Safety
begin

text \<open>
  What the operator reports and what it leaves behind: when the status of a server says that it is ready, and the protocol of the finalizer, which keeps the cluster-wide binding of
  a deleted server from being forgotten. Both are stated on the log of changes of \<open>Operator_Safety\<close>.
\<close>

section \<open>Reported readiness\<close>

fun is_status :: "opEvent \<Rightarrow> bool" where
  "is_status (StatusUpdated s) = True"
| "is_status ev = False"

fun is_update :: "opEvent \<Rightarrow> bool" where
  "is_update (ServerUpdated s e) = True"
| "is_update ev = False"

definition ready_of :: "serverObject \<Rightarrow> bool" where
  "ready_of s = (case mget (so_Conditions s) ''Ready'' of Some c \<Rightarrow> cd_Status c | None \<Rightarrow> False)"

text \<open>The API answered a read of the Deployment with this object, in some state of the cluster.\<close>

definition was_read :: "'w reconciler \<Rightarrow> string \<Rightarrow> string \<Rightarrow> Deployment \<Rightarrow> bool" where
  "was_read R ns name deployment = (\<exists>w w'. oc_getDeployment (r_client R) ns name w = (Inr deployment, w'))"

text \<open>
  The changes \<open>es\<close> justify the status \<open>s\<close>: they end with the Deployment and the Service of the same revision, and the generation of that Deployment was read back as rolled out
  and available.
\<close>

definition justified :: "'w reconciler \<Rightarrow> string \<Rightarrow> string \<Rightarrow> opEvent list \<Rightarrow> bool" where
  "justified R ns name es =
     (\<exists>earlier d service deployment.
        es = earlier @ [Applied deployments ns name (Some (ADeployment d)), Applied services ns name (Some (AService service))] \<and>
        template_revision d = selected_revision service \<and> was_read R ns name deployment \<and> om_Generation deployment = om_Generation d \<and>
        om_Generation d \<le> dp_ObservedGeneration deployment \<and> 1 \<le> dp_UpdatedReplicas deployment \<and> 1 \<le> dp_AvailableReplicas deployment)"

text \<open>The API refused the update of the status with this error.\<close>

definition refused :: "'w reconciler \<Rightarrow> serverObject \<Rightarrow> gerr \<Rightarrow> bool" where
  "refused R s e = (\<exists>w. fst (oc_updateStatus (r_client R) s w) = Inl e)"

text \<open>
  What a run with the outcome \<open>r\<close> reports: nothing, when it failed, or one status at its end. A ready status is justified by the changes in front of it; a run that fails
  with a ready status failed because the API refused just this status.
\<close>

definition reported :: "'w reconciler \<Rightarrow> string \<Rightarrow> string \<Rightarrow> (gerr, ctrlResult) res \<Rightarrow> opEvent list \<Rightarrow> bool" where
  "reported R ns name r es =
     (\<exists>quiet. list_all (\<lambda>ev. \<not> is_status ev) quiet \<and>
        ((es = quiet \<and> isl r) \<or>
         (\<exists>s. es = quiet @ [StatusUpdated s] \<and> (ready_of s \<longrightarrow> justified R ns name quiet) \<and>
            (case r of Inr res \<Rightarrow> ready_of s = (res_RequeueAfter res = 5 * minute) | Inl e \<Rightarrow> ready_of s \<longrightarrow> refused R s e))))"

abbreviation reports :: "'w reconciler \<Rightarrow> string \<Rightarrow> string \<Rightarrow> ('w \<times> opEvent list, gerr, ctrlResult) io \<Rightarrow> bool" where
  "reports R ns name \<equiv> holds_on (reported R ns name)"

lemma refusedI: "oc_updateStatus (r_client R) s w = (Inl e, w') \<Longrightarrow> refused R s e"
  unfolding refused_def by (intro exI [of _ w]) simp

lemma ready_of_status [simp]:
  "\<not> ready_of (failed_status condition_type reason cause server)" "ready_of (ready_status ready server) = ready"
  by (simp_all add: ready_of_def failed_status_def ready_status_def setCondition_def Let_def)

lemma justified_append: "justified R ns name es \<Longrightarrow> justified R ns name (es' @ es)"
  unfolding justified_def by (metis append.assoc)

lemma reported_append:
  assumes "list_all (\<lambda>ev. \<not> is_status ev) es'" "reported R ns name r es"
  shows "reported R ns name r (es' @ es)"
proof -
  from assms(2) obtain quiet where q: "list_all (\<lambda>ev. \<not> is_status ev) quiet"
    "(es = quiet \<and> isl r) \<or> (\<exists>s. es = quiet @ [StatusUpdated s] \<and> (ready_of s \<longrightarrow> justified R ns name quiet) \<and>
            (case r of Inr res \<Rightarrow> ready_of s = (res_RequeueAfter res = 5 * minute) | Inl e \<Rightarrow> ready_of s \<longrightarrow> refused R s e))"
    unfolding reported_def by blast
  show ?thesis unfolding reported_def
    by (rule exI [of _ "es' @ quiet"]) (use q assms(1) in \<open>auto intro: justified_append\<close>)
qed

interpretation reporting: run_contract "reported R ns name" "\<lambda>ev. \<not> is_status ev" for R ns name
  by unfold_locales (rule reported_append)

section \<open>Steps that report nothing\<close>

lemma emits_weaken: "emits ok m \<Longrightarrow> (\<And>ev. ok ev \<Longrightarrow> ok' ev) \<Longrightarrow> emits ok' m"
  unfolding emits_def by (metis list.pred_mono_strong)

lemma silent_steps:
  "emits (\<lambda>ev. \<not> is_update ev \<and> \<not> is_status ev) (reconcileService (watched R) server labels policyRev revision)"
  "emits (\<lambda>ev. \<not> is_update ev \<and> \<not> is_status ev) (reconcileServiceGate (watched R) server labels policyRev)"
  "emits (\<lambda>ev. \<not> is_update ev \<and> \<not> is_status ev) (reconcileServiceAccount (watched R) server labels)"
  "emits (\<lambda>ev. \<not> is_update ev \<and> \<not> is_status ev) (rejectDelegatedAuthentication (watched R) name cause)"
  "emits (\<lambda>ev. \<not> is_update ev \<and> \<not> is_status ev) (reconcileDelegatedAuthentication (watched R) server)"
  "emits (\<lambda>ev. \<not> is_update ev \<and> \<not> is_status ev) (ensureRootCA C rnd (watched R))"
  "emits (\<lambda>ev. \<not> is_update ev \<and> \<not> is_status ev) (ensureServingCertificate C rnd (watched R) server ca)"
  "emits (\<lambda>ev. \<not> is_update ev \<and> \<not> is_status ev) (reconcileResources (watched R) server labels policyRev certificate)"
  "emits (\<lambda>ev. \<not> is_update ev \<and> \<not> is_status ev) (shutdown_deployment (watched R) server)"
  unfolding reconcileServiceGate_def reconcileServiceAccount_def reconcileDelegatedAuthentication_def
    reconcileBinding_def rejectDelegatedAuthentication_def ensureRootCA_def ensureServingCertificate_def managed_certificate_def
    reconcileResources_def reconcileConfigMap_def reconcileNetworkPolicy_def reconcileDeployment_def reconcileService_def shutdown_deployment_def
    Let_def watched_simps
  by (intro op_intros; simp add: logged_client_def op_intros)+

lemmas quiet_steps = silent_steps [THEN emits_weaken, where ok' = "\<lambda>ev. \<not> is_status ev", simplified]

section \<open>The report of a run\<close>

lemma reports_fail: "reports R ns name (fail (watched R) server condition_type reason cause)"
proof (rule holds_onI)
  fix w log r w' log' assume run: "fail (watched R) server condition_type reason cause (w, log) = (r, (w', log'))"
  obtain q w1 log1 where dis: "disableServer (watched R) (so_Server server) (w, log) = (q, (w1, log1))" by (metis prod.exhaust)
  obtain es where es: "log1 = log @ es" "list_all (\<lambda>ev. \<not> is_status ev) es"
    using emits_disable [OF quiet_steps(1) quiet_steps(9) dis] by blast
  have "log' = log1 @ [StatusUpdated (failed_status condition_type reason (failure_cause cause q) server)]" "isl r"
    using run dis by (auto simp: fail_def logged_client_def noted_def Let_def split: prod.splits)
  with es show "\<exists>es. log' = log @ es \<and> reported R ns name r es" unfolding reported_def
    by (intro exI [of _ "es @ [StatusUpdated (failed_status condition_type reason (failure_cause cause q) server)]"] conjI exI [of _ es])
      (auto split: sum.splits)
qed

lemma reports_orFail:
  assumes "emits (\<lambda>ev. \<not> is_status ev) m" "\<And>x. reports R ns name (k x)"
  shows "reports R ns name (orFail (watched R) server condition_type reason m k)"
  by (rule holds_orFail [OF reporting.run_contract_axioms assms(1) reports_fail assms(2)])

text \<open>What a rollout returns is the generation of the Deployment that it applied.\<close>

definition rolled_out_as :: "string \<Rightarrow> string \<Rightarrow> int \<Rightarrow> opEvent list \<Rightarrow> bool" where
  "rolled_out_as ns name g es =
     (\<exists>earlier d service. es = earlier @ [Applied deployments ns name (Some (ADeployment d)), Applied services ns name (Some (AService service))] \<and>
        template_revision d = selected_revision service \<and> g = om_Generation d)"

definition rolls_out :: "string \<Rightarrow> string \<Rightarrow> ('w \<times> opEvent list, gerr, int) io \<Rightarrow> bool" where
  "rolls_out ns name m = (\<forall>w log g w' log'. m (w, log) = (Inr g, (w', log')) \<longrightarrow> (\<exists>es. log' = log @ es \<and> rolled_out_as ns name g es))"

lemma rolls_out_bind:
  assumes "emits (\<lambda>ev. True) f" "\<And>x. rolls_out ns name (g x)"
  shows "rolls_out ns name (bindE f g)"
  unfolding rolls_out_def
proof (intro allI impI)
  fix w log y w' log' assume run: "bindE f g (w, log) = (Inr y, (w', log'))"
  obtain q w1 log1 where q: "f (w, log) = (q, (w1, log1))" by (metis prod.exhaust)
  with run obtain x where "g x (w1, log1) = (Inr y, (w', log'))" by (cases q) (auto simp: io_simps)
  with assms(2) [of x] obtain es where "log' = log1 @ es" "rolled_out_as ns name y es" unfolding rolls_out_def by blast
  moreover obtain es' where "log1 = log @ es'" using emitsD [OF assms(1) q] by blast
  moreover have "rolled_out_as ns name y (es' @ es)" using \<open>rolled_out_as ns name y es\<close> unfolding rolled_out_as_def by (metis append.assoc)
  ultimately show "\<exists>es. log' = log @ es \<and> rolled_out_as ns name y es" by (intro exI [of _ "es' @ es"]) simp
qed

lemma rollout_generation:
  assumes "runs_mutation sv_Selector (oc_applyService (r_client R))" "runs_mutation dp_TemplateLabels (oc_applyDeployment (r_client R))"
  shows "rolls_out (srv_Namespace server) (srv_Name server)
    (bindE (reconcileDeployment (watched R) server labels revision configRevision tlsRevision) (\<lambda>deploymentGeneration.
     bindE (reconcileService (watched R) server labels policyRev revision) (\<lambda>_. ret deploymentGeneration)))"
  unfolding rolls_out_def
proof (intro allI impI)
  let ?deploy = "reconcileDeployment (watched R) server labels revision configRevision tlsRevision"
  fix w log g w' log'
  assume "bindE ?deploy (\<lambda>deploymentGeneration. bindE (reconcileService (watched R) server labels policyRev revision) (\<lambda>_. ret deploymentGeneration)) (w, log) =
      (Inr g, (w', log'))"
  then obtain w1 log1 u where q: "?deploy (w, log) = (Inr g, (w1, log1))"
    and s: "reconcileService (watched R) server labels policyRev revision (w1, log1) = (Inr u, (w', log'))"
    by (auto elim!: bindE_InrE simp: io_Inr_iff)
  from deployment_applied [OF q] obtain d where d:
    "log1 = log @ [Applied deployments (srv_Namespace server) (srv_Name server) (Some (ADeployment d))]"
    "oc_applyDeployment (r_client R) (srv_Namespace server) (srv_Name server)
      (mutate_deployment (watched R) server labels revision configRevision tlsRevision) w = (Inr d, w1)" by blast
  have g: "g = om_Generation d" using q d(2)
    by (auto simp: reconcileDeployment_def logged_client_def applied_def noted_def wrapE_def io_simps split: prod.splits sum.splits)
  have revision: "template_revision d = revision"
    using deployment_mutation.applied_as [OF assms(2) d(2)]
    by (auto simp: deployment_change_def template_revision_def serverPodLabels_def)
  from service_step [OF assms(1) s] obtain service where
    "log' = log1 @ [Applied services (srv_Namespace server) (srv_Name server) (Some (AService service))]" "selected_revision service = revision"
    by (auto split: option.splits)
  then show "\<exists>es. log' = log @ es \<and> rolled_out_as (srv_Namespace server) (srv_Name server) g es"
    using d(1) g revision unfolding rolled_out_as_def by auto
qed

lemma resources_roll_out:
  assumes "runs_mutation sv_Selector (oc_applyService (r_client R))" "runs_mutation dp_TemplateLabels (oc_applyDeployment (r_client R))"
  shows "rolls_out (srv_Namespace server) (srv_Name server) (reconcileResources (watched R) server labels policyRev certificate)"
  unfolding reconcileResources_def Let_def
  by (intro rolls_out_bind rollout_generation assms)
     (simp_all add: reconcileConfigMap_def reconcileNetworkPolicy_def Let_def logged_client_def op_intros)

lemma report_step:
  assumes "report_status (watched R) server g (w, log) = (r, (w', log'))"
  shows "(log' = log \<and> isl r) \<or>
    (\<exists>ready. log' = log @ [StatusUpdated (ready_status ready server)] \<and>
       (ready \<longrightarrow> (\<exists>deployment. was_read R (so_Namespace server) (so_Name server) deployment \<and> deployment_ready g (Some deployment))) \<and>
       (case r of Inr res \<Rightarrow> ready = (res_RequeueAfter res = 5 * minute) | Inl e \<Rightarrow> refused R (ready_status ready server) e))"
proof -
  obtain q w1 where q: "oc_getDeployment (r_client R) (so_Namespace server) (so_Name server) w = (q, w1)" by (metis prod.exhaust)
  define found where "found = (case q of Inr d \<Rightarrow> Some d | Inl e \<Rightarrow> None)"
  define ready where "ready = deployment_ready g found"
  have ready: "\<exists>deployment. was_read R (so_Namespace server) (so_Name server) deployment \<and> deployment_ready g (Some deployment)" if ready
    using that q by (cases q) (auto simp: ready_def found_def deployment_ready_def was_read_def)
  have "(log' = log \<and> isl r) \<or> (log' = log @ [StatusUpdated (ready_status ready server)] \<and>
      (case r of Inr res \<Rightarrow> ready = (res_RequeueAfter res = 5 * minute) | Inl e \<Rightarrow> refused R (ready_status ready server) e))"
    using assms q unfolding ready_def found_def
    by (auto simp: report_status_def logged_client_def unlogged_def noted_def io_simps tryE_def Let_def deployment_ready_def
        split: prod.splits sum.splits if_splits intro: refusedI)
  with ready show ?thesis by blast
qed

lemma reports_rollout:
  assumes "runs_mutation sv_Selector (oc_applyService (r_client R))" "runs_mutation dp_TemplateLabels (oc_applyDeployment (r_client R))"
  shows "reports R (so_Namespace server) (so_Name server) (orFail (watched R) server condition_type reason
    (reconcileResources (watched R) (so_Server server) labels policyRev certificate) (report_status (watched R) server))"
proof (rule holds_onI)
  let ?m = "reconcileResources (watched R) (so_Server server) labels policyRev certificate"
  fix w log r w' log' assume run: "orFail (watched R) server condition_type reason ?m (report_status (watched R) server) (w, log) = (r, (w', log'))"
  obtain q w1 log1 where q: "?m (w, log) = (q, (w1, log1))" by (metis prod.exhaust)
  obtain es where es: "log1 = log @ es" "list_all (\<lambda>ev. \<not> is_status ev) es" using emitsD [OF quiet_steps(8) q] by blast
  show "\<exists>es. log' = log @ es \<and> reported R (so_Namespace server) (so_Name server) r es"
  proof (cases q)
    case (Inl e)
    then have "fail (watched R) server condition_type reason e (w1, log @ es) = (r, (w', log'))" using run q es(1) by (simp add: orFail_def)
    then show ?thesis using es(2) by (rule reporting.after_quiet [OF reports_fail])
  next
    case (Inr g)
    then have "report_status (watched R) server g (w1, log1) = (r, (w', log'))" using run q by (simp add: orFail_def)
    note step = report_step [OF this]
    have out: "rolled_out_as (so_Namespace server) (so_Name server) g es"
      using resources_roll_out [OF assms, of "so_Server server" labels policyRev certificate] q Inr es(1) unfolding rolls_out_def by blast
    have "justified R (so_Namespace server) (so_Name server) es"
      if "was_read R (so_Namespace server) (so_Name server) deployment" "deployment_ready g (Some deployment)" for deployment
      using out that unfolding rolled_out_as_def justified_def deployment_ready_def by fastforce
    with step es show ?thesis unfolding reported_def
      by (elim disjE exE conjE) (auto split: sum.splits intro!: exI [of _ es])
  qed
qed

lemma reports_active:
  assumes "runs_mutation sv_Selector (oc_applyService (r_client R))" "runs_mutation dp_TemplateLabels (oc_applyDeployment (r_client R))"
  shows "reports R (so_Namespace server) (so_Name server) (reconcile_active C rnd (watched R) server)"
  unfolding reconcile_active_def Let_def watched_simps
  by (intro reports_orFail reports_rollout assms) (simp_all add: quiet_steps op_intros)

lemma active_keeps_server: "emits (\<lambda>ev. \<not> is_update ev) (reconcile_active C rnd (watched R) server)"
proof -
  note steps = silent_steps [THEN emits_weaken, where ok' = "\<lambda>ev. \<not> is_update ev", simplified]
  have "emits (\<lambda>ev. \<not> is_update ev) (fail (watched R) server condition_type reason e)" for condition_type reason e
    by (rule emits_fail) (simp_all add: steps logged_client_def op_intros)
  then show ?thesis unfolding reconcile_active_def report_status_def Let_def watched_simps
    by (intro emits_orFail steps op_intros; simp add: logged_client_def op_intros)
qed

section \<open>Properties\<close>

text \<open>
  Property C5 (the status tells the truth). A reconciliation of an active server reports its status at most once, as its last change. It reports that the server is ready only after the run applied
  the Deployment and, right after it, the Service that selects the pods of just this revision, and only when the API then showed that generation of the Deployment as observed,
  updated and available. A run that succeeds always reports, and comes back after five minutes exactly when it reported ready; a run that fails never reports
  ready, except when the API refused that very report.
\<close>

theorem ready_is_justified:
  assumes "runs_mutation sv_Selector (oc_applyService (r_client R))" "runs_mutation dp_TemplateLabels (oc_applyDeployment (r_client R))"
    and server: "oc_getServer (r_client R) ns name w = (Inr server, w1)" "\<not> so_Deleting server" "serverFinalizer \<in> set (so_Finalizers server)"
    and run: "Reconcile C rnd (watched R) ns name (w, log) = (r, (w', log'))"
  shows "\<exists>es. log' = log @ es \<and> reported R (so_Namespace server) (so_Name server) r es"
proof -
  let ?server = "server\<lparr>so_Server := Default (so_Server server)\<rparr>"
  have active: "reconcile_active C rnd (watched R) ?server (w1, log) = (r, (w', log'))"
    using run server by (simp add: Reconcile_def reconcile_found_def logged_client_def unlogged_def io_simps tryE_def)
  have names: "so_Namespace ?server = so_Namespace server" "so_Name ?server = so_Name server" by (simp_all add: Default_def)
  from holds_onD [OF reports_active [OF assms(1, 2)] active] show ?thesis unfolding names .
qed

text \<open>
  Property C6 (the finalizer protocol). A server without the finalizer gets it before anything is created for it, and a run on an active server never takes it away. Of a deleted server the
  binding is removed first; only when that succeeded, or the binding was gone, the finalizer is removed and nothing else is changed, every other finalizer kept. So the API can drop a
  server only after its cluster-wide binding is gone, and the binding is applied only while the finalizer is there.
\<close>

theorem finalizer_protocol:
  assumes server: "oc_getServer (r_client R) ns name w = (Inr server, w1)"
    and run: "Reconcile C rnd (watched R) ns name (w, log) = (r, (w', log'))"
  shows "\<exists>es. log' = log @ es \<and>
    (if so_Deleting server then
       (if serverFinalizer \<notin> set (so_Finalizers server) then es = []
        else \<exists>gone. (es = [Removed bindings [] (clusterBindingName (r_sha R) (so_Server server)) gone] \<and> isl r \<and> (\<exists>e. gone = Some e \<and> \<not> is_not_found e)) \<or>
          (\<exists>err. es = [Removed bindings [] (clusterBindingName (r_sha R) (so_Server server)) gone,
               ServerUpdated (server\<lparr>so_Finalizers := filter (\<lambda>f. f \<noteq> serverFinalizer) (so_Finalizers server)\<rparr>) err] \<and>
             (\<forall>e. gone = Some e \<longrightarrow> is_not_found e)))
     else if serverFinalizer \<notin> set (so_Finalizers server)
       then \<exists>err. es = [ServerUpdated (server\<lparr>so_Finalizers := so_Finalizers server @ [serverFinalizer]\<rparr>) err]
     else \<not> list_ex is_update es)"
proof -
  have found: "reconcile_found C rnd (watched R) server (w1, log) = (r, (w', log'))"
    using run server by (simp add: Reconcile_def logged_client_def unlogged_def io_simps tryE_def)
  show ?thesis
  proof (cases "so_Deleting server")
    case True
    then show ?thesis using found
      by (auto simp: reconcile_found_def finalize_def logged_client_def noted_def io_simps tryE_def Let_def unless_missing_def err_of_def
          split: prod.splits sum.splits if_splits option.splits)
  next
    case False
    show ?thesis
    proof (cases "serverFinalizer \<in> set (so_Finalizers server)")
      case True
      then have "reconcile_active C rnd (watched R) (server\<lparr>so_Server := Default (so_Server server)\<rparr>) (w1, log) = (r, (w', log'))"
        using found False by (simp add: reconcile_found_def)
      from emitsD [OF active_keeps_server this] show ?thesis using False True by (auto simp: list_ex_iff list_all_iff)
    next
      case absent: False
      then show ?thesis using found False
        by (auto simp: reconcile_found_def logged_client_def noted_def io_simps err_of_def split: prod.splits sum.splits)
    qed
  qed
qed

section \<open>Witnesses\<close>

definition available_reconciler :: "unit reconciler" where
  "available_reconciler = sample_reconciler\<lparr>r_client := sample_client\<lparr>oc_getDeployment := \<lambda>ns name.
     ret (sample_pods\<lparr>dp_ObservedGeneration := 1, dp_UpdatedReplicas := 1, dp_AvailableReplicas := 1\<rparr>)\<rparr>\<rparr>"

definition available_run :: "(gerr, ctrlResult) res \<times> unit \<times> opEvent list" where
  "available_run = Reconcile sample_crypto sample_randomness (watched available_reconciler) ''demo'' ''mcp'' ((), [])"

lemma available_run_ready: "fst available_run = Inr \<lparr>res_Requeue = False, res_RequeueAfter = 5 * minute\<rparr>"
  by code_simp

theorem ready_is_justified_witness:
  "\<exists>quiet s. snd (snd available_run) = quiet @ [StatusUpdated s] \<and> ready_of s \<and> justified available_reconciler ''demo'' ''mcp'' quiet"
proof -
  obtain r w' log' where run: "Reconcile sample_crypto sample_randomness (watched available_reconciler) ''demo'' ''mcp'' ((), []) = (r, (w', log'))"
    by (metis prod.exhaust)
  have r: "r = Inr \<lparr>res_Requeue = False, res_RequeueAfter = 5 * minute\<rparr>" using available_run_ready run by (simp add: available_run_def)
  have "runs_mutation sv_Selector (oc_applyService (r_client available_reconciler))" "runs_mutation dp_TemplateLabels (oc_applyDeployment (r_client available_reconciler))"
    "oc_getServer (r_client available_reconciler) ''demo'' ''mcp'' () = (Inr sample_object, ())"
    "\<not> so_Deleting sample_object" "serverFinalizer \<in> set (so_Finalizers sample_object)"
    "so_Namespace sample_object = ''demo''" "so_Name sample_object = ''mcp''"
    by (simp_all add: available_reconciler_def sample_reconciler_def sample_client_def sample_runs sample_object_def sample_server_def io_simps)
  then have "reported available_reconciler ''demo'' ''mcp'' r log'" using ready_is_justified [OF _ _ _ _ _ run, of sample_object "()"] by simp
  then show ?thesis using r run unfolding reported_def by (auto simp: available_run_def)
qed

definition deleted_object :: serverObject where
  "deleted_object = sample_object\<lparr>so_Deleting := True, so_Finalizers := [''other'', serverFinalizer]\<rparr>"

definition deleting_reconciler :: "unit reconciler" where
  "deleting_reconciler = sample_reconciler\<lparr>r_client := sample_client\<lparr>oc_getServer := \<lambda>ns name. ret deleted_object\<rparr>\<rparr>"

theorem finalizer_protocol_witness:
  "\<exists>gone err. snd (snd (Reconcile sample_crypto sample_randomness (watched deleting_reconciler) ''demo'' ''mcp'' ((), []))) =
     [Removed bindings [] (clusterBindingName (r_sha deleting_reconciler) sample_server) gone, ServerUpdated (deleted_object\<lparr>so_Finalizers := [''other'']\<rparr>) err]"
proof -
  obtain r w' log' where run: "Reconcile sample_crypto sample_randomness (watched deleting_reconciler) ''demo'' ''mcp'' ((), []) = (r, (w', log'))"
    by (metis prod.exhaust)
  have "\<not> isl (fst (Reconcile sample_crypto sample_randomness (watched deleting_reconciler) ''demo'' ''mcp'' ((), [])))" by code_simp
  then have ok: "\<not> isl r" using run by simp
  have server: "oc_getServer (r_client deleting_reconciler) ''demo'' ''mcp'' () = (Inr deleted_object, ())" by (simp add: deleting_reconciler_def io_simps)
  have fields: "so_Deleting deleted_object" "so_Finalizers deleted_object = [''other'', serverFinalizer]" "so_Server deleted_object = sample_server"
    by (simp_all add: deleted_object_def sample_object_def)
  have "filter (\<lambda>f. f \<noteq> serverFinalizer) [''other'', serverFinalizer] = [''other'']" by (simp add: serverFinalizer_def)
  with finalizer_protocol [OF server run] ok run show ?thesis by (auto simp: fields)
qed

end
