(* ===== verification/Operator_Run.thy ===== *)
theory Operator_Run
  imports Start_Up Operator_Status
begin

text \<open>
  The start of the operator (\<open>internal/operator/run.go\<close>) and its controller (\<open>SetupWithManager\<close> of \<open>reconciler.go\<close>): what the manager caches, which kinds it reads without the
  cache, and whose changes it watches.

  The manager of controller-runtime is a parameter: the outcome of each call that the code makes on it, in their order.
\<close>

section \<open>The manager\<close>

datatype objectKind = KServer | KServiceAccount | KService | KConfigMap | KDeployment | KNetworkPolicy | KSecret | KClusterRole | KClusterRoleBinding

definition managedSelector :: "(string \<times> string) list" where
  "managedSelector = [(''app.kubernetes.io/managed-by'', ''supek8smcp-operator'')]"

text \<open>\<open>labels.SelectorFromSet\<close>: every label of the set has its value.\<close>

definition selector_matches :: "(string \<times> string) list \<Rightarrow> (string \<times> string) list \<Rightarrow> bool" where
  "selector_matches selector labels = list_all (\<lambda>(k, v). mget labels k = Some v) selector"

definition uncachedObjects :: "objectKind list" where
  "uncachedObjects = [KSecret, KClusterRole, KClusterRoleBinding, KServiceAccount, KService, KConfigMap, KDeployment, KNetworkPolicy]"

record managerOptions =
  mo_ByObject :: "(objectKind \<times> (string \<times> string) list) list"
  mo_DisableFor :: "objectKind list"
  mo_MetricsAddress :: string
  mo_HealthAddress :: string
  mo_LeaderElection :: bool
  mo_LeaderElectionID :: string

definition manager_options :: "operatorOptions \<Rightarrow> managerOptions" where
  "manager_options opts =
     \<lparr>mo_ByObject = [(KServiceAccount, managedSelector), (KService, managedSelector), (KConfigMap, managedSelector), (KDeployment, managedSelector),
        (KNetworkPolicy, managedSelector)],
      mo_DisableFor = uncachedObjects, mo_MetricsAddress = oo_MetricsAddress opts, mo_HealthAddress = oo_HealthAddress opts,
      mo_LeaderElection = oo_LeaderElection opts, mo_LeaderElectionID = ''operator.mcp.supek8smcp.io''\<rparr>"

text \<open>The kind whose objects are reconciled, and the kinds whose changes go to the server that controls the object.\<close>

record controller =
  ct_For :: objectKind
  ct_Owns :: "objectKind list"

definition SetupWithManager :: controller where
  "SetupWithManager = \<lparr>ct_For = KServer, ct_Owns = [KDeployment, KService, KServiceAccount, KConfigMap, KNetworkPolicy]\<rparr>"

text \<open>The calls on the manager: each may fail, \<open>mc_Start\<close> returns when the manager ends.\<close>

record managerCalls =
  mc_AddToScheme :: "gerr option"
  mc_NewManager :: "managerOptions \<Rightarrow> gerr option"
  mc_Complete :: "controller \<Rightarrow> gerr option"
  mc_AddHealthzCheck :: "string \<Rightarrow> gerr option"
  mc_AddReadyzCheck :: "string \<Rightarrow> gerr option"
  mc_Start :: "gerr option"

definition wrap_error :: "string \<Rightarrow> gerr option \<Rightarrow> gerr option" where
  "wrap_error prefix err = map_option (Wrapped prefix) err"

fun first_some :: "gerr option list \<Rightarrow> gerr option" where
  "first_some [] = None"
| "first_some (None # es) = first_some es"
| "first_some (Some e # es) = Some e"

definition operator_Run :: "managerCalls \<Rightarrow> operatorOptions \<Rightarrow> gerr option" where
  "operator_Run M opts =
     first_some
       [wrap_error ''register MCP API'' (mc_AddToScheme M),
        wrap_error ''create manager'' (mc_NewManager M (manager_options opts)),
        wrap_error ''setup controller'' (mc_Complete M SetupWithManager),
        wrap_error ''add health check'' (mc_AddHealthzCheck M ''healthz''),
        wrap_error ''add readiness check'' (mc_AddReadyzCheck M ''readyz''),
        mc_Start M]"

text \<open>The reconciler that the manager runs; the client, the hash and the codec are the parameters of the reconciler.\<close>

definition operator_reconciler ::
  "'w operatorClient \<Rightarrow> (string \<Rightarrow> string) \<Rightarrow> (KubernetesMCPServer \<Rightarrow> string option \<Rightarrow> gerr option) \<Rightarrow> (Config \<Rightarrow> string) \<Rightarrow> operatorOptions \<Rightarrow> 'w reconciler" where
  "operator_reconciler c sha ref_error encode_config opts =
     \<lparr>r_client = c, r_ServerImage = oo_ServerImage opts, r_OperatorNamespace = oo_OperatorNamespace opts, r_sha = sha, r_ref_error = ref_error, r_encode_config = encode_config\<rparr>"

text \<open>Which kinds a read goes to the API server for, and whether the cache of the manager holds an object with these labels.\<close>

definition reads_uncached :: "managerOptions \<Rightarrow> objectKind \<Rightarrow> bool" where
  "reads_uncached m kind = (kind \<in> set (mo_DisableFor m))"

definition cache_holds :: "managerOptions \<Rightarrow> objectKind \<Rightarrow> (string \<times> string) list \<Rightarrow> bool" where
  "cache_holds m kind labels = (case mget (mo_ByObject m) kind of Some selector \<Rightarrow> selector_matches selector labels | None \<Rightarrow> True)"

section \<open>Lemmas\<close>

lemma ServerLabels_managed: "selector_matches managedSelector (ServerLabels server)"
  by (simp add: selector_matches_def managedSelector_def ServerLabels_def mget_def)

text \<open>A change whose object the manager sees: it is in the cache, and its controller is the server.\<close>

definition delivered :: "managerOptions \<Rightarrow> controller \<Rightarrow> objectKind \<Rightarrow> KubernetesMCPServer \<Rightarrow> 'x objectMeta_scheme \<Rightarrow> bool" where
  "delivered m ctl kind server x = (kind \<in> set (ct_Owns ctl) \<and> cache_holds m kind (om_Labels x) \<and> om_Controller x = Some (srv_UID server))"

fun comes_back :: "managerOptions \<Rightarrow> controller \<Rightarrow> KubernetesMCPServer \<Rightarrow> opEvent \<Rightarrow> bool" where
  "comes_back m ctl server (Applied resource ns name (Some (AService x))) = delivered m ctl KService server x"
| "comes_back m ctl server (Applied resource ns name (Some (ADeployment x))) = delivered m ctl KDeployment server x"
| "comes_back m ctl server (Applied resource ns name (Some (AConfigMap x))) = delivered m ctl KConfigMap server x"
| "comes_back m ctl server ev = True"

abbreviation seen :: "'x objectMeta_scheme \<Rightarrow> (string \<times> string) list \<times> string option" where
  "seen x \<equiv> (om_Labels x, om_Controller x)"

definition faithful_client :: "'w operatorClient \<Rightarrow> bool" where
  "faithful_client c = (runs_mutation seen (oc_applyService c) \<and> runs_mutation seen (oc_applyDeployment c) \<and> runs_mutation seen (oc_applyConfigMap c))"

lemma emits_applied_as:
  assumes "\<And>x w w'. app ns name f w = (Inr x, w') \<Longrightarrow> ok (Applied resource ns name (Some (tag x)))" "ok (Applied resource ns name None)"
  shows "emits ok (applied resource tag app ns name f)"
  using assms by (auto simp: emits_def applied_def noted_def split: prod.splits sum.splits)

lemma owned_seen:
  assumes "runs_mutation seen app" "app ns name (mutate_owned R server change) w = (Inr x, w')" "\<And>object. om_Labels (change object) = labels"
  shows "om_Labels x = labels \<and> om_Controller x = Some (srv_UID server)"
  using owned_mutation.applied_as [OF mutate_owned_contract assms(1,2)] assms(3) by auto

lemma emits_owned:
  assumes "runs_mutation seen app" "\<And>object. om_Labels (change object) = ServerLabels server"
    and "\<And>x. om_Labels x = ServerLabels server \<Longrightarrow> om_Controller x = Some (srv_UID server) \<Longrightarrow> ok (Applied resource ns name (Some (tag x)))"
    and "ok (Applied resource ns name None)"
  shows "emits ok (applied resource tag app ns name (mutate_owned R server change))"
proof (rule emits_applied_as)
  fix x w w' assume "app ns name (mutate_owned R server change) w = (Inr x, w')"
  with owned_seen [OF assms(1) this assms(2)] show "ok (Applied resource ns name (Some (tag x)))" using assms(3) by blast
qed (rule assms(4))

lemma delivered_kinds:
  assumes "om_Labels x = ServerLabels server" "om_Controller x = Some (srv_UID server)" "kind \<in> {KService, KDeployment, KConfigMap}"
  shows "delivered (manager_options opts) SetupWithManager kind server x"
  using assms ServerLabels_managed [of server]
  by (auto simp: delivered_def SetupWithManager_def cache_holds_def manager_options_def mget_def)

abbreviation returns_to :: "operatorOptions \<Rightarrow> KubernetesMCPServer \<Rightarrow> opEvent \<Rightarrow> bool" where
  "returns_to opts server \<equiv> comes_back (manager_options opts) SetupWithManager server"

lemma returned_services:
  assumes "faithful_client (r_client R)"
  shows "emits (returns_to opts server) (reconcileService (watched R) server (ServerLabels server) policyRev revision)"
    "emits (returns_to opts server) (reconcileServiceGate (watched R) server (ServerLabels server) policyRev)"
proof -
  show one: "emits (returns_to opts server) (reconcileService (watched R) server (ServerLabels server) policyRev revision)" for revision
    using assms unfolding reconcileService_def mutate_service_def watched_simps
    by (auto simp: logged_client_def faithful_client_def service_change_def delivered_kinds
        intro!: emits_bind emits_wrapE emits_pure emits_owned)
  show "emits (returns_to opts server) (reconcileServiceGate (watched R) server (ServerLabels server) policyRev)"
    unfolding reconcileServiceGate_def watched_simps by (intro op_intros one) (simp_all add: logged_client_def op_intros)
qed

lemma emits_applied_tag:
  assumes "\<And>x. ok (Applied resource ns name (Some (tag x)))" "ok (Applied resource ns name None)"
  shows "emits ok (applied resource tag app ns name f)"
  using assms by (rule emits_applied_as)

lemmas other_intros = emits_applied_tag emits_unlogged emits_noted emits_wrapE emits_option emits_pure emits_bind emits_try emits_if emits_case emits_prod emits_Let

lemma returned_authentication:
  "emits (returns_to opts server) (reconcileServiceAccount (watched R) server labels)"
  "emits (returns_to opts server) (rejectDelegatedAuthentication (watched R) name cause)"
  "emits (returns_to opts server) (reconcileDelegatedAuthentication (watched R) server')"
  "emits (returns_to opts server) (ensureRootCA C rnd (watched R))"
  "emits (returns_to opts server) (ensureServingCertificate C rnd (watched R) server' ca)"
  "emits (returns_to opts server) (shutdown_deployment (watched R) server')"
  unfolding reconcileServiceAccount_def reconcileDelegatedAuthentication_def reconcileBinding_def rejectDelegatedAuthentication_def
    ensureRootCA_def ensureServingCertificate_def managed_certificate_def shutdown_deployment_def Let_def watched_simps
  by (intro other_intros; simp add: logged_client_def other_intros split: sum.split)+

lemma returned_resources:
  assumes "faithful_client (r_client R)"
  shows "emits (returns_to opts server) (reconcileResources (watched R) server (ServerLabels server) policyRev certificate)"
proof -
  have maps: "emits (returns_to opts server) (reconcileConfigMap (watched R) server (ServerLabels server) suffix entry)" for suffix entry
    using assms unfolding reconcileConfigMap_def watched_simps
    by (auto simp: logged_client_def faithful_client_def delivered_kinds intro!: emits_owned)
  have deploy: "emits (returns_to opts server) (reconcileDeployment (watched R) server (ServerLabels server) revision configRevision tlsRevision)"
    for revision configRevision tlsRevision
    using assms unfolding reconcileDeployment_def mutate_deployment_def watched_simps
    by (auto simp: logged_client_def faithful_client_def deployment_change_def delivered_kinds intro!: emits_bind emits_wrapE emits_pure emits_owned)
  have policy: "emits (returns_to opts server) (reconcileNetworkPolicy (watched R) server (ServerLabels server))"
    unfolding reconcileNetworkPolicy_def Let_def watched_simps by (intro other_intros; simp add: logged_client_def other_intros)
  show ?thesis unfolding reconcileResources_def Let_def
    by (intro emits_bind emits_wrapE emits_pure maps deploy policy returned_services(1) [OF assms])
qed

lemma returned_active:
  assumes "faithful_client (r_client R)"
  shows "emits (returns_to opts (so_Server server)) (reconcile_active C rnd (watched R) server)"
proof -
  note steps = returned_services [OF assms] returned_authentication returned_resources [OF assms]
  have "emits (returns_to opts (so_Server server)) (fail (watched R) server condition_type reason e)" for condition_type reason e
    by (rule emits_fail) (simp_all add: steps logged_client_def op_intros)
  then show ?thesis unfolding reconcile_active_def report_status_def Let_def watched_simps
    by (intro emits_orFail steps op_intros; simp add: logged_client_def op_intros)
qed


lemma comes_back_uid: "srv_UID server = srv_UID server' \<Longrightarrow> comes_back m ctl server ev = comes_back m ctl server' ev"
  by (cases "(m, ctl, server, ev)" rule: comes_back.cases) (simp_all add: delivered_def)

lemma returned_found:
  assumes "faithful_client (r_client R)"
  shows "emits (returns_to opts (so_Server server)) (reconcile_found C rnd (watched R) server)"
proof -
  have same: "returns_to opts (Default (so_Server server)) = returns_to opts (so_Server server)"
    by (intro ext comes_back_uid) (simp add: Default_def)
  have active: "emits (returns_to opts (so_Server server)) (reconcile_active C rnd (watched R) (server\<lparr>so_Server := Default (so_Server server)\<rparr>))"
    using returned_active [OF assms, of opts "server\<lparr>so_Server := Default (so_Server server)\<rparr>" C rnd] by (simp add: same)
  have "emits (returns_to opts (so_Server server)) (finalize (watched R) server)"
    unfolding finalize_def Let_def watched_simps by (intro op_intros; simp add: logged_client_def op_intros)
  moreover have "emits (returns_to opts (so_Server server)) (oc_updateServer (logged_client (r_client R)) s)" for s
    by (simp add: logged_client_def op_intros)
  ultimately show ?thesis using active unfolding reconcile_found_def watched_simps by (intro emits_if emits_bind emits_pure)
qed

lemma operator_Run_started: "operator_Run M opts = None \<longleftrightarrow>
    mc_AddToScheme M = None \<and> mc_NewManager M (manager_options opts) = None \<and> mc_Complete M SetupWithManager = None \<and>
    mc_AddHealthzCheck M ''healthz'' = None \<and> mc_AddReadyzCheck M ''readyz'' = None \<and> mc_Start M = None"
proof -
  have "first_some es = None \<longleftrightarrow> list_all (\<lambda>e. e = None) es" for es by (induction es rule: first_some.induct) auto
  then show ?thesis by (simp add: operator_Run_def wrap_error_def)
qed

section \<open>Property\<close>


section \<open>Witness\<close>

definition sample_operator :: operatorOptions where
  "sample_operator = operator_options (\<lambda>name. []) []"


end
