(* ===== verification/Spec2Isabelle.thy ===== *)
theory Spec2Isabelle
  imports Well_Typed Upstream Serving Operator_Ownership Operator_Run
begin

text \<open>
  supek8smcp is a gateway between AI clients that speak the Model Context Protocol and the Kubernetes API. An operator
  (\<open>internal/operator\<close>) runs one server (\<open>internal/server\<close>) per custom resource (\<open>api/v1alpha1\<close>). The
  server authenticates every request as a Kubernetes identity, limits its rate and concurrency, lets the client
  search the capabilities that its policy allows, read resources with redaction, and change resources in two steps:
  \<open>k8s.plan\<close> dry-runs the change and stores it with a confirmation code, \<open>k8s.commit\<close> consumes the stored plan and
  executes it once. The operator keeps the objects that a server runs on: its Deployment and configuration, its
  certificate, the Service that lets traffic in, and the role binding that lets it review tokens.

  The theories, in the order in which they build on each other. The basis:

  \<^item> \<open>Prelude\<close>: results as sums, state passing with errors, Go's int64 arithmetic and durations, Go maps as association
    lists without duplicate keys, the named collections of simplification rules, and the locale \<open>step_invariant\<close> of invariants of step relations,
    which the gateway and the discovery requests interpret.
  \<^item> \<open>Go_Text\<close>, \<open>Go_Value\<close>: what the code uses of Go's standard library: byte strings, trimming, case folding, decimal numbers,
    base64 and hex; decoded JSON values (\<open>gval\<close>), \<open>reflect.DeepEqual\<close>, \<open>fmt.Sprint\<close> and \<open>encoding/json\<close> output.
  \<^item> \<open>Errors\<close> (errors.go, audit.go): the error values, their normalisation for clients, and the audit outcome.
  \<^item> \<open>Server_Config\<close> (kubernetesmcpserver_types.go, runtimeconfig/config.go): the specification, its defaults and its validation.

  The server's components:

  \<^item> \<open>Policy\<close> (policy.go): the static checks and the access reviews, with the cache of one search.
  \<^item> \<open>Ledger\<close>: the interface \<open>byte_ledger\<close>, a locale of tables with a byte counter; the plan store, the rate limiter and
    the schema cache interpret it.
  \<^item> \<open>Plan_Store\<close> (planstore.go): pending plans, their budgets, expiry and confirmation.
  \<^item> \<open>Admission\<close> (ratelimit.go, admission.go, timeouts.go): token buckets per identity, concurrency slots, deadlines.
  \<^item> \<open>Safe_Write\<close> (safe_write.go): the payload guard of the SafeWrite mode.
  \<^item> \<open>Redaction\<close> (redaction.go): redaction of secrets and annotations, the bound on outputs.
  \<^item> \<open>Capability\<close> (capability.go): the handles that name an action on a resource.
  \<^item> \<open>Remote\<close> (remote.go): exec and attach with bounded output buffers.
  \<^item> \<open>Operations\<close> (operations.go): planning, preview, preconditions, execution and commit.
  \<^item> \<open>Read_Output\<close> (read_output.go): cleaning, summaries, tables and projections of what a read returns.
  \<^item> \<open>Identity\<close> (auth.go): subject and identity keys, TokenReview, the delegated clients, the limit on response bodies.
  \<^item> \<open>Schema\<close> (schema.go, schema_cache.go): schema expansion with budgets, and the cache of OpenAPI documents.
  \<^item> \<open>Catalog\<close> (catalog.go): discovery, the refreshing catalog, and the authorized and paginated search.
  \<^item> \<open>Reads\<close> (reads.go): the handlers of search, describe and read, with watches and logs.

  \<^item> \<open>Well_Typed\<close>: that redaction, shaping and the read handler return values which Go can hold (\<open>gtyped\<close>), proved in the locale
    \<open>value_class\<close> for any class of values that is closed under what the server builds.

  How a request reaches them:

  \<^item> \<open>Audit_Log\<close> (audit.go, upstream.go): audit lines and counters.
  \<^item> \<open>Manual\<close> (manual.go): the built-in manual of the tools.
  \<^item> \<open>Gateway\<close> (the middleware of auth.go, http.go, NewApp and Serve of run.go): one request through the middleware, and
    \<open>gate_step\<close>, the step relation that interleaves the steps of many requests.
  \<^item> \<open>Tools\<close> (newMCPServer and decodeCommitInput of run.go): registered tools and their handlers.
  \<^item> \<open>Upstream\<close> (upstream.go, the metrics of NewApp, catalog.go and schema_cache.go): the registry, the metered caches, the gauges,
    \<open>telemetry_run\<close>, the telemetry that any sequence of these calls reaches, and \<open>context_step\<close>, the life of a discovery request that is bound to a tool call.
  \<^item> \<open>Serving\<close> (the rest of run.go and main.go): the settings and routes of the HTTP servers, the end of Serve and of the process, progress
    messages, and the schema published for \<open>k8s.commit\<close>.

  The operator:

  \<^item> \<open>Cluster\<close>: its objects and its client, ownership, names and revisions (reconciler.go); the locale \<open>owned_mutation\<close> is
    the contract of the functions that change owned objects, which those of the next two theories interpret.
  \<^item> \<open>Certificates\<close> (certificates.go): the root authority and the serving certificates.
  \<^item> \<open>Reconciler\<close> (reconciler.go): \<open>Reconcile\<close> and all its steps.
  \<^item> \<open>Operator_Safety\<close>: what a run of \<open>Reconcile\<close> changes, as the log of an instrumented client; the locale \<open>run_contract\<close> composes
    relations between the outcome and the log along the steps of a run.
  \<^item> \<open>Operator_Ownership\<close>: that it changes nothing of other owners, by comparison with a client that would refuse it.
  \<^item> \<open>Operator_Status\<close>: when it reports a server as ready, and the protocol of the finalizer, on the same log.
  \<^item> \<open>Start_Up\<close> (main.go, Run of run.go): the command line, and that deployed pods load the configuration that was reconciled.
  \<^item> \<open>Operator_Run\<close> (operator/run.go, SetupWithManager of reconciler.go): the options of the manager and what its controller follows.

  State is passed explicitly: a Go struct with a mutex is a record, and each method that holds the mutex is one function
  on it, so that interleavings of goroutines are sequences of such steps. The Kubernetes API is a parameter (a record of
  functions on a world of any type); the theorems about \<open>commit\<close>, \<open>plan\<close>, reads and the operator instrument it with a log
  of the calls. SHA-256, HMAC, X.509, random numbers, the clock, the token bucket of golang.org/x/time/rate and
  the MCP library are parameters too, and what a theorem needs of them is a hypothesis of it.

  Iteration over a Go map has no order; the model takes the order of the association list, and the theorems
  about results hold for every order. Integers are \<open>int\<close> with \<open>wrap64\<close> where the code computes with
  attacker-controlled numbers. No definition uses fuel: every recursion is structural or has a measure.

  What is shown. Writes: a commit writes at most once, after all its checks, what a human confirmed; plans are bounded and
  one-time; accepted SafeWrite payloads are confined; a ReadOnly server cannot write. Access: the policy decision equals its
  abstract specification; reads and searches are authorized during the call; a request is served only as the principal of its own
  token. Outputs: redaction hides secret values; watches, logs and pages are exact and bounded; results are well typed. Resources: slots, tables
  and caches are bounded in every interleaving, and every request can end. Audit: every tool call leaves one line that
  says what was done, and the metrics add up with the lines. Operator: its objects are out of reach of the server's clients, objects of other owners stay untouched, the Service selects only what the run
  applied, a server is reported ready only when that revision is available, the finalizer outlives the binding, delegated authentication fails closed, what the operator owns comes back to
  it when it changes, serving certificates verify, and pods run the configuration that was reconciled. Handles, plans and configurations round-trip.

  Not modelled: generated deep copies and scheme registration (groupversion_info.go, zz_generated.deepcopy.go), which have no logic of their own; a copy of a
  value is the value. Sockets, TLS and the shutdown of listeners, the Prometheus, Kubernetes, controller-runtime and MCP libraries are not
  part of the repository: the code's calls on them are modelled, their outcomes are parameters. Logging other than the audit, signals and the parsing of flags are left out.
  The function schemaForCapability of schema.go without a cache is called by no code of the server.
\<close>

end
